theory Spec2Isabelle
  imports Main
begin

section \<open>Python values\<close>

text \<open>
  The scripts work on what \<^verbatim>\<open>yaml.safe_load\<close> and \<^verbatim>\<open>json.loads\<close> return: trees of
  \<^verbatim>\<open>None\<close>, booleans, integers, strings, lists and dictionaries. Floats, dates and
  non-string dictionary keys are left out. A dictionary is an association list in
  insertion order. A Python \<^verbatim>\<open>str\<close> is a \<^typ>\<open>string\<close> whose characters are the code
  points below 256; a message literal of the source that holds a code point above 255
  is written with its Python escape (the arrow U+2192 as the six characters of
  \<^verbatim>\<open>\u2192\<close>).
\<close>

datatype pyval =
    PNone
  | PBool bool
  | PInt int
  | PStr string
  | PList "pyval list"
  | PDict "(string \<times> pyval) list"

type_synonym pydict = "(string \<times> pyval) list"

text \<open>The exceptions the modelled code can raise; a raise is the value \<open>Inl e\<close>.\<close>

datatype py_error = TypeError | AttributeError | KeyError | NameError | ValueError

type_synonym 'a result = "py_error + 'a"

definition bind :: "'a result \<Rightarrow> ('a \<Rightarrow> 'b result) \<Rightarrow> 'b result" where
  "bind r f = (case r of Inl e \<Rightarrow> Inl e | Inr x \<Rightarrow> f x)"

subsection \<open>Dictionaries\<close>

text \<open>\<^verbatim>\<open>k in d\<close>, \<^verbatim>\<open>d[k] = v\<close> (in place when the key exists, appended otherwise) and
  \<^verbatim>\<open>del d[k]\<close>; \<^verbatim>\<open>d[k]\<close> itself is \<^const>\<open>map_of\<close>.\<close>

definition dict_has :: "pydict \<Rightarrow> string \<Rightarrow> bool" where
  "dict_has d k = (map_of d k \<noteq> None)"

fun dict_set :: "string \<Rightarrow> pyval \<Rightarrow> pydict \<Rightarrow> pydict" where
  "dict_set k v [] = [(k, v)]"
| "dict_set k v (p # ps) = (if fst p = k then (k, v) # ps else p # dict_set k v ps)"

definition dict_del :: "string \<Rightarrow> pydict \<Rightarrow> pydict" where
  "dict_del k d = filter (\<lambda>p. fst p \<noteq> k) d"

subsection \<open>Strings\<close>

definition sq :: "string \<Rightarrow> string" where
  \<comment> \<open>the text between single quotes, as in \<^verbatim>\<open>f"'{x}'"\<close>\<close>
  "sq s = CHR 0x27 # s @ [CHR 0x27]"

definition startswith :: "string \<Rightarrow> string \<Rightarrow> bool" where
  "startswith s p = (take (length p) s = p)"

definition endswith :: "string \<Rightarrow> string \<Rightarrow> bool" where
  "endswith s p = (length p \<le> length s \<and> drop (length s - length p) s = p)"

fun str_in :: "string \<Rightarrow> string \<Rightarrow> bool" where
  \<comment> \<open>\<^verbatim>\<open>n in s\<close> on two strings\<close>
  "str_in n [] = (n = [])"
| "str_in n (c # cs) = (startswith (c # cs) n \<or> str_in n cs)"

definition is_space :: "char \<Rightarrow> bool" where
  \<comment> \<open>\<^verbatim>\<open>str.isspace\<close> and the class \<^verbatim>\<open>\s\<close>, on the code points below 256\<close>
  "is_space c = (c \<in> set [CHR 0x09, CHR 0x0A, CHR 0x0B, CHR 0x0C, CHR 0x0D,
                            CHR 0x1C, CHR 0x1D, CHR 0x1E, CHR 0x1F, CHR 0x20,
                            CHR 0x85, CHR 0xA0])"

definition strip :: "string \<Rightarrow> string" where
  "strip s = rev (dropWhile is_space (rev (dropWhile is_space s)))"

fun split_ws_acc :: "string \<Rightarrow> string \<Rightarrow> string list" where
  \<comment> \<open>the word read so far, the rest of the text\<close>
  "split_ws_acc w [] = (if w = [] then [] else [w])"
| "split_ws_acc w (c # cs) =
     (if is_space c then (if w = [] then split_ws_acc [] cs else w # split_ws_acc [] cs)
      else split_ws_acc (w @ [c]) cs)"

definition split_ws :: "string \<Rightarrow> string list" where
  \<comment> \<open>\<^verbatim>\<open>s.split()\<close>\<close>
  "split_ws s = split_ws_acc [] s"

fun join :: "string \<Rightarrow> string list \<Rightarrow> string" where
  "join sep [] = []"
| "join sep [x] = x"
| "join sep (x # y # ys) = x @ sep @ join sep (y # ys)"

subsection \<open>\<^verbatim>\<open>str()\<close> and \<^verbatim>\<open>repr()\<close>\<close>

definition digit_char :: "nat \<Rightarrow> char" where
  "digit_char n = ''0123456789'' ! n"

fun str_nat :: "nat \<Rightarrow> string" where
  "str_nat n = (if n < 10 then [digit_char n] else str_nat (n div 10) @ [digit_char (n mod 10)])"

declare str_nat.simps [simp del]

definition str_int :: "int \<Rightarrow> string" where
  "str_int i = (if i < 0 then CHR ''-'' # str_nat (nat (- i)) else str_nat (nat i))"

definition hex_char :: "nat \<Rightarrow> char" where
  "hex_char n = ''0123456789abcdef'' ! n"

definition is_printable :: "char \<Rightarrow> bool" where
  \<comment> \<open>\<^verbatim>\<open>str.isprintable\<close> on the code points below 256\<close>
  "is_printable c =
     (let n = (of_char c :: nat) in (32 \<le> n \<and> n < 127) \<or> (161 \<le> n \<and> n \<noteq> 173))"

definition repr_char :: "char \<Rightarrow> char \<Rightarrow> string" where
  "repr_char quote c =
     (if c = quote \<or> c = CHR 0x5C then [CHR 0x5C, c]
      else if c = CHR 0x09 then [CHR 0x5C, CHR ''t'']
      else if c = CHR 0x0A then [CHR 0x5C, CHR ''n'']
      else if c = CHR 0x0D then [CHR 0x5C, CHR ''r'']
      else if is_printable c then [c]
      else [CHR 0x5C, CHR ''x'', hex_char (of_char c div 16), hex_char (of_char c mod 16)])"

definition repr_str :: "string \<Rightarrow> string" where
  "repr_str s =
     (let quote = (if CHR 0x27 \<in> set s \<and> CHR 0x22 \<notin> set s then CHR 0x22 else CHR 0x27)
      in quote # concat (map (repr_char quote) s) @ [quote])"

fun py_repr :: "pyval \<Rightarrow> string" where
  "py_repr PNone = ''None''"
| "py_repr (PBool b) = (if b then ''True'' else ''False'')"
| "py_repr (PInt i) = str_int i"
| "py_repr (PStr s) = repr_str s"
| "py_repr (PList xs) = ''['' @ join '', '' (map py_repr xs) @ '']''"
| "py_repr (PDict d) =
     ''{'' @ join '', '' (map (\<lambda>p. repr_str (fst p) @ '': '' @ py_repr (snd p)) d) @ ''}''"

definition py_str :: "pyval \<Rightarrow> string" where
  "py_str v = (case v of PStr s \<Rightarrow> s | _ \<Rightarrow> py_repr v)"

subsection \<open>Operators on dynamically typed values\<close>

definition py_truthy :: "pyval \<Rightarrow> bool" where
  "py_truthy v =
     (case v of PNone \<Rightarrow> False | PBool b \<Rightarrow> b | PInt i \<Rightarrow> i \<noteq> 0 | PStr s \<Rightarrow> s \<noteq> []
      | PList xs \<Rightarrow> xs \<noteq> [] | PDict d \<Rightarrow> d \<noteq> [])"

definition py_contains :: "string \<Rightarrow> pyval \<Rightarrow> bool result" where
  \<comment> \<open>\<^verbatim>\<open>k in v\<close> for a string \<open>k\<close>\<close>
  "py_contains k v =
     (case v of PStr s \<Rightarrow> Inr (str_in k s)
      | PList xs \<Rightarrow> Inr (PStr k \<in> set xs)
      | PDict d \<Rightarrow> Inr (dict_has d k)
      | _ \<Rightarrow> Inl TypeError)"

definition py_getitem :: "pyval \<Rightarrow> string \<Rightarrow> pyval result" where
  \<comment> \<open>\<^verbatim>\<open>v[k]\<close> for a string \<open>k\<close>\<close>
  "py_getitem v k =
     (case v of PDict d \<Rightarrow> (case map_of d k of None \<Rightarrow> Inl KeyError | Some x \<Rightarrow> Inr x)
      | _ \<Rightarrow> Inl TypeError)"

definition py_setitem :: "pyval \<Rightarrow> string \<Rightarrow> pyval \<Rightarrow> pyval result" where
  \<comment> \<open>\<^verbatim>\<open>v[k] = x\<close>, returning the updated object\<close>
  "py_setitem v k x = (case v of PDict d \<Rightarrow> Inr (PDict (dict_set k x d)) | _ \<Rightarrow> Inl TypeError)"

definition py_delitem :: "pyval \<Rightarrow> string \<Rightarrow> pyval result" where
  "py_delitem v k =
     (case v of PDict d \<Rightarrow> (if dict_has d k then Inr (PDict (dict_del k d)) else Inl KeyError)
      | _ \<Rightarrow> Inl TypeError)"

definition py_get :: "pyval \<Rightarrow> string \<Rightarrow> pyval \<Rightarrow> pyval result" where
  \<comment> \<open>\<^verbatim>\<open>v.get(k, default)\<close>\<close>
  "py_get v k dflt =
     (case v of PDict d \<Rightarrow> (case map_of d k of None \<Rightarrow> Inr dflt | Some x \<Rightarrow> Inr x)
      | _ \<Rightarrow> Inl AttributeError)"

definition py_len :: "pyval \<Rightarrow> nat result" where
  "py_len v =
     (case v of PStr s \<Rightarrow> Inr (length s) | PList xs \<Rightarrow> Inr (length xs)
      | PDict d \<Rightarrow> Inr (length d) | _ \<Rightarrow> Inl TypeError)"

definition py_strip :: "pyval \<Rightarrow> string result" where
  "py_strip v = (case v of PStr s \<Rightarrow> Inr (strip s) | _ \<Rightarrow> Inl AttributeError)"

definition py_startswith :: "pyval \<Rightarrow> string \<Rightarrow> bool result" where
  "py_startswith v p = (case v of PStr s \<Rightarrow> Inr (startswith s p) | _ \<Rightarrow> Inl AttributeError)"

definition py_iter :: "pyval \<Rightarrow> pyval list result" where
  \<comment> \<open>the elements a \<^verbatim>\<open>for\<close> loop sees: a dictionary yields its keys, a string its characters\<close>
  "py_iter v =
     (case v of PList xs \<Rightarrow> Inr xs
      | PDict d \<Rightarrow> Inr (map (\<lambda>p. PStr (fst p)) d)
      | PStr s \<Rightarrow> Inr (map (\<lambda>c. PStr [c]) s)
      | _ \<Rightarrow> Inl TypeError)"

definition hashable :: "pyval \<Rightarrow> bool" where
  "hashable v = (case v of PList xs \<Rightarrow> False | PDict d \<Rightarrow> False | _ \<Rightarrow> True)"

section \<open>Command migration (migrate-command.py)\<close>

definition alias_map :: "(string \<times> string) list" where
  "alias_map = [(''haiku'', ''claude-haiku-4-5''),
                (''sonnet'', ''claude-sonnet-4-5''),
                (''opus'', ''claude-opus-4-5'')]"

definition arrow :: string where
  "arrow = [CHR 0x5C] @ ''u2192''"

definition alias_lookup :: "pyval \<Rightarrow> string option" where
  \<comment> \<open>\<^verbatim>\<open>alias_map[model]\<close> when \<^verbatim>\<open>model in alias_map\<close>\<close>
  "alias_lookup model = (case model of PStr s \<Rightarrow> map_of alias_map s | _ \<Rightarrow> None)"

definition migrate_short_alias_to_version_alias :: "pydict \<Rightarrow> (pydict \<times> string list) result" where
  "migrate_short_alias_to_version_alias frontmatter =
     (case map_of frontmatter ''model'' of
        None \<Rightarrow> Inr (frontmatter, [])
      | Some model \<Rightarrow>
          if \<not> hashable model then Inl TypeError
          else (case alias_lookup model of
                  Some new_value \<Rightarrow>
                    Inr (dict_set ''model'' (PStr new_value) frontmatter,
                         [''Migrated model: '' @ sq (py_str model) @ '' '' @ arrow @ '' ''
                            @ sq new_value])
                | None \<Rightarrow>
                    if model = PStr ''inherit''
                    then Inr (dict_del ''model'' frontmatter,
                              [''Removed model: '' @ sq ''inherit''
                                 @ '' (use field omission instead)''])
                    else Inr (frontmatter, [])))"

definition migrate_argument_hint_format :: "pydict \<Rightarrow> pydict \<times> string list" where
  "migrate_argument_hint_format frontmatter =
     (case map_of frontmatter ''argument-hint'' of
        None \<Rightarrow> (frontmatter, [])
      | Some hint0 \<Rightarrow>
          let (fm1, ch1, hint) =
                (case hint0 of
                   PList items \<Rightarrow>
                     let hint_str = join '' '' (map py_str items)
                     in (dict_set ''argument-hint'' (PStr hint_str) frontmatter,
                         [''Converted argument-hint from list to string: '' @ hint_str],
                         PStr hint_str)
                 | _ \<Rightarrow> (frontmatter, [], hint0))
          in if \<not> startswith (py_str hint) ''[''
             then let new_value = ''['' @ py_str hint @ '']''
                  in (dict_set ''argument-hint'' (PStr new_value) fm1,
                      ch1 @ [''Added brackets to argument-hint: '' @ sq (py_str hint) @ '' ''
                               @ arrow @ '' '' @ sq new_value])
             else (fm1, ch1))"

definition migrate_tools_field_name :: "pydict \<Rightarrow> pydict \<times> string list" where
  "migrate_tools_field_name frontmatter =
     (case map_of frontmatter ''tools'' of
        Some tools \<Rightarrow>
          if \<not> dict_has frontmatter ''allowed-tools''
          then (dict_del ''tools'' (dict_set ''allowed-tools'' tools frontmatter),
                [''Renamed field: '' @ sq ''tools'' @ '' '' @ arrow @ '' '' @ sq ''allowed-tools''])
          else (frontmatter, [])
      | None \<Rightarrow> (frontmatter, []))"

definition apply_all_migrations :: "pydict \<Rightarrow> (pydict \<times> string list) result" where
  "apply_all_migrations frontmatter =
     bind (migrate_short_alias_to_version_alias frontmatter) (\<lambda>(fm1, changes1).
       let (fm2, changes2) = migrate_argument_hint_format fm1;
           (fm3, changes3) = migrate_tools_field_name fm2
       in Inr (fm3, changes1 @ changes2 @ changes3))"

section \<open>Hook migration (migrate-hook.py)\<close>

definition VALID_EVENTS :: "string list" where
  "VALID_EVENTS = [''PreToolUse'', ''PostToolUse'', ''UserPromptSubmit'', ''Stop'',
                   ''SessionStart'', ''Notification'', ''SubagentStop'', ''PreCompact'']"

definition TOOL_EVENTS :: "string list" where
  "TOOL_EVENTS = [''PreToolUse'', ''PostToolUse'']"

definition LIFECYCLE_EVENTS :: "string list" where
  "LIFECYCLE_EVENTS = [''UserPromptSubmit'', ''Stop'', ''SessionStart'', ''Notification'',
                       ''SubagentStop'', ''PreCompact'']"

subsection \<open>The loops\<close>

text \<open>
  Every migration walks \<^verbatim>\<open>hooks_config['hooks'].items()\<close> and, inside, enumerates a
  sequence, changing the dictionaries it meets in place. A loop body takes the element and
  returns it as it is after the body ran, with the messages the body appended; the first
  exception ends the loop.
\<close>

fun for_enum ::
  "(nat \<Rightarrow> pyval \<Rightarrow> (pyval \<times> string list) result) \<Rightarrow> nat \<Rightarrow> pyval list
     \<Rightarrow> (pyval list \<times> string list) result" where
  "for_enum body i [] = Inr ([], [])"
| "for_enum body i (x # xs) =
     bind (body i x) (\<lambda>(x', c).
       bind (for_enum body (Suc i) xs) (\<lambda>(xs', cs). Inr (x' # xs', c @ cs)))"

definition for_each ::
  "(nat \<Rightarrow> pyval \<Rightarrow> (pyval \<times> string list) result) \<Rightarrow> pyval \<Rightarrow> (pyval \<times> string list) result" where
  \<comment> \<open>\<^verbatim>\<open>for i, x in enumerate(v)\<close>; only the elements of a list can be changed in place\<close>
  "for_each body v =
     bind (py_iter v) (\<lambda>xs.
       bind (for_enum body 0 xs) (\<lambda>(xs', ch).
         Inr ((case v of PList _ \<Rightarrow> PList xs' | _ \<Rightarrow> v), ch)))"

fun for_events ::
  "(string \<Rightarrow> pyval \<Rightarrow> (pyval \<times> string list) result) \<Rightarrow> pydict \<Rightarrow> (pydict \<times> string list) result" where
  "for_events body [] = Inr ([], [])"
| "for_events body (p # rest) =
     bind (body (fst p) (snd p)) (\<lambda>(h', c).
       bind (for_events body rest) (\<lambda>(rest', cs). Inr ((fst p, h') # rest', c @ cs)))"

definition py_items :: "pyval \<Rightarrow> pydict result" where
  "py_items v = (case v of PDict d \<Rightarrow> Inr d | _ \<Rightarrow> Inl AttributeError)"

definition with_hooks ::
  "(string \<Rightarrow> pyval \<Rightarrow> (pyval \<times> string list) result) \<Rightarrow> pyval \<Rightarrow> (pyval \<times> string list) result" where
  \<comment> \<open>the frame shared by the migrations: the early return, then the loop over the events\<close>
  "with_hooks body hooks_config =
     bind (py_contains ''hooks'' hooks_config) (\<lambda>present.
       if \<not> present then Inr (hooks_config, [])
       else bind (py_getitem hooks_config ''hooks'') (\<lambda>hooks.
              bind (py_items hooks) (\<lambda>evs.
                bind (for_events body evs) (\<lambda>(evs', ch).
                  bind (py_setitem hooks_config ''hooks'' (PDict evs')) (\<lambda>cfg'.
                    Inr (cfg', ch))))))"

subsection \<open>Matchers\<close>

definition apos :: string where
  "apos = [CHR 0x27]"

definition remove_empty_matcher :: "string \<Rightarrow> nat \<Rightarrow> pyval \<Rightarrow> (pyval \<times> string list) result" where
  \<comment> \<open>the body of the inner loop of \<^verbatim>\<open>migrate_remove_empty_matchers\<close>\<close>
  "remove_empty_matcher event_name i hook_config =
     bind (py_contains ''matcher'' hook_config) (\<lambda>present.
       if \<not> present then Inr (hook_config, [])
       else bind (py_getitem hook_config ''matcher'') (\<lambda>m.
              bind (if \<not> py_truthy m then Inr True
                    else bind (py_strip m) (\<lambda>s. Inr (s = []))) (\<lambda>empty.
                if empty
                then bind (py_delitem hook_config ''matcher'') (\<lambda>hc.
                       Inr (hc, [''Removed empty matcher from '' @ event_name @ '' hook #''
                                   @ str_nat (i + 1)]))
                else Inr (hook_config,
                          [''WARNING: '' @ event_name @ '' hook #'' @ str_nat (i + 1)
                             @ '' has matcher '' @ sq (py_str m)
                             @ '' (lifecycle events shouldn'' @ apos @ ''t have matchers)'']))))"

definition migrate_remove_empty_matchers :: "pyval \<Rightarrow> (pyval \<times> string list) result" where
  "migrate_remove_empty_matchers hooks_config =
     with_hooks (\<lambda>event_name event_hooks.
        if event_name \<in> set LIFECYCLE_EVENTS
        then for_each (remove_empty_matcher event_name) event_hooks
        else Inr (event_hooks, [])) hooks_config"

definition add_missing_matcher :: "string \<Rightarrow> nat \<Rightarrow> pyval \<Rightarrow> (pyval \<times> string list) result" where
  \<comment> \<open>the body of the inner loop of \<^verbatim>\<open>migrate_add_missing_matchers\<close>\<close>
  "add_missing_matcher event_name i hook_config =
     bind (py_contains ''matcher'' hook_config) (\<lambda>present.
       bind (if \<not> present then Inr True
             else bind (py_getitem hook_config ''matcher'') (\<lambda>m. Inr (\<not> py_truthy m))) (\<lambda>missing.
         if missing
         then bind (py_setitem hook_config ''matcher'' (PStr ''*'')) (\<lambda>hc.
                Inr (hc, [''Added default matcher '' @ sq ''*'' @ '' to '' @ event_name
                            @ '' hook #'' @ str_nat (i + 1)]))
         else Inr (hook_config, [])))"

definition migrate_add_missing_matchers :: "pyval \<Rightarrow> (pyval \<times> string list) result" where
  "migrate_add_missing_matchers hooks_config =
     with_hooks (\<lambda>event_name event_hooks.
        if event_name \<in> set TOOL_EVENTS
        then for_each (add_missing_matcher event_name) event_hooks
        else Inr (event_hooks, [])) hooks_config"

definition migrate_matchers :: "pyval \<Rightarrow> (pyval \<times> string list) result" where
  \<comment> \<open>migrations 2 and 3 of \<^verbatim>\<open>main\<close>, in its order, with \<^verbatim>\<open>all_changes.extend\<close>\<close>
  "migrate_matchers hooks_config =
     bind (migrate_remove_empty_matchers hooks_config) (\<lambda>(cfg1, changes1).
       bind (migrate_add_missing_matchers cfg1) (\<lambda>(cfg2, changes2).
         Inr (cfg2, changes1 @ changes2)))"

subsection \<open>Hook types\<close>

definition hook_place :: "string \<Rightarrow> nat \<Rightarrow> nat \<Rightarrow> string" where
  \<comment> \<open>\<^verbatim>\<open>f"{event_name} hook #{i+1}, item #{j+1}"\<close>\<close>
  "hook_place event_name i j =
     event_name @ '' hook #'' @ str_nat (i + 1) @ '', item #'' @ str_nat (j + 1)"

definition validate_hook_item ::
  "string \<Rightarrow> nat \<Rightarrow> nat \<Rightarrow> pyval \<Rightarrow> (pyval \<times> string list) result" where
  \<comment> \<open>the body of the innermost loop of \<^verbatim>\<open>migrate_validate_hook_types\<close>\<close>
  "validate_hook_item event_name i j hook_item =
     bind (py_get hook_item ''type'' (PStr [])) (\<lambda>hook_type.
       bind (if hook_type \<notin> set [PStr ''command'', PStr ''prompt'']
             then bind (py_contains ''command'' hook_item) (\<lambda>has_command.
                    if has_command
                    then bind (py_setitem hook_item ''type'' (PStr ''command'')) (\<lambda>it.
                           Inr (it, [''Fixed type to '' @ sq ''command'' @ '' for ''
                                       @ hook_place event_name i j]))
                    else bind (py_contains ''prompt'' hook_item) (\<lambda>has_prompt.
                           if has_prompt
                           then bind (py_setitem hook_item ''type'' (PStr ''prompt'')) (\<lambda>it.
                                  Inr (it, [''Fixed type to '' @ sq ''prompt'' @ '' for ''
                                              @ hook_place event_name i j]))
                           else Inr (hook_item,
                                     [''ERROR: '' @ hook_place event_name i j
                                        @ '': Invalid type '' @ sq (py_str hook_type)
                                        @ '' with no command or prompt''])))
             else Inr (hook_item, [])) (\<lambda>(it1, ch1).
         bind (if hook_type = PStr ''command''
               then bind (py_contains ''command'' it1) (\<lambda>has_command.
                      Inr (if \<not> has_command
                           then [''ERROR: '' @ hook_place event_name i j @ '': Missing ''
                                   @ sq ''command'' @ '' field'']
                           else []))
               else Inr []) (\<lambda>ch2.
           bind (if hook_type = PStr ''prompt''
                 then bind (py_contains ''prompt'' it1) (\<lambda>has_prompt.
                        Inr (if \<not> has_prompt
                             then [''ERROR: '' @ hook_place event_name i j @ '': Missing ''
                                     @ sq ''prompt'' @ '' field'']
                             else []))
                 else Inr []) (\<lambda>ch3.
             Inr (it1, ch1 @ ch2 @ ch3)))))"

definition for_items ::
  "(nat \<Rightarrow> nat \<Rightarrow> pyval \<Rightarrow> (pyval \<times> string list) result) \<Rightarrow> nat \<Rightarrow> pyval
     \<Rightarrow> (pyval \<times> string list) result" where
  \<comment> \<open>\<^verbatim>\<open>if 'hooks' not in hook_config: continue\<close>, then the loop over \<^verbatim>\<open>hook_config['hooks']\<close>\<close>
  "for_items body i hook_config =
     bind (py_contains ''hooks'' hook_config) (\<lambda>present.
       if \<not> present then Inr (hook_config, [])
       else bind (py_getitem hook_config ''hooks'') (\<lambda>items.
              bind (for_each (body i) items) (\<lambda>(items', ch).
                bind (py_setitem hook_config ''hooks'' items') (\<lambda>hc. Inr (hc, ch)))))"

definition migrate_validate_hook_types :: "pyval \<Rightarrow> (pyval \<times> string list) result" where
  "migrate_validate_hook_types hooks_config =
     with_hooks (\<lambda>event_name event_hooks.
        for_each (for_items (validate_hook_item event_name)) event_hooks) hooks_config"

subsection \<open>Script paths\<close>

definition normalize_hook_item ::
  "string \<Rightarrow> nat \<Rightarrow> nat \<Rightarrow> pyval \<Rightarrow> (pyval \<times> string list) result" where
  \<comment> \<open>the body of the innermost loop of \<^verbatim>\<open>migrate_normalize_script_paths\<close>; building the
      recommendation evaluates the name \<^verbatim>\<open>CLAUDE_PLUGIN_ROOT\<close>, which nothing defines\<close>
  "normalize_hook_item event_name i j hook_item =
     bind (py_get hook_item ''type'' PNone) (\<lambda>hook_type.
       if hook_type = PStr ''command''
       then bind (py_get hook_item ''command'' (PStr [])) (\<lambda>command.
              bind (py_startswith command ''bash '') (\<lambda>is_bash.
                bind (if is_bash then Inr True else py_startswith command ''sh '') (\<lambda>is_shell.
                  if is_shell
                  then (let parts = split_ws (py_str command)
                        in if length parts > 1
                           then (let script_path = parts ! 1
                                 in if \<not> startswith script_path ''/''
                                       \<and> \<not> startswith script_path ''${''
                                    then Inl NameError
                                    else Inr (hook_item, []))
                           else Inr (hook_item, []))
                  else Inr (hook_item, []))))
       else Inr (hook_item, []))"

definition migrate_normalize_script_paths :: "pyval \<Rightarrow> (pyval \<times> string list) result" where
  "migrate_normalize_script_paths hooks_config =
     with_hooks (\<lambda>event_name event_hooks.
        for_each (for_items (normalize_hook_item event_name)) event_hooks) hooks_config"

subsection \<open>Event names\<close>

definition migrate_remove_invalid_events :: "pyval \<Rightarrow> (pyval \<times> string list) result" where
  \<comment> \<open>the names come from \<^verbatim>\<open>list(hooks_config['hooks'].keys())\<close>, so every \<^verbatim>\<open>del\<close> finds
      its key\<close>
  "migrate_remove_invalid_events hooks_config =
     bind (py_contains ''hooks'' hooks_config) (\<lambda>present.
       if \<not> present then Inr (hooks_config, [])
       else bind (py_getitem hooks_config ''hooks'') (\<lambda>hooks.
              bind (py_items hooks) (\<lambda>evs.
                let invalid_events = filter (\<lambda>event_name. event_name \<notin> set VALID_EVENTS)
                                       (map fst evs)
                in bind (py_setitem hooks_config ''hooks''
                           (PDict (fold dict_del invalid_events evs))) (\<lambda>cfg'.
                     Inr (cfg', map (\<lambda>event_name. ''REMOVED: Invalid event '' @ sq event_name)
                                  invalid_events)))))"

subsection \<open>The run\<close>

definition run_migrations :: "pyval \<Rightarrow> (pyval \<times> string list) result" where
  \<comment> \<open>the five migrations of \<^verbatim>\<open>main\<close>, in its order, each on the configuration the one
      before returned, with \<^verbatim>\<open>all_changes.extend\<close>\<close>
  "run_migrations hooks_config =
     bind (migrate_remove_invalid_events hooks_config) (\<lambda>(cfg1, changes1).
       bind (migrate_remove_empty_matchers cfg1) (\<lambda>(cfg2, changes2).
         bind (migrate_add_missing_matchers cfg2) (\<lambda>(cfg3, changes3).
           bind (migrate_validate_hook_types cfg3) (\<lambda>(cfg4, changes4).
             bind (migrate_normalize_script_paths cfg4) (\<lambda>(cfg5, recommendations).
               Inr (cfg5, changes1 @ changes2 @ changes3 @ changes4 @ recommendations))))))"

section \<open>Predicates used in the proofs\<close>

text \<open>Each rule is settled by what it reads: the value under one or two keys.\<close>

definition model_settled :: "pyval option \<Rightarrow> bool" where
  "model_settled m =
     (case m of None \<Rightarrow> True
      | Some v \<Rightarrow> hashable v \<and> alias_lookup v = None \<and> v \<noteq> PStr ''inherit'')"

definition hint_settled :: "pyval option \<Rightarrow> bool" where
  "hint_settled h =
     (case h of None \<Rightarrow> True
      | Some v \<Rightarrow> (\<forall>xs. v \<noteq> PList xs) \<and> startswith (py_str v) ''['')"

definition tools_settled :: "pydict \<Rightarrow> bool" where
  "tools_settled f = (map_of f ''tools'' = None \<or> map_of f ''allowed-tools'' \<noteq> None)"

section \<open>The hook-set file format\<close>

text \<open>
  A hooks configuration is an object whose key \<^verbatim>\<open>hooks\<close> maps event names to arrays of
  hook groups; a group is an object with an optional \<^verbatim>\<open>matcher\<close> (a string, or a value
  Python takes for false) and an optional array \<^verbatim>\<open>hooks\<close> of hook items; an item is an
  object whose \<^verbatim>\<open>command\<close>, when present, is a string.
\<close>

definition is_str :: "pyval \<Rightarrow> bool" where
  "is_str v = (case v of PStr s \<Rightarrow> True | _ \<Rightarrow> False)"

definition item_ok :: "pyval \<Rightarrow> bool" where
  "item_ok x =
     (case x of PDict it \<Rightarrow> (case map_of it ''command'' of None \<Rightarrow> True | Some c \<Rightarrow> is_str c)
      | _ \<Rightarrow> False)"

definition items_ok :: "pyval option \<Rightarrow> bool" where
  "items_ok v = (case v of None \<Rightarrow> True | Some (PList items) \<Rightarrow> list_all item_ok items
                 | Some _ \<Rightarrow> False)"

definition matcher_ok :: "pyval option \<Rightarrow> bool" where
  "matcher_ok v = (case v of None \<Rightarrow> True | Some m \<Rightarrow> is_str m \<or> \<not> py_truthy m)"

definition group_ok :: "pyval \<Rightarrow> bool" where
  "group_ok g =
     (case g of PDict d \<Rightarrow> matcher_ok (map_of d ''matcher'') \<and> items_ok (map_of d ''hooks'')
      | _ \<Rightarrow> False)"

definition groups_ok :: "pyval \<Rightarrow> bool" where
  "groups_ok v = (case v of PList gs \<Rightarrow> list_all group_ok gs | _ \<Rightarrow> False)"

definition hooks_config_ok :: "pyval \<Rightarrow> bool" where
  "hooks_config_ok cfg =
     (case cfg of
        PDict d \<Rightarrow> (case map_of d ''hooks'' of
                      Some (PDict evs) \<Rightarrow> list_all (\<lambda>p. groups_ok (snd p)) evs
                    | _ \<Rightarrow> False)
      | _ \<Rightarrow> False)"

definition hook_group :: "pyval \<Rightarrow> string \<Rightarrow> nat \<Rightarrow> pyval option" where
  \<comment> \<open>\<^verbatim>\<open>hooks_config['hooks'][event_name][i]\<close>, when there is such a group\<close>
  "hook_group cfg event_name i =
     (case cfg of
        PDict d \<Rightarrow> (case map_of d ''hooks'' of
                      Some (PDict evs) \<Rightarrow> (case map_of evs event_name of
                                             Some (PList gs) \<Rightarrow> (if i < length gs then Some (gs ! i)
                                                                  else None)
                                           | _ \<Rightarrow> None)
                    | _ \<Rightarrow> None)
      | _ \<Rightarrow> None)"

definition relative_script_command :: "string \<Rightarrow> bool" where
  \<comment> \<open>the conditions under which \<^verbatim>\<open>migrate_normalize_script_paths\<close> builds its message\<close>
  "relative_script_command cmd =
     ((startswith cmd ''bash '' \<or> startswith cmd ''sh '') \<and> length (split_ws cmd) > 1 \<and>
      \<not> startswith (split_ws cmd ! 1) ''/'' \<and> \<not> startswith (split_ws cmd ! 1) ''${'')"

definition holds_item :: "pyval \<Rightarrow> pyval \<Rightarrow> bool" where
  \<comment> \<open>the hook item \<open>x\<close> is one of \<^verbatim>\<open>hook_config['hooks']\<close>\<close>
  "holds_item x hook_config =
     (case hook_config of
        PDict g \<Rightarrow> (case map_of g ''hooks'' of Some (PList items) \<Rightarrow> x \<in> set items | _ \<Rightarrow> False)
      | _ \<Rightarrow> False)"

definition item_type :: "pydict \<Rightarrow> pyval" where
  \<comment> \<open>\<^verbatim>\<open>hook_item.get('type', '')\<close>\<close>
  "item_type it = (case map_of it ''type'' of None \<Rightarrow> PStr [] | Some t \<Rightarrow> t)"

definition raises :: "'a result \<Rightarrow> bool" where
  "raises r = (case r of Inl e \<Rightarrow> True | Inr x \<Rightarrow> False)"

definition only_name_error :: "'a result \<Rightarrow> bool" where
  "only_name_error r = (case r of Inl e \<Rightarrow> e = NameError | Inr x \<Rightarrow> True)"

section \<open>Text\<close>

text \<open>The character classes and case mapping of Python on the code points below 256.\<close>

definition is_digit :: "char \<Rightarrow> bool" where
  \<comment> \<open>the class \<^verbatim>\<open>\d\<close>\<close>
  "is_digit c = (c \<in> set ''0123456789'')"

definition is_word :: "char \<Rightarrow> bool" where
  \<comment> \<open>the class \<^verbatim>\<open>\w\<close>\<close>
  "is_word c =
     (let n = (of_char c :: nat)
      in (48 \<le> n \<and> n \<le> 57) \<or> (65 \<le> n \<and> n \<le> 90) \<or> n = 95 \<or> (97 \<le> n \<and> n \<le> 122) \<or>
         n \<in> set [170, 178, 179, 181, 185, 186, 188, 189, 190] \<or>
         (192 \<le> n \<and> n \<le> 214) \<or> (216 \<le> n \<and> n \<le> 246) \<or> 248 \<le> n)"

definition upper_chars :: string where
  "upper_chars =
     ''ABCDEFGHIJKLMNOPQRSTUVWXYZ'' @
      [CHR 0xC0, CHR 0xC1, CHR 0xC2, CHR 0xC3, CHR 0xC4, CHR 0xC5, CHR 0xC6, CHR 0xC7,
       CHR 0xC8, CHR 0xC9, CHR 0xCA, CHR 0xCB, CHR 0xCC, CHR 0xCD, CHR 0xCE, CHR 0xCF,
       CHR 0xD0, CHR 0xD1, CHR 0xD2, CHR 0xD3, CHR 0xD4, CHR 0xD5, CHR 0xD6, CHR 0xD8,
       CHR 0xD9, CHR 0xDA, CHR 0xDB, CHR 0xDC, CHR 0xDD, CHR 0xDE]"

definition lower_chars :: string where
  "lower_chars =
     ''abcdefghijklmnopqrstuvwxyz'' @
      [CHR 0xE0, CHR 0xE1, CHR 0xE2, CHR 0xE3, CHR 0xE4, CHR 0xE5, CHR 0xE6, CHR 0xE7,
       CHR 0xE8, CHR 0xE9, CHR 0xEA, CHR 0xEB, CHR 0xEC, CHR 0xED, CHR 0xEE, CHR 0xEF,
       CHR 0xF0, CHR 0xF1, CHR 0xF2, CHR 0xF3, CHR 0xF4, CHR 0xF5, CHR 0xF6, CHR 0xF8,
       CHR 0xF9, CHR 0xFA, CHR 0xFB, CHR 0xFC, CHR 0xFD, CHR 0xFE]"

definition lower_char :: "char \<Rightarrow> char" where
  "lower_char c = (case map_of (zip upper_chars lower_chars) c of None \<Rightarrow> c | Some l \<Rightarrow> l)"

definition py_lower :: "string \<Rightarrow> string" where
  \<comment> \<open>\<^verbatim>\<open>s.lower()\<close>\<close>
  "py_lower s = map lower_char s"

fun split_on :: "char \<Rightarrow> string \<Rightarrow> string list" where
  \<comment> \<open>\<^verbatim>\<open>s.split(c)\<close> for a one-character separator: empty fields are kept\<close>
  "split_on c [] = [[]]"
| "split_on c (x # xs) =
     (if x = c then [] # split_on c xs
      else (case split_on c xs of [] \<Rightarrow> [[x]] | w # ws \<Rightarrow> (x # w) # ws))"

section \<open>Regular expressions\<close>

text \<open>
  The patterns of the scripts are sequences of items: a literal, a literal under
  \<^verbatim>\<open>re.IGNORECASE\<close> (written in lower case), one character of a class, a class repeated
  (\<^verbatim>\<open>+\<close>, \<^verbatim>\<open>*\<close>), a choice of literals, the anchor \<^verbatim>\<open>$\<close> (the end of the text, or just
  before a newline that ends it) and the boundary \<^verbatim>\<open>\b\<close> after a word character.
  \<open>rests\<close> lists what can remain of the text after an item has matched at its start, so
  that every way of backtracking is tried.
\<close>

datatype pat =
    Lit string
  | ILit string
  | One "char \<Rightarrow> bool"
  | Plus "char \<Rightarrow> bool"
  | Star "char \<Rightarrow> bool"
  | Alt "string list"
  | End
  | WordEnd

fun star_rests :: "(char \<Rightarrow> bool) \<Rightarrow> string \<Rightarrow> string list" where
  "star_rests p [] = [[]]"
| "star_rests p (c # cs) = (c # cs) # (if p c then star_rests p cs else [])"

fun rests :: "pat \<Rightarrow> string \<Rightarrow> string list" where
  "rests (Lit l) s = (if startswith s l then [drop (length l) s] else [])"
| "rests (ILit l) s =
     (if py_lower (take (length l) s) = l then [drop (length l) s] else [])"
| "rests (One p) s = (case s of [] \<Rightarrow> [] | c # cs \<Rightarrow> if p c then [cs] else [])"
| "rests (Plus p) s = (case s of [] \<Rightarrow> [] | c # cs \<Rightarrow> if p c then star_rests p cs else [])"
| "rests (Star p) s = star_rests p s"
| "rests (Alt ls) s = concat (map (\<lambda>l. if startswith s l then [drop (length l) s] else []) ls)"
| "rests End s = (if s = [] \<or> s = [CHR 0x0A] then [s] else [])"
| "rests WordEnd s = (case s of [] \<Rightarrow> [s] | c # cs \<Rightarrow> if is_word c then [] else [s])"

fun match_here :: "pat list \<Rightarrow> string \<Rightarrow> bool" where
  \<comment> \<open>\<^verbatim>\<open>re.match\<close>: the pattern matches at the start of the text\<close>
  "match_here [] s = True"
| "match_here (p # ps) s = list_ex (match_here ps) (rests p s)"

fun re_search :: "pat list \<Rightarrow> string \<Rightarrow> bool" where
  \<comment> \<open>\<^verbatim>\<open>re.search\<close>: the pattern matches somewhere in the text\<close>
  "re_search ps [] = match_here ps []"
| "re_search ps (c # cs) = (match_here ps (c # cs) \<or> re_search ps cs)"

section \<open>Files\<close>

text \<open>
  A Markdown artifact is modelled by what the library calls return on it:
  \<^verbatim>\<open>read_text\<close> raises (with a message), or the frontmatter expression
  \<^verbatim>\<open>^---\s*\n(.*?)\n---\s*\n\<close> does not match, or \<^verbatim>\<open>yaml.safe_load\<close> raises
  \<^verbatim>\<open>YAMLError\<close> (with a message) on the frontmatter text, or it raises another exception
  (the constructor of a date raises \<^verbatim>\<open>ValueError\<close> on \<^verbatim>\<open>released: 2024-13-45\<close>), or it
  returns a value, which comes with the body text after the closing delimiter.
\<close>

datatype file_text =
    Unreadable string
  | No_frontmatter
  | Bad_yaml string
  | Load_raises py_error
  | Frontmatter pyval string

record command_file =
  path :: string
  stem :: string
  on_disk :: bool
  content :: file_text

text \<open>The three lists \<^verbatim>\<open>critical_errors\<close>, \<^verbatim>\<open>warnings\<close> and \<^verbatim>\<open>recommendations\<close>.\<close>

type_synonym findings = "string list \<times> string list \<times> string list"

definition no_findings :: findings where
  "no_findings = ([], [], [])"

fun run_checks :: "findings result list \<Rightarrow> findings result" where
  \<comment> \<open>the checks in the order of the source; each appends to the three lists, the first
      exception ends the run\<close>
  "run_checks [] = Inr no_findings"
| "run_checks (c # cs) =
     bind c (\<lambda>(c1, w1, r1).
       bind (run_checks cs) (\<lambda>(c2, w2, r2). Inr (c1 @ c2, w1 @ w2, r1 @ r2)))"

definition is_name_char :: "char \<Rightarrow> bool" where
  \<comment> \<open>the class \<^verbatim>\<open>[a-z0-9-]\<close>\<close>
  "is_name_char c = (c \<in> set ''abcdefghijklmnopqrstuvwxyz0123456789-'')"

definition name_pattern :: "pat list" where
  \<comment> \<open>\<^verbatim>\<open>^[a-z0-9-]+$\<close>\<close>
  "name_pattern = [Plus is_name_char, End]"

definition valid_tools :: "string list" where
  "valid_tools = [''Read'', ''Write'', ''Edit'', ''Grep'', ''Glob'', ''Bash'', ''WebFetch'',
                  ''WebSearch'', ''NotebookEdit'', ''Task'', ''TodoWrite'', ''BashOutput'',
                  ''KillShell'']"

definition short_aliases :: "pyval list" where
  "short_aliases = [PStr ''haiku'', PStr ''sonnet'', PStr ''opus'', PStr ''inherit'']"

section \<open>Command audit (audit-commands.py)\<close>

definition audit_parse_command :: "command_file \<Rightarrow> (string + (pyval \<times> string)) result" where
  \<comment> \<open>\<^verbatim>\<open>parse_command\<close>: the error message, or the frontmatter and the body; only
      \<^verbatim>\<open>yaml.YAMLError\<close> is caught around \<^verbatim>\<open>yaml.safe_load\<close>\<close>
  "audit_parse_command f =
     (case content f of
        Unreadable e \<Rightarrow> Inr (Inl (''Failed to read file: '' @ e))
      | No_frontmatter \<Rightarrow> Inr (Inl ''Missing YAML frontmatter'')
      | Bad_yaml e \<Rightarrow> Inr (Inl (''Invalid YAML: '' @ e))
      | Load_raises e \<Rightarrow> Inl e
      | Frontmatter frontmatter body \<Rightarrow> Inr (Inr (frontmatter, body)))"

definition audit_common_verbs :: "string list" where
  "audit_common_verbs =
     [''add'', ''build'', ''check'', ''clean'', ''commit'', ''create'', ''delete'', ''deploy'',
      ''generate'', ''get'', ''install'', ''list'', ''make'', ''new'', ''push'', ''remove'',
      ''review'', ''run'', ''search'', ''show'', ''test'', ''update'', ''validate'']"

definition audit_check_filename :: "string \<Rightarrow> findings" where
  "audit_check_filename command_name =
     ((if \<not> match_here name_pattern command_name
       then [''Invalid filename: must be lowercase-hyphens only''] else [])
      @ (if CHR ''_'' \<in> set command_name then [''Underscores not allowed in filename''] else [])
      @ (if length command_name > 64 then [''Filename exceeds 64 characters''] else []),
      [],
      (if \<not> list_ex (startswith command_name) audit_common_verbs
       then [''Consider verb-first naming (e.g., '' @ sq ''create-'' @ '', '' @ sq ''run-''
               @ '')'']
       else []))"

definition audit_check_description :: "pyval \<Rightarrow> findings result" where
  "audit_check_description frontmatter =
     bind (py_contains ''description'' frontmatter) (\<lambda>present.
       if \<not> present
       then Inr ([''Missing required '' @ sq ''description'' @ '' field''], [], [])
       else bind (py_getitem frontmatter ''description'') (\<lambda>desc.
              bind (py_len desc) (\<lambda>n.
                Inr ([],
                     (if n < 10 then [''Description too short (< 10 chars)'']
                      else if n > 200 then [''Description too long (> 200 chars)'']
                      else []),
                     []))))"

definition audit_check_model :: "pyval \<Rightarrow> findings result" where
  "audit_check_model frontmatter =
     bind (py_contains ''model'' frontmatter) (\<lambda>present.
       if \<not> present then Inr no_findings
       else bind (py_getitem frontmatter ''model'') (\<lambda>model.
              if model \<in> set short_aliases
              then Inr ([''CRITICAL: Commands cannot use short alias '' @ sq (py_str model)
                           @ ''. Use version alias like '' @ sq ''claude-haiku-4-5''
                           @ '' or full ID''], [], [])
              else bind (py_startswith model ''claude-'') (\<lambda>ok.
                     Inr ([],
                          (if \<not> ok
                           then [''Model '' @ sq (py_str model) @ '' doesn'' @ apos
                                   @ ''t start with '' @ sq ''claude-'' @ '', may cause errors'']
                           else []),
                          []))))"

definition audit_check_tools :: "pyval \<Rightarrow> string \<Rightarrow> findings result" where
  "audit_check_tools frontmatter body =
     bind (py_contains ''allowed-tools'' frontmatter) (\<lambda>present.
       if \<not> present then Inr no_findings
       else bind (py_getitem frontmatter ''allowed-tools'') (\<lambda>tools.
              case tools of
                PStr ts \<Rightarrow>
                  Inr ((if str_in ''Bash'' ts \<and> body \<noteq> []
                           \<and> \<not> str_in ''validation'' (py_lower body)
                           \<and> \<not> str_in ''sanitize'' (py_lower body)
                        then [''Has Bash access without input validation documentation'']
                        else []),
                       map (\<lambda>tool. ''Unknown tool: '' @ sq tool)
                         (filter (\<lambda>tool. tool \<notin> set valid_tools)
                            (map strip (split_on CHR '','' ts))),
                       [])
              | _ \<Rightarrow> Inr no_findings))"

definition audit_check_arguments :: "pyval \<Rightarrow> string \<Rightarrow> findings result" where
  "audit_check_arguments frontmatter body =
     (if body = [] then Inr no_findings
      else let uses_positional = re_search [Lit ''$'', Plus is_digit] body;
               uses_all_args = str_in ''$ARGUMENTS'' body
           in if uses_positional \<or> uses_all_args
              then bind (py_contains ''argument-hint'' frontmatter) (\<lambda>present.
                     Inr ([],
                          (if \<not> present
                           then [''Uses arguments but missing '' @ sq ''argument-hint''
                                   @ '' field'']
                           else []),
                          (if \<not> str_in ''## Arguments'' body \<and> \<not> str_in ''## Parameters'' body
                           then [''Add '' @ sq ''## Arguments''
                                   @ '' section to document parameters'']
                           else [])))
              else Inr no_findings)"

definition audit_dangerous_patterns :: "(pat list \<times> string) list" where
  "audit_dangerous_patterns =
     [([Lit ''$'', Plus is_word, Star is_space, Alt [''&&'', ''|'', '';'', ''`'']],
       ''Potential command injection risk''),
      ([Lit ''rm'', Plus is_space, Lit ''-rf'', Plus is_space, Lit ''$''],
       ''Dangerous rm -rf with variable''),
      ([Lit ''eval'', Plus is_space, Lit ''$''],
       ''Using eval with arguments is dangerous'')]"

definition audit_check_security :: "pyval \<Rightarrow> string \<Rightarrow> findings result" where
  "audit_check_security frontmatter body =
     (if body = [] then Inr no_findings
      else bind (py_get frontmatter ''allowed-tools'' (PStr [])) (\<lambda>tools.
             bind (py_contains ''Bash'' tools) (\<lambda>has_bash.
               if has_bash
               then Inr (map (\<lambda>p. ''SECURITY: '' @ snd p)
                           (filter (\<lambda>p. re_search (fst p) body) audit_dangerous_patterns),
                         [], [])
               else Inr no_findings)))"

text \<open>The tuple \<^verbatim>\<open>(status, critical_errors, warnings, recommendations)\<close>.\<close>

type_synonym report = "string \<times> string list \<times> string list \<times> string list"

definition audit_validate_command :: "command_file \<Rightarrow> report result" where
  \<comment> \<open>\<^verbatim>\<open>validate_command\<close> of audit-commands.py\<close>
  "audit_validate_command f =
     bind (audit_parse_command f) (\<lambda>parsed.
       case parsed of
         Inl parse_error \<Rightarrow> Inr (''parse_error'', [parse_error], [], [])
       | Inr (frontmatter, body) \<Rightarrow>
           bind (run_checks [Inr (audit_check_filename (stem f)),
                             audit_check_description frontmatter,
                             audit_check_model frontmatter,
                             audit_check_tools frontmatter body,
                             audit_check_arguments frontmatter body,
                             audit_check_security frontmatter body]) (\<lambda>(critical_errors, warnings, recommendations).
             Inr (if critical_errors \<noteq> [] then ''errors''
                  else if warnings \<noteq> [] then ''warnings''
                  else ''valid'',
                  critical_errors, warnings, recommendations)))"

fun audit_commands :: "command_file list \<Rightarrow> (string \<times> report) list result" where
  \<comment> \<open>the loop of \<^verbatim>\<open>main\<close> that fills \<^verbatim>\<open>results\<close>; the files are
      \<^verbatim>\<open>sorted(set(...))\<close>, so every path is a new key\<close>
  "audit_commands [] = Inr []"
| "audit_commands (f # fs) =
     bind (audit_validate_command f) (\<lambda>r.
       bind (audit_commands fs) (\<lambda>rs. Inr ((path f, r) # rs)))"

section \<open>Command validation (validate-command.py)\<close>

definition nl :: string where
  "nl = [CHR 0x0A]"

definition backslash :: string where
  "backslash = [CHR 0x5C]"

definition memo_sign :: string where
  \<comment> \<open>U+1F4DD\<close>
  "memo_sign = backslash @ ''U0001f4dd''"

definition info_sign :: string where
  \<comment> \<open>U+2139 U+FE0F\<close>
  "info_sign = backslash @ ''u2139'' @ backslash @ ''ufe0f''"

definition books_sign :: string where
  \<comment> \<open>U+1F4DA\<close>
  "books_sign = backslash @ ''U0001f4da''"

fun run_errors :: "string list result list \<Rightarrow> string list result" where
  \<comment> \<open>the checks in the order of the source, each appending to \<^verbatim>\<open>errors\<close>\<close>
  "run_errors [] = Inr []"
| "run_errors (c # cs) = bind c (\<lambda>e1. bind (run_errors cs) (\<lambda>e2. Inr (e1 @ e2)))"

definition common_verbs :: "string list" where
  "common_verbs =
     [''add'', ''build'', ''check'', ''clean'', ''commit'', ''create'', ''delete'', ''deploy'',
      ''generate'', ''get'', ''install'', ''list'', ''make'', ''push'', ''remove'', ''review'',
      ''run'', ''search'', ''show'', ''test'', ''update'', ''validate'']"

definition check_filename :: "string \<Rightarrow> string list" where
  \<comment> \<open>from \<^verbatim>\<open># Validate filename\<close> to the check of the verbs\<close>
  "check_filename command_name =
     (if \<not> match_here name_pattern command_name
      then [''Invalid filename '' @ sq (command_name @ ''.md'')
              @ '': must be lowercase letters, numbers, and hyphens only'']
      else [])
     @ (if CHR ''_'' \<in> set command_name
        then [''Invalid filename '' @ sq (command_name @ ''.md'')
                @ '': underscores not allowed, use hyphens instead'']
        else [])
     @ (if \<not> list_ex (startswith command_name) common_verbs
        then [''Recommendation: Command names are typically action-oriented (start with a verb): ''
                @ sq command_name @ '' '' @ arrow @ '' consider '' @ sq (''run-'' @ command_name)
                @ '', '' @ sq (''create-'' @ command_name) @ '', etc.'']
        else [])"

definition check_description :: "pyval \<Rightarrow> string list result" where
  "check_description frontmatter =
     bind (py_contains ''description'' frontmatter) (\<lambda>present.
       if \<not> present
       then Inr [''Recommendation: Add '' @ sq ''description''
                   @ '' field to help users understand what the command does'']
       else bind (py_getitem frontmatter ''description'') (\<lambda>description.
              bind (py_len description) (\<lambda>n.
                Inr (if n < 10
                     then [''Warning: Description is very short ('' @ str_nat n @ '' chars)'']
                     else []))))"

definition check_tools :: "pyval \<Rightarrow> string list result" where
  "check_tools frontmatter =
     bind (py_contains ''allowed-tools'' frontmatter) (\<lambda>present.
       if \<not> present then Inr []
       else bind (py_getitem frontmatter ''allowed-tools'') (\<lambda>tools.
              case tools of
                PStr ts \<Rightarrow>
                  Inr (map (\<lambda>tool. ''Warning: Unknown tool '' @ sq tool @ ''. Valid tools: ''
                                     @ join '', '' valid_tools)
                         (filter (\<lambda>tool. tool \<notin> set valid_tools)
                            (map strip (split_on CHR '','' ts))))
              | _ \<Rightarrow> Inr []))"

definition version_alias_map :: "(string \<times> string) list" where
  "version_alias_map = [(''haiku'', ''claude-haiku-4-5''),
                        (''sonnet'', ''claude-sonnet-4-5''),
                        (''opus'', ''claude-opus-4-5'')]"

definition short_alias_message :: "string \<Rightarrow> string \<Rightarrow> string \<Rightarrow> string" where
  "short_alias_message file_path model_value suggested_version =
     ''CRITICAL ERROR: Commands cannot use short aliases. Found: ''
       @ sq (''model: '' @ model_value) @ nl @ nl
     @ ''   '' @ memo_sign @ '' Quick Fix Options:'' @ nl @ nl
     @ ''   Option 1 (Recommended): Remove the model field entirely'' @ nl
     @ ''     sed -i '' @ sq ''/^model:/d'' @ '' '' @ file_path @ nl @ nl
     @ ''   Option 2: Use version alias instead'' @ nl
     @ ''     sed -i '' @ sq (''s/model: '' @ model_value @ ''/model: '' @ suggested_version @ ''/'')
       @ '' '' @ file_path @ nl @ nl
     @ ''   '' @ info_sign @ ''  Why? Commands execute in conversation context and must use explicit''
       @ nl
     @ ''      version aliases. Only agents can use short aliases like '' @ sq model_value @ ''.''
       @ nl @ nl
     @ ''   '' @ books_sign
       @ '' See: claude-component-builder/skills/building-commands/templates/ for examples''"

definition check_model :: "string \<Rightarrow> pyval \<Rightarrow> string list result" where
  "check_model file_path frontmatter =
     bind (py_contains ''model'' frontmatter) (\<lambda>present.
       if \<not> present then Inr []
       else bind (py_getitem frontmatter ''model'') (\<lambda>model_value.
              if model_value \<in> set short_aliases
              then Inr [short_alias_message file_path (py_str model_value)
                          (case map_of version_alias_map (py_str model_value) of
                             None \<Rightarrow> ''claude-sonnet-4-5'' | Some v \<Rightarrow> v)]
              else bind (py_startswith model_value ''claude-'') (\<lambda>ok.
                     Inr (if \<not> ok
                          then [''Warning: Model '' @ sq (py_str model_value)
                                  @ '' doesn'' @ apos @ ''t match expected format ''
                                  @ sq ''claude-*'' @ ''. ''
                                  @ ''Ensure this is a valid Anthropic model ID (e.g., ''
                                  @ sq ''claude-haiku-4-5'' @ '' or ''
                                  @ sq ''claude-haiku-4-5-20251001'' @ '').'']
                          else []))))"

definition check_argument_hint :: "pyval \<Rightarrow> string list result" where
  "check_argument_hint frontmatter =
     bind (py_contains ''argument-hint'' frontmatter) (\<lambda>present.
       if \<not> present then Inr []
       else bind (py_getitem frontmatter ''argument-hint'') (\<lambda>v.
              let arg_hint = (case v of PList items \<Rightarrow> join '' '' (map py_str items)
                              | _ \<Rightarrow> py_str v)
              in Inr (if \<not> startswith arg_hint ''[''
                      then [''Warning: argument-hint typically uses brackets: '' @ sq arg_hint
                              @ '' '' @ arrow @ '' '' @ sq (''['' @ arg_hint @ '']'')]
                      else [])))"

definition check_body :: "pyval \<Rightarrow> string \<Rightarrow> string list result" where
  "check_body frontmatter body =
     (let uses_positional = re_search [Lit ''$'', Plus is_digit] body;
          uses_all_args = str_in ''$ARGUMENTS'' body
      in bind (if uses_positional \<or> uses_all_args
               then bind (py_contains ''argument-hint'' frontmatter) (\<lambda>present.
                      Inr ((if \<not> present
                            then [''Recommendation: Add '' @ sq ''argument-hint''
                                    @ '' field since the command uses arguments ($1, $2, or $ARGUMENTS)'']
                            else [])
                           @ (if uses_positional \<and> \<not> str_in ''## Arguments'' body
                              then [''Recommendation: Add an '' @ sq ''## Arguments''
                                      @ '' section to document what each positional argument does'']
                              else [])))
               else Inr []) (\<lambda>e1.
           Inr (e1
                @ (if \<not> str_in ''## Workflow'' body \<and> \<not> str_in ''## Steps'' body
                   then [''Recommendation: Add a workflow section to document the command''
                           @ apos @ ''s execution steps'']
                   else [])
                @ (if \<not> str_in ''## Example'' body \<and> \<not> str_in ''## Usage'' body
                   then [''Recommendation: Add usage examples showing how to invoke the command'']
                   else []))))"

fun until_fence :: "string \<Rightarrow> (string \<times> string) option" where
  \<comment> \<open>the text before the first \<^verbatim>\<open>```\<close> and the text after it\<close>
  "until_fence [] = None"
| "until_fence (c # cs) =
     (if startswith (c # cs) ''```'' then Some ([], drop 3 (c # cs))
      else (case until_fence cs of None \<Rightarrow> None | Some (b, r) \<Rightarrow> Some (c # b, r)))"

definition block_open :: "string \<Rightarrow> string option" where
  \<comment> \<open>the text after \<^verbatim>\<open>```bash\n\<close> or \<^verbatim>\<open>```sh\n\<close> at the start of the text\<close>
  "block_open s =
     (if startswith s (''```bash'' @ nl) then Some (drop 8 s)
      else if startswith s (''```sh'' @ nl) then Some (drop 6 s)
      else None)"

lemma until_fence_shorter: "until_fence s = Some (b, r) \<Longrightarrow> length r < length s"
  by (induction s arbitrary: b r) (auto split: if_splits option.splits)

function bash_blocks :: "string \<Rightarrow> string list" where
  \<comment> \<open>\<^verbatim>\<open>re.findall(r'```(?:bash|sh)\n(.*?)```', body, re.DOTALL)\<close>\<close>
  "bash_blocks [] = []"
| "bash_blocks (c # cs) =
     (case block_open (c # cs) of
        None \<Rightarrow> bash_blocks cs
      | Some after \<Rightarrow>
          (case until_fence after of
             None \<Rightarrow> bash_blocks cs
           | Some (block, rest) \<Rightarrow> block # bash_blocks rest))"
  by pat_completeness auto
termination
proof (relation "measure length")
  show "wf (measure length)" by simp
next
  fix c :: char and cs :: string
  show "(cs, c # cs) \<in> measure length" by simp
next
  fix c :: char and cs :: string
  show "(cs, c # cs) \<in> measure length" by simp
next
  fix c cs after x block rest
  assume "block_open (c # cs) = Some after" "until_fence after = Some x" "(block, rest) = x"
  then have "length rest < length after" "length after \<le> length (c # cs)"
    by (auto simp: block_open_def dest: until_fence_shorter split: if_splits)
  then show "(rest, c # cs) \<in> measure length" by simp
qed

definition not_newline :: "char \<Rightarrow> bool" where
  \<comment> \<open>the class \<^verbatim>\<open>.\<close>\<close>
  "not_newline c = (c \<noteq> CHR 0x0A)"

definition critical_patterns :: "(pat list \<times> string) list" where
  \<comment> \<open>searched under \<^verbatim>\<open>re.IGNORECASE\<close>\<close>
  "critical_patterns =
     [([ILit ''eval'', Plus is_space, Lit ''$''],
       ''SECURITY ERROR: Using eval with arguments enables arbitrary code execution''),
      ([ILit ''rm'', Plus is_space, ILit ''-rf'', Plus is_space, Lit ''/'', Star is_space, End],
       ''SECURITY ERROR: rm -rf / detected - this will delete entire filesystem''),
      ([Lit ''|'', Star is_space, ILit ''bash'', WordEnd],
       ''SECURITY ERROR: Piping to bash enables arbitrary code execution''),
      ([ILit ''curl'', Star not_newline, Lit ''|'', Star is_space, ILit ''sh''],
       ''SECURITY ERROR: Piping curl to sh enables remote code execution''),
      ([ILit ''wget'', Star not_newline, Lit ''|'', Star is_space, ILit ''sh''],
       ''SECURITY ERROR: Piping wget to sh enables remote code execution'')]"

definition warning_patterns :: "(pat list \<times> string) list" where
  "warning_patterns =
     [([Lit ''rm'', Plus is_space, Lit ''-rf'', Plus is_space, Lit ''$''],
       ''Dangerous rm -rf with variable - ensure input validation before use''),
      ([Lit ''$'', Plus is_word, Star is_space, Alt [''&&'', ''|'', '';'']],
       ''Potential command injection - ensure variables are validated/quoted'')]"

definition uses_arguments :: "string \<Rightarrow> bool" where
  "uses_arguments block =
     (re_search [Lit ''$'', One (\<lambda>c. c \<in> set ''123456789'')] block \<or> str_in ''$ARGUMENTS'' block)"

definition shows_validation :: "string \<Rightarrow> bool" where
  \<comment> \<open>\<^verbatim>\<open>(validate|check|if\s+\[|test\s+)\<close> under \<^verbatim>\<open>re.IGNORECASE\<close>\<close>
  "shows_validation block =
     (re_search [ILit ''validate''] block \<or> re_search [ILit ''check''] block \<or>
      re_search [ILit ''if'', Plus is_space, Lit ''[''] block \<or>
      re_search [ILit ''test'', Plus is_space] block)"

definition unvalidated_warning :: string where
  "unvalidated_warning =
     ''Warning: Bash code block uses $1, $2, or $ARGUMENTS without visible validation. ''
     @ ''Consider adding input validation: if [[ -z '' @ [CHR 0x22] @ ''$1'' @ [CHR 0x22]
     @ '' ]]; then echo '' @ sq ''Error'' @ ''; exit 1; fi''"

definition check_security :: "pyval \<Rightarrow> string \<Rightarrow> string list result" where
  "check_security frontmatter body =
     bind (py_get frontmatter ''allowed-tools'' (PStr [])) (\<lambda>tools.
       bind (py_contains ''Bash'' tools) (\<lambda>has_bash.
         if \<not> has_bash then Inr []
         else let blocks = bash_blocks body;
                  bash_content = join nl blocks
              in Inr (map snd (filter (\<lambda>p. re_search (fst p) bash_content) critical_patterns)
                      @ map (\<lambda>p. ''Warning: '' @ snd p)
                          (filter (\<lambda>p. re_search (fst p) bash_content) warning_patterns)
                      @ map (\<lambda>block. unvalidated_warning)
                          (filter (\<lambda>block. uses_arguments block \<and> \<not> shows_validation block)
                             blocks))))"

definition is_critical :: "string \<Rightarrow> bool" where
  \<comment> \<open>an entry of \<^verbatim>\<open>errors\<close> that makes the command invalid\<close>
  "is_critical e = (\<not> (startswith e ''Warning:'' \<or> startswith e ''Recommendation:''))"

definition validate_command :: "command_file \<Rightarrow> (bool \<times> string list) result" where
  \<comment> \<open>\<^verbatim>\<open>validate_command\<close> of validate-command.py: \<^verbatim>\<open>(is_valid, errors)\<close>\<close>
  "validate_command f =
     (if \<not> on_disk f then Inr (False, [''File does not exist: '' @ path f])
      else case content f of
             Unreadable e \<Rightarrow> Inr (False, [''Failed to read file: '' @ e])
           | No_frontmatter \<Rightarrow>
               Inr (False, check_filename (stem f)
                      @ [''Missing YAML frontmatter (must start with --- and end with ---)''])
           | Bad_yaml e \<Rightarrow>
               Inr (False, check_filename (stem f) @ [''Invalid YAML syntax: '' @ e])
           | Load_raises e \<Rightarrow> Inl e
           | Frontmatter frontmatter body \<Rightarrow>
               bind (run_errors [Inr (check_filename (stem f)),
                                 check_description frontmatter,
                                 check_tools frontmatter,
                                 check_model (path f) frontmatter,
                                 check_argument_hint frontmatter,
                                 check_body frontmatter body,
                                 check_security frontmatter body]) (\<lambda>errors.
                 Inr (filter is_critical errors = [], errors)))"

section \<open>Skill audit (audit-skills.py)\<close>

text \<open>
  A skill is a directory; besides its \<^verbatim>\<open>SKILL.md\<close> the audit looks at which resource
  directories exist and at the scripts that lack the execute permission (the \<^verbatim>\<open>*.py\<close>
  files, then the \<^verbatim>\<open>*.sh\<close> files, of \<^verbatim>\<open>scripts/\<close>).
\<close>

record skill_dir =
  dir_name :: string
  skill_md_on_disk :: bool
  skill_md :: file_text
  has_scripts :: bool
  has_references :: bool
  has_assets :: bool
  not_executable :: "string list"

definition parse_skill :: "skill_dir \<Rightarrow> (string + (pyval \<times> string)) result" where
  "parse_skill sd =
     (if \<not> skill_md_on_disk sd then Inr (Inl ''SKILL.md not found'')
      else case skill_md sd of
             Unreadable e \<Rightarrow> Inr (Inl (''Failed to read SKILL.md: '' @ e))
           | No_frontmatter \<Rightarrow> Inr (Inl ''Missing YAML frontmatter'')
           | Bad_yaml e \<Rightarrow> Inr (Inl (''Invalid YAML: '' @ e))
           | Load_raises e \<Rightarrow> Inl e
           | Frontmatter frontmatter body \<Rightarrow> Inr (Inr (frontmatter, body)))"

definition gerund_words :: "string list" where
  "gerund_words = [''-ing-'', ''analyzing'', ''building'', ''creating'']"

definition skill_check_name :: "string \<Rightarrow> findings" where
  "skill_check_name skill_name =
     ((if \<not> match_here name_pattern skill_name
       then [''Invalid directory name: must be lowercase-hyphens only''] else [])
      @ (if CHR ''_'' \<in> set skill_name then [''Underscores not allowed in directory name'']
         else [])
      @ (if length skill_name > 64 then [''Directory name exceeds 64 characters''] else []),
      [],
      (if \<not> endswith skill_name ''ing'' \<and> \<not> list_ex (\<lambda>word. str_in word skill_name) gerund_words
       then [''Consider gerund form for skill names (e.g., '' @ sq ''building-x'' @ '', ''
               @ sq ''analyzing-y'' @ '')'']
       else []))"

definition skill_check_name_field :: "string \<Rightarrow> pyval \<Rightarrow> findings result" where
  "skill_check_name_field skill_name frontmatter =
     bind (py_contains ''name'' frontmatter) (\<lambda>present.
       if \<not> present then Inr ([''Missing required '' @ sq ''name'' @ '' field''], [], [])
       else bind (py_getitem frontmatter ''name'') (\<lambda>v.
              Inr ([],
                   (if v \<noteq> PStr skill_name
                    then [''Name '' @ sq (py_str v) @ '' doesn'' @ apos @ ''t match directory ''
                            @ sq skill_name]
                    else []),
                   [])))"

definition py_lower_of :: "pyval \<Rightarrow> string result" where
  \<comment> \<open>\<^verbatim>\<open>v.lower()\<close>\<close>
  "py_lower_of v = (case v of PStr s \<Rightarrow> Inr (py_lower s) | _ \<Rightarrow> Inl AttributeError)"

definition trigger_keywords :: "string list" where
  "trigger_keywords = [''use when'', ''when'', ''auto-invokes when'', ''whenever'',
                       ''automatically activated'']"

definition skill_check_description :: "pyval \<Rightarrow> findings result" where
  "skill_check_description frontmatter =
     bind (py_contains ''description'' frontmatter) (\<lambda>present.
       if \<not> present then Inr ([''Missing required '' @ sq ''description'' @ '' field''], [], [])
       else bind (py_getitem frontmatter ''description'') (\<lambda>desc.
              bind (py_len desc) (\<lambda>n.
                bind (py_lower_of desc) (\<lambda>lowered.
                  Inr ((if \<not> n < 30 \<and> n > 1024
                        then [''Description exceeds 1024 character limit''] else []),
                       (if n < 30 then [''Description too short for skills (< 30 chars)'']
                        else [])
                       @ (if \<not> list_ex (\<lambda>keyword. str_in keyword lowered) trigger_keywords
                          then [''Description should clearly state WHEN Claude should auto-invoke'']
                          else []),
                       [])))))"

definition skill_check_model :: "string \<Rightarrow> pyval \<Rightarrow> findings result" where
  "skill_check_model skill_name frontmatter =
     bind (py_contains ''model'' frontmatter) (\<lambda>present.
       Inr (if present
            then ([''CRITICAL: Skills cannot have '' @ sq ''model'' @ '' field. ''
                     @ ''Only agents support model specification. ''
                     @ ''Run: /agent-builder:skills:migrate '' @ skill_name @ '' --apply''],
                  [], [])
            else no_findings))"

definition version_pattern :: "pat list" where
  \<comment> \<open>\<^verbatim>\<open>^\d+\.\d+\.\d+\<close>\<close>
  "version_pattern = [Plus is_digit, Lit ''.'', Plus is_digit, Lit ''.'', Plus is_digit]"

definition skill_check_version :: "pyval \<Rightarrow> findings result" where
  "skill_check_version frontmatter =
     bind (py_contains ''version'' frontmatter) (\<lambda>present.
       if \<not> present then Inr no_findings
       else bind (py_getitem frontmatter ''version'') (\<lambda>v.
              Inr ([],
                   (if \<not> match_here version_pattern (py_str v)
                    then [''Use semantic versioning (e.g., 1.0.0)''] else []),
                   [])))"

definition skill_check_tools :: "pyval \<Rightarrow> string \<Rightarrow> findings result" where
  "skill_check_tools frontmatter body =
     bind (py_contains ''allowed-tools'' frontmatter) (\<lambda>present.
       if \<not> present then Inr no_findings
       else bind (py_getitem frontmatter ''allowed-tools'') (\<lambda>tools.
              case tools of
                PStr ts \<Rightarrow>
                  Inr ([],
                       map (\<lambda>tool. ''Unknown tool: '' @ sq tool)
                         (filter (\<lambda>tool. tool \<notin> set valid_tools)
                            (map strip (split_on CHR '','' ts)))
                       @ (if str_in ''Bash'' ts \<and> body \<noteq> []
                             \<and> \<not> str_in ''validation'' (py_lower body)
                             \<and> \<not> str_in ''sanitize'' (py_lower body)
                          then [''Has Bash access - ensure input validation is documented'']
                          else []),
                       [])
              | _ \<Rightarrow> Inr no_findings))"

definition recommended_sections :: "string list" where
  "recommended_sections = [''When to Use'', ''Capabilities'', ''Examples'', ''How to Use'']"

definition skill_check_structure :: "skill_dir \<Rightarrow> string \<Rightarrow> findings" where
  \<comment> \<open>from \<^verbatim>\<open># Check directory structure\<close> to the check of the sections\<close>
  "skill_check_structure sd body =
     ([],
      (if body \<noteq> [] \<and> (has_scripts sd \<or> has_references sd \<or> has_assets sd)
          \<and> \<not> str_in ''{baseDir}'' body
       then [''Has resource directories but doesn'' @ apos @ ''t use {baseDir} variable'']
       else [])
      @ (if has_scripts sd
         then map (\<lambda>script. ''Script not executable: '' @ script @ '' (run chmod +x)'')
                (not_executable sd)
         else []),
      (if body \<noteq> []
       then (if \<not> str_in ''## '' body
             then [''Add section headings (##) to structure the skill content''] else [])
            @ (let missing_sections = filter (\<lambda>section. \<not> str_in section body)
                                        recommended_sections
               in if missing_sections \<noteq> []
                  then [''Consider adding sections: '' @ join '', '' missing_sections]
                  else [])
       else []))"

definition validate_skill :: "skill_dir \<Rightarrow> report result" where
  "validate_skill sd =
     bind (parse_skill sd) (\<lambda>parsed.
       case parsed of
         Inl parse_error \<Rightarrow> Inr (''parse_error'', [parse_error], [], [])
       | Inr (frontmatter, body) \<Rightarrow>
           bind (run_checks [Inr (skill_check_name (dir_name sd)),
                             skill_check_name_field (dir_name sd) frontmatter,
                             skill_check_description frontmatter,
                             skill_check_model (dir_name sd) frontmatter,
                             skill_check_version frontmatter,
                             skill_check_tools frontmatter body,
                             Inr (skill_check_structure sd body)]) (\<lambda>(critical_errors, warnings, recommendations).
             Inr (if critical_errors \<noteq> [] then ''errors''
                  else if warnings \<noteq> [] then ''warnings''
                  else ''valid'',
                  critical_errors, warnings, recommendations)))"

section \<open>Skill migration (migrate-skill.py)\<close>

definition migrate_remove_model_field :: "pydict \<Rightarrow> pydict \<times> string list" where
  "migrate_remove_model_field frontmatter =
     (case map_of frontmatter ''model'' of
        None \<Rightarrow> (frontmatter, [])
      | Some old_value \<Rightarrow>
          (dict_del ''model'' frontmatter,
           [''CRITICAL: Removed '' @ sq ''model'' @ '' field with value ''
              @ sq (py_str old_value) @ '' (skills don'' @ apos
              @ ''t support model specification)'']))"

definition py_endswith :: "pyval \<Rightarrow> string \<Rightarrow> bool result" where
  "py_endswith v p = (case v of PStr s \<Rightarrow> Inr (endswith s p) | _ \<Rightarrow> Inl AttributeError)"

definition migrate_gerund_form_recommendation ::
  "pydict \<Rightarrow> string \<Rightarrow> (pydict \<times> string list) result" where
  "migrate_gerund_form_recommendation frontmatter skill_name =
     (let name = (case map_of frontmatter ''name'' of None \<Rightarrow> PStr skill_name | Some v \<Rightarrow> v)
      in bind (py_endswith name ''ing'') (\<lambda>gerund.
           Inr (frontmatter,
                if \<not> gerund \<and> \<not> list_ex (\<lambda>word. str_in word (py_str name)) gerund_words
                then [''RECOMMENDATION: Consider gerund form for skill name ''
                        @ sq (py_str name) @ '' (e.g., '' @ sq (''building-'' @ py_str name)
                        @ '', '' @ sq (py_str name @ ''ing'') @ '')'']
                else [])))"

definition migration_trigger_keywords :: "string list" where
  "migration_trigger_keywords = [''use when'', ''when'', ''auto-invokes when'', ''whenever'']"

definition migrate_description_triggers :: "pydict \<Rightarrow> (pydict \<times> string list) result" where
  "migrate_description_triggers frontmatter =
     (let description = (case map_of frontmatter ''description'' of None \<Rightarrow> PStr []
                         | Some v \<Rightarrow> v)
      in if \<not> py_truthy description then Inr (frontmatter, [])
         else bind (py_lower_of description) (\<lambda>lowered.
                Inr (frontmatter,
                     if \<not> list_ex (\<lambda>keyword. str_in keyword lowered) migration_trigger_keywords
                     then [''RECOMMENDATION: Description should state WHEN Claude should ''
                             @ ''auto-invoke (add '' @ sq ''Auto-invokes when...'' @ '' or ''
                             @ sq ''Use when...'' @ '')'']
                     else [])))"

definition skill_apply_all_migrations ::
  "pydict \<Rightarrow> string \<Rightarrow> (pydict \<times> string list) result" where
  \<comment> \<open>\<^verbatim>\<open>apply_all_migrations\<close> of migrate-skill.py\<close>
  "skill_apply_all_migrations frontmatter skill_name =
     (let (fm1, changes1) = migrate_remove_model_field frontmatter
      in bind (migrate_gerund_form_recommendation fm1 skill_name) (\<lambda>(fm2, changes2).
           bind (migrate_description_triggers fm2) (\<lambda>(fm3, changes3).
             Inr (fm3, changes1 @ changes2 @ changes3))))"

definition critical_changes :: "string list \<Rightarrow> string list" where
  \<comment> \<open>the changes \<^verbatim>\<open>migrate_single_skill\<close> applies; it writes nothing when there is none\<close>
  "critical_changes changes = filter (\<lambda>c. startswith c ''CRITICAL'') changes"

definition recommendations_only :: "string list \<Rightarrow> string list" where
  "recommendations_only changes = filter (\<lambda>c. startswith c ''RECOMMENDATION'') changes"

section \<open>Artifacts and their identity\<close>

text \<open>
  \<^verbatim>\<open>migrate_single_command\<close> and \<^verbatim>\<open>migrate_single_skill\<close> parse the file at a path,
  migrate the frontmatter and write the new text back to the same path: the rules see and
  return the frontmatter only.
\<close>

record artifact =
  identity :: string
  metadata :: pydict
  body_text :: string

definition migrate_command_artifact :: "artifact \<Rightarrow> (artifact \<times> string list) result" where
  "migrate_command_artifact a =
     bind (apply_all_migrations (metadata a)) (\<lambda>(fm, changes).
       Inr (a\<lparr>metadata := fm\<rparr>, changes))"

definition migrate_skill_artifact :: "artifact \<Rightarrow> (artifact \<times> string list) result" where
  "migrate_skill_artifact a =
     bind (skill_apply_all_migrations (metadata a) (identity a)) (\<lambda>(fm, changes).
       Inr (a\<lparr>metadata := fm\<rparr>, changes))"

definition bad_name_char :: "char \<Rightarrow> bool" where
  \<comment> \<open>an uppercase character, a space or an underscore\<close>
  "bad_name_char c = (c \<in> set upper_chars \<or> c = CHR '' '' \<or> c = CHR ''_'')"

section \<open>Frontmatter as the schema has it\<close>

text \<open>
  The fields the validators measure or search are text in the schema; the checks need
  less: a \<^verbatim>\<open>description\<close> and an \<^verbatim>\<open>allowed-tools\<close> that have a length (a string, a list
  or a mapping) and a \<^verbatim>\<open>model\<close> that is a string.
\<close>

definition has_len :: "pyval \<Rightarrow> bool" where
  "has_len v = (case v of PStr s \<Rightarrow> True | PList xs \<Rightarrow> True | PDict d \<Rightarrow> True | _ \<Rightarrow> False)"

definition field_ok :: "(pyval \<Rightarrow> bool) \<Rightarrow> pyval option \<Rightarrow> bool" where
  "field_ok P v = (case v of None \<Rightarrow> True | Some x \<Rightarrow> P x)"

definition command_frontmatter_ok :: "pydict \<Rightarrow> bool" where
  "command_frontmatter_ok d =
     (field_ok has_len (map_of d ''description'') \<and> field_ok is_str (map_of d ''model'') \<and>
      field_ok has_len (map_of d ''allowed-tools''))"

definition skill_frontmatter_ok :: "pydict \<Rightarrow> bool" where
  "skill_frontmatter_ok d = field_ok is_str (map_of d ''description'')"

section \<open>Example inputs\<close>

text \<open>A command body whose only code block passes the arguments to \<^verbatim>\<open>eval\<close>.\<close>

definition eval_body :: string where
  "eval_body = ''## Usage'' @ nl @ ''## Workflow'' @ nl @ ''## Arguments'' @ nl
                 @ ''```bash'' @ nl @ ''eval $ARGUMENTS'' @ nl @ ''```''"

definition malformed :: "command_file \<Rightarrow> bool" where
  \<comment> \<open>the file cannot be read, the frontmatter delimiters are missing, or the YAML parser
      reports a \<^verbatim>\<open>YAMLError\<close>: the cases \<^verbatim>\<open>parse_command\<close> turns into a message\<close>
  "malformed f =
     (case content f of Unreadable e \<Rightarrow> True | No_frontmatter \<Rightarrow> True | Bad_yaml e \<Rightarrow> True
      | _ \<Rightarrow> False)"

definition typed_or_malformed :: "command_file \<Rightarrow> bool" where
  "typed_or_malformed f =
     (case content f of
        Frontmatter fm body \<Rightarrow> (case fm of PDict d \<Rightarrow> command_frontmatter_ok d | _ \<Rightarrow> False)
      | Load_raises e \<Rightarrow> False
      | _ \<Rightarrow> True)"

section \<open>Properties\<close>

subsection \<open>Dictionaries\<close>

lemma map_of_dict_set: "map_of (dict_set k v d) = (map_of d)(k \<mapsto> v)"
  by (induction d) (auto simp: fun_eq_iff)

lemma map_of_dict_del: "map_of (dict_del k d) = (map_of d)(k := None)"
  by (induction d) (auto simp: dict_del_def fun_eq_iff)

subsection \<open>The rename of \<^verbatim>\<open>tools\<close>\<close>

text \<open>
  C9. \<^verbatim>\<open>migrate_tools_field_name\<close> moves the value of \<^verbatim>\<open>tools\<close> to \<^verbatim>\<open>allowed-tools\<close> and
  deletes \<^verbatim>\<open>tools\<close> only when \<^verbatim>\<open>allowed-tools\<close> is absent, recording the rename; when
  \<^verbatim>\<open>allowed-tools\<close> is present or \<^verbatim>\<open>tools\<close> is absent the frontmatter comes back as it
  was with no recorded change; and every other key keeps its value in all cases.
\<close>

theorem migrate_tools_field_name_frame:
  "(map_of fm ''tools'' = Some t \<and> \<not> dict_has fm ''allowed-tools'' \<longrightarrow>
      map_of (fst (migrate_tools_field_name fm)) ''allowed-tools'' = Some t \<and>
      map_of (fst (migrate_tools_field_name fm)) ''tools'' = None \<and>
      snd (migrate_tools_field_name fm) =
        [''Renamed field: '' @ sq ''tools'' @ '' '' @ arrow @ '' '' @ sq ''allowed-tools'']) \<and>
   (dict_has fm ''allowed-tools'' \<or> \<not> dict_has fm ''tools'' \<longrightarrow>
      migrate_tools_field_name fm = (fm, [])) \<and>
   (\<forall>k. k \<noteq> ''tools'' \<and> k \<noteq> ''allowed-tools'' \<longrightarrow>
      map_of (fst (migrate_tools_field_name fm)) k = map_of fm k)"
  by (auto simp: migrate_tools_field_name_def dict_has_def map_of_dict_set map_of_dict_del
           split: option.splits)

theorem migrate_tools_field_name_frame_witness:
  "map_of [(''description'', PStr ''Run the tests''), (''tools'', PStr ''Read, Grep'')] ''tools''
     = Some (PStr ''Read, Grep'') \<and>
   \<not> dict_has [(''description'', PStr ''Run the tests''), (''tools'', PStr ''Read, Grep'')]
        ''allowed-tools'' \<and>
   map_of (fst (migrate_tools_field_name
        [(''description'', PStr ''Run the tests''), (''tools'', PStr ''Read, Grep'')]))
      ''allowed-tools'' = Some (PStr ''Read, Grep'') \<and>
   map_of (fst (migrate_tools_field_name
        [(''description'', PStr ''Run the tests''), (''tools'', PStr ''Read, Grep'')]))
      ''tools'' = None \<and>
   map_of (fst (migrate_tools_field_name
        [(''description'', PStr ''Run the tests''), (''tools'', PStr ''Read, Grep'')]))
      ''description'' = Some (PStr ''Run the tests'') \<and>
   dict_has [(''tools'', PStr ''Read''), (''allowed-tools'', PStr ''Bash'')] ''allowed-tools'' \<and>
   migrate_tools_field_name [(''tools'', PStr ''Read''), (''allowed-tools'', PStr ''Bash'')]
     = ([(''tools'', PStr ''Read''), (''allowed-tools'', PStr ''Bash'')], [])"
  using migrate_tools_field_name_frame
          [of "[(''description'', PStr ''Run the tests''), (''tools'', PStr ''Read, Grep'')]"
              "PStr ''Read, Grep''"]
        migrate_tools_field_name_frame
          [of "[(''tools'', PStr ''Read''), (''allowed-tools'', PStr ''Bash'')]" "PStr ''Read''"]
  by (simp add: dict_has_def)

lemma dict_set_twice: "dict_set k v (dict_set k v d) = dict_set k v d"
  by (induction d) auto

subsection \<open>Results and the operators\<close>

lemma bind_Inr_iff: "bind r f = Inr y \<longleftrightarrow> (\<exists>x. r = Inr x \<and> f x = Inr y)"
  by (cases r) (simp_all add: bind_def)

lemma bind_Inr [simp]: "bind (Inr x) f = f x"
  by (simp add: bind_def)

lemma bind_Inl [simp]: "bind (Inl e) f = Inl e"
  by (simp add: bind_def)

lemma py_getitem_Inr: "py_getitem v k = Inr x \<longleftrightarrow> (\<exists>d. v = PDict d \<and> map_of d k = Some x)"
  by (cases v) (auto simp: py_getitem_def split: option.splits)

lemma py_items_Inr: "py_items v = Inr d \<longleftrightarrow> v = PDict d"
  by (cases v) (auto simp: py_items_def)

lemma py_setitem_Inr:
  "py_setitem v k x = Inr v' \<longleftrightarrow> (\<exists>d. v = PDict d \<and> v' = PDict (dict_set k x d))"
  by (cases v) (auto simp: py_setitem_def)

lemma py_delitem_Inr:
  "py_delitem v k = Inr v' \<longleftrightarrow> (\<exists>d. v = PDict d \<and> dict_has d k \<and> v' = PDict (dict_del k d))"
  by (cases v) (auto simp: py_delitem_def)

lemma py_get_Inr:
  "py_get v k dflt = Inr x \<longleftrightarrow>
     (\<exists>d. v = PDict d \<and> x = (case map_of d k of None \<Rightarrow> dflt | Some y \<Rightarrow> y))"
  by (cases v) (auto simp: py_get_def split: option.splits)

subsection \<open>A second run of the command migration\<close>

lemma short_alias_fixed_iff:
  "migrate_short_alias_to_version_alias f = Inr (f, []) \<longleftrightarrow> model_settled (map_of f ''model'')"
  by (simp add: migrate_short_alias_to_version_alias_def model_settled_def split: option.splits)

lemma alias_lookup_new:
  "alias_lookup v = Some n \<Longrightarrow> alias_lookup (PStr n) = None \<and> n \<noteq> ''inherit''"
  by (cases v) (auto simp: alias_lookup_def alias_map_def split: if_splits)

lemma short_alias_settles:
  "migrate_short_alias_to_version_alias f = Inr (f1, c) \<Longrightarrow> model_settled (map_of f1 ''model'')"
  by (auto simp: migrate_short_alias_to_version_alias_def model_settled_def map_of_dict_set
                 map_of_dict_del hashable_def
           dest: alias_lookup_new split: option.splits if_splits)

lemma argument_hint_fixed_iff:
  "migrate_argument_hint_format f = (f, []) \<longleftrightarrow> hint_settled (map_of f ''argument-hint'')"
  by (cases "map_of f ''argument-hint''"; cases "the (map_of f ''argument-hint'')")
     (simp_all add: migrate_argument_hint_format_def hint_settled_def Let_def)

lemma argument_hint_settles:
  "hint_settled (map_of (fst (migrate_argument_hint_format f)) ''argument-hint'')"
  by (cases "map_of f ''argument-hint''"; cases "the (map_of f ''argument-hint'')")
     (simp_all add: migrate_argument_hint_format_def hint_settled_def Let_def map_of_dict_set
                    startswith_def py_str_def)

lemma argument_hint_frame:
  "k \<noteq> ''argument-hint'' \<Longrightarrow> map_of (fst (migrate_argument_hint_format f)) k = map_of f k"
  by (cases "map_of f ''argument-hint''"; cases "the (map_of f ''argument-hint'')")
     (simp_all add: migrate_argument_hint_format_def Let_def map_of_dict_set)

lemma tools_fixed_iff: "migrate_tools_field_name f = (f, []) \<longleftrightarrow> tools_settled f"
  by (auto simp: migrate_tools_field_name_def tools_settled_def dict_has_def split: option.splits)

lemma tools_settles: "tools_settled (fst (migrate_tools_field_name f))"
  by (auto simp: migrate_tools_field_name_def tools_settled_def dict_has_def map_of_dict_set
                 map_of_dict_del split: option.splits)

lemma tools_frame:
  "k \<noteq> ''tools'' \<Longrightarrow> k \<noteq> ''allowed-tools'' \<Longrightarrow>
   map_of (fst (migrate_tools_field_name f)) k = map_of f k"
  by (auto simp: migrate_tools_field_name_def dict_has_def map_of_dict_set map_of_dict_del
           split: option.splits)

lemma apply_all_migrations_again:
  assumes "apply_all_migrations f = Inr (f', changes)"
  shows "apply_all_migrations f' = Inr (f', [])"
proof -
  from assms obtain f1 c1 where s1: "migrate_short_alias_to_version_alias f = Inr (f1, c1)"
    and f': "f' = fst (migrate_tools_field_name (fst (migrate_argument_hint_format f1)))"
    by (auto simp: apply_all_migrations_def bind_def split: sum.splits prod.splits)
  let ?f2 = "fst (migrate_argument_hint_format f1)"
  have "map_of f' ''model'' = map_of f1 ''model''"
    unfolding f' by (simp add: tools_frame argument_hint_frame)
  with short_alias_settles [OF s1] have a: "migrate_short_alias_to_version_alias f' = Inr (f', [])"
    by (simp add: short_alias_fixed_iff)
  have "map_of f' ''argument-hint'' = map_of ?f2 ''argument-hint''"
    unfolding f' by (simp add: tools_frame)
  with argument_hint_settles [of f1] have b: "migrate_argument_hint_format f' = (f', [])"
    by (simp add: argument_hint_fixed_iff)
  have c: "migrate_tools_field_name f' = (f', [])"
    unfolding f' by (simp add: tools_fixed_iff tools_settles)
  show ?thesis
    by (simp add: apply_all_migrations_def a b c)
qed

subsection \<open>A second run of a loop\<close>

lemma for_enum_again:
  assumes step: "\<And>i x x' c. body i x = Inr (x', c) \<Longrightarrow> body i x' = Inr (x', filter P c)"
  shows "for_enum body i xs = Inr (xs', ch) \<Longrightarrow> for_enum body i xs' = Inr (xs', filter P ch)"
proof (induction xs arbitrary: i xs' ch)
  case Nil
  then show ?case by simp
next
  case (Cons x xs)
  from Cons.prems obtain x' c ys cs where
    a: "body i x = Inr (x', c)" and b: "for_enum body (Suc i) xs = Inr (ys, cs)"
    and c: "xs' = x' # ys" "ch = c @ cs"
    by (auto simp: bind_Inr_iff)
  show ?case
    using step [OF a] Cons.IH [OF b] c by simp
qed

lemma for_enum_strings:
  assumes str: "\<And>i s x' c. body i (PStr s) = Inr (x', c) \<Longrightarrow> c = []"
  shows "for_enum body i (map PStr ss) = Inr (xs', ch) \<Longrightarrow> ch = []"
proof (induction ss arbitrary: i xs' ch)
  case Nil
  then show ?case by simp
next
  case (Cons s ss)
  then show ?case
    by (auto simp: bind_Inr_iff dest: str)
qed

lemma for_each_again:
  assumes step: "\<And>i x x' c. body i x = Inr (x', c) \<Longrightarrow> body i x' = Inr (x', filter P c)"
    and str: "\<And>i s x' c. body i (PStr s) = Inr (x', c) \<Longrightarrow> c = []"
    and run: "for_each body v = Inr (v', ch)"
  shows "for_each body v' = Inr (v', filter P ch)"
proof (cases v)
  case (PList xs)
  with run obtain xs' where a: "for_enum body 0 xs = Inr (xs', ch)" and v': "v' = PList xs'"
    by (auto simp: for_each_def py_iter_def bind_Inr_iff)
  from for_enum_again [of body P, OF step a] show ?thesis
    by (simp add: v' for_each_def py_iter_def)
next
  case (PDict d)
  with run obtain xs' where a: "for_enum body 0 (map PStr (map fst d)) = Inr (xs', ch)"
    and v': "v' = v"
    by (auto simp: for_each_def py_iter_def bind_Inr_iff comp_def)
  from for_enum_strings [of body, OF str a] have "ch = []" .
  with run show ?thesis by (simp add: v')
next
  case (PStr s)
  with run obtain xs' where a: "for_enum body 0 (map PStr (map (\<lambda>c. [c]) s)) = Inr (xs', ch)"
    and v': "v' = v"
    by (auto simp: for_each_def py_iter_def bind_Inr_iff comp_def)
  from for_enum_strings [of body, OF str a] have "ch = []" .
  with run show ?thesis by (simp add: v')
qed (use run in \<open>simp_all add: for_each_def py_iter_def\<close>)

lemma for_events_again:
  assumes step: "\<And>ev h h' c. body ev h = Inr (h', c) \<Longrightarrow> body ev h' = Inr (h', filter P c)"
  shows "for_events body evs = Inr (evs', ch) \<Longrightarrow> for_events body evs' = Inr (evs', filter P ch)"
proof (induction evs arbitrary: evs' ch)
  case Nil
  then show ?case by simp
next
  case (Cons p evs)
  from Cons.prems obtain h' c ys cs where
    a: "body (fst p) (snd p) = Inr (h', c)" and b: "for_events body evs = Inr (ys, cs)"
    and c: "evs' = (fst p, h') # ys" "ch = c @ cs"
    by (auto simp: bind_Inr_iff)
  show ?case
    using step [OF a] Cons.IH [OF b] c by simp
qed

lemma with_hooks_Inr:
  "with_hooks body cfg = Inr (cfg', ch) \<longleftrightarrow>
     (py_contains ''hooks'' cfg = Inr False \<and> cfg' = cfg \<and> ch = []) \<or>
     (\<exists>d evs evs'. cfg = PDict d \<and> map_of d ''hooks'' = Some (PDict evs) \<and>
        for_events body evs = Inr (evs', ch) \<and> cfg' = PDict (dict_set ''hooks'' (PDict evs') d))"
proof (cases "py_contains ''hooks'' cfg")
  case (Inl e)
  then show ?thesis
    by (auto simp: with_hooks_def py_contains_def)
next
  case (Inr present)
  show ?thesis
  proof (cases present)
    case False
    with Inr show ?thesis
      by (auto simp: with_hooks_def py_contains_def dict_has_def)
  next
    case True
    with Inr show ?thesis
      by (auto simp: with_hooks_def bind_Inr_iff py_getitem_Inr py_items_Inr py_setitem_Inr
                     py_contains_def dict_has_def)
  qed
qed

lemma with_hooks_again:
  assumes step: "\<And>ev h h' c. body ev h = Inr (h', c) \<Longrightarrow> body ev h' = Inr (h', filter P c)"
    and run: "with_hooks body cfg = Inr (cfg', ch)"
  shows "with_hooks body cfg' = Inr (cfg', filter P ch)"
  using run unfolding with_hooks_Inr [of body cfg]
proof (elim disjE conjE exE)
  assume "py_contains ''hooks'' cfg = Inr False" "cfg' = cfg" "ch = []"
  then show ?thesis
    by (simp add: with_hooks_Inr)
next
  fix d evs evs'
  assume a: "cfg = PDict d" "map_of d ''hooks'' = Some (PDict evs)"
    "for_events body evs = Inr (evs', ch)" "cfg' = PDict (dict_set ''hooks'' (PDict evs') d)"
  from for_events_again [of body P, OF step a(3)] show ?thesis
    by (simp add: a with_hooks_Inr map_of_dict_set dict_set_twice)
qed

subsection \<open>A second run of the matcher migrations\<close>

lemma remove_empty_matcher_again:
  assumes "remove_empty_matcher ev i x = Inr (x', c)"
  shows "remove_empty_matcher ev i x' = Inr (x', filter (\<lambda>m. startswith m ''WARNING: '') c)"
proof -
  from assms obtain present where p: "py_contains ''matcher'' x = Inr present"
    by (auto simp: remove_empty_matcher_def bind_Inr_iff)
  show ?thesis
  proof (cases present)
    case False
    with assms p show ?thesis by (simp add: remove_empty_matcher_def)
  next
    case pres: True
    with assms p obtain d m empty where x: "x = PDict d" and m: "map_of d ''matcher'' = Some m"
      and e: "(if \<not> py_truthy m then Inr True else bind (py_strip m) (\<lambda>s. Inr (s = [])))
                = Inr empty"
      by (auto simp: remove_empty_matcher_def bind_Inr_iff py_getitem_Inr)
    show ?thesis
    proof (cases empty)
      case True
      with assms p pres x m e have "x' = PDict (dict_del ''matcher'' d)"
        and "c = [''Removed empty matcher from '' @ ev @ '' hook #'' @ str_nat (i + 1)]"
        by (auto simp: remove_empty_matcher_def py_getitem_def py_delitem_def dict_has_def)
      then show ?thesis
        by (simp add: remove_empty_matcher_def py_contains_def dict_has_def map_of_dict_del
                      startswith_def)
    next
      case False
      with assms p pres x m e have "x' = x"
        and "c = [''WARNING: '' @ ev @ '' hook #'' @ str_nat (i + 1)
                    @ '' has matcher '' @ sq (py_str m)
                    @ '' (lifecycle events shouldn'' @ apos @ ''t have matchers)'']"
        by (auto simp: remove_empty_matcher_def py_getitem_def)
      with assms show ?thesis
        by (simp add: startswith_def)
    qed
  qed
qed

lemma remove_empty_matcher_string:
  "remove_empty_matcher ev i (PStr s) = Inr (x', c) \<Longrightarrow> c = []"
  by (auto simp: remove_empty_matcher_def py_contains_def py_getitem_def split: if_splits)

lemma add_missing_matcher_again:
  assumes "add_missing_matcher ev i x = Inr (x', c)"
  shows "add_missing_matcher ev i x' = Inr (x', filter (\<lambda>m. False) c)"
proof -
  from assms obtain present missing where p: "py_contains ''matcher'' x = Inr present"
    and ms: "(if \<not> present then Inr True
             else bind (py_getitem x ''matcher'') (\<lambda>m. Inr (\<not> py_truthy m))) = Inr missing"
    by (auto simp: add_missing_matcher_def bind_Inr_iff)
  show ?thesis
  proof (cases missing)
    case True
    with assms p ms obtain d where "x = PDict d" "x' = PDict (dict_set ''matcher'' (PStr ''*'') d)"
      by (auto simp: add_missing_matcher_def py_setitem_Inr bind_Inr_iff)
    then show ?thesis
      by (simp add: add_missing_matcher_def py_contains_def dict_has_def map_of_dict_set
                    py_getitem_def py_truthy_def)
  next
    case False
    with assms p ms have "x' = x" "c = []"
      by (auto simp: add_missing_matcher_def)
    with assms show ?thesis by simp
  qed
qed

lemma add_missing_matcher_string:
  "add_missing_matcher ev i (PStr s) = Inr (x', c) \<Longrightarrow> c = []"
  by (auto simp: add_missing_matcher_def py_contains_def py_getitem_def py_setitem_def
           split: if_splits)

lemma migrate_remove_empty_matchers_again:
  assumes "migrate_remove_empty_matchers cfg = Inr (cfg', ch)"
  shows "migrate_remove_empty_matchers cfg'
           = Inr (cfg', filter (\<lambda>m. startswith m ''WARNING: '') ch)"
  unfolding migrate_remove_empty_matchers_def
proof (rule with_hooks_again [OF _ assms [unfolded migrate_remove_empty_matchers_def]])
  fix ev h h' c
  assume "(if ev \<in> set LIFECYCLE_EVENTS then for_each (remove_empty_matcher ev) h
           else Inr (h, [])) = Inr (h', c)"
  then show "(if ev \<in> set LIFECYCLE_EVENTS then for_each (remove_empty_matcher ev) h'
           else Inr (h', [])) = Inr (h', filter (\<lambda>m. startswith m ''WARNING: '') c)"
    using for_each_again [where body = "remove_empty_matcher ev" and v = h and v' = h' and ch = c,
            OF remove_empty_matcher_again remove_empty_matcher_string]
    by (auto split: if_splits)
qed

lemma migrate_add_missing_matchers_again:
  assumes "migrate_add_missing_matchers cfg = Inr (cfg', ch)"
  shows "migrate_add_missing_matchers cfg' = Inr (cfg', [])"
proof -
  have "with_hooks (\<lambda>event_name event_hooks.
        if event_name \<in> set TOOL_EVENTS
        then for_each (add_missing_matcher event_name) event_hooks
        else Inr (event_hooks, [])) cfg' = Inr (cfg', filter (\<lambda>m. False) ch)"
  proof (rule with_hooks_again [OF _ assms [unfolded migrate_add_missing_matchers_def]])
    fix ev h h' c
    assume "(if ev \<in> set TOOL_EVENTS then for_each (add_missing_matcher ev) h
             else Inr (h, [])) = Inr (h', c)"
    then show "(if ev \<in> set TOOL_EVENTS then for_each (add_missing_matcher ev) h'
             else Inr (h', [])) = Inr (h', filter (\<lambda>m. False) c)"
      using for_each_again [where body = "add_missing_matcher ev" and v = h and v' = h' and ch = c,
              OF add_missing_matcher_again add_missing_matcher_string]
      by (auto split: if_splits)
  qed
  then show ?thesis by (simp add: migrate_add_missing_matchers_def)
qed

text \<open>
  C1, as the code has it. A second run of the command migration on its own output changes
  nothing and reports no change, and so does a second run of
  \<^verbatim>\<open>migrate_add_missing_matchers\<close>. A second run of \<^verbatim>\<open>migrate_remove_empty_matchers\<close>
  changes nothing either, but it reports again every \<^verbatim>\<open>WARNING:\<close> line of the first run
  (one for each lifecycle hook group that keeps a non-empty matcher), and only those.
\<close>

theorem migrations_second_run:
  "(apply_all_migrations f = Inr (f', changes) \<longrightarrow> apply_all_migrations f' = Inr (f', [])) \<and>
   (migrate_add_missing_matchers cfg = Inr (cfg', ch) \<longrightarrow>
      migrate_add_missing_matchers cfg' = Inr (cfg', [])) \<and>
   (migrate_remove_empty_matchers cfg0 = Inr (cfg1, ch1) \<longrightarrow>
      migrate_remove_empty_matchers cfg1
        = Inr (cfg1, filter (\<lambda>m. startswith m ''WARNING: '') ch1))"
  using apply_all_migrations_again migrate_add_missing_matchers_again
        migrate_remove_empty_matchers_again
  by blast

theorem migrations_second_run_witness:
  "apply_all_migrations
     [(''description'', PStr ''Fix a bug''), (''model'', PStr ''claude-haiku-4-5''),
      (''argument-hint'', PStr ''[file]''), (''allowed-tools'', PStr ''Read'')]
   = Inr ([(''description'', PStr ''Fix a bug''), (''model'', PStr ''claude-haiku-4-5''),
           (''argument-hint'', PStr ''[file]''), (''allowed-tools'', PStr ''Read'')], []) \<and>
   migrate_add_missing_matchers
     (PDict [(''hooks'', PDict [(''PreToolUse'', PList [PDict [(''matcher'', PStr ''*'')]])])])
   = Inr (PDict [(''hooks'', PDict [(''PreToolUse'', PList [PDict [(''matcher'', PStr ''*'')]])])],
          []) \<and>
   migrate_remove_empty_matchers
     (PDict [(''hooks'', PDict [(''Stop'', PList [PDict []])])])
   = Inr (PDict [(''hooks'', PDict [(''Stop'', PList [PDict []])])], [])"
proof -
  have a: "apply_all_migrations
     [(''description'', PStr ''Fix a bug''), (''model'', PStr ''haiku''),
      (''argument-hint'', PStr ''file''), (''tools'', PStr ''Read'')]
   = Inr ([(''description'', PStr ''Fix a bug''), (''model'', PStr ''claude-haiku-4-5''),
           (''argument-hint'', PStr ''[file]''), (''allowed-tools'', PStr ''Read'')],
          [''Migrated model: '' @ sq ''haiku'' @ '' '' @ arrow @ '' '' @ sq ''claude-haiku-4-5'',
           ''Added brackets to argument-hint: '' @ sq ''file'' @ '' '' @ arrow @ '' ''
             @ sq ''[file]'',
           ''Renamed field: '' @ sq ''tools'' @ '' '' @ arrow @ '' '' @ sq ''allowed-tools''])"
    by (simp add: apply_all_migrations_def migrate_short_alias_to_version_alias_def
          hashable_def alias_lookup_def alias_map_def py_str_def
          migrate_argument_hint_format_def startswith_def migrate_tools_field_name_def
          dict_has_def dict_del_def Let_def)
  have b: "migrate_add_missing_matchers
     (PDict [(''hooks'', PDict [(''PreToolUse'', PList [PDict []])])])
   = Inr (PDict [(''hooks'', PDict [(''PreToolUse'', PList [PDict [(''matcher'', PStr ''*'')]])])],
          [''Added default matcher '' @ sq ''*'' @ '' to PreToolUse hook #1''])"
    by (simp add: migrate_add_missing_matchers_def with_hooks_def py_contains_def dict_has_def
          py_getitem_def py_items_def TOOL_EVENTS_def for_each_def py_iter_def
          add_missing_matcher_def py_setitem_def str_nat.simps digit_char_def)
  have c: "migrate_remove_empty_matchers
     (PDict [(''hooks'', PDict [(''Stop'', PList [PDict [(''matcher'', PStr '' '')]])])])
   = Inr (PDict [(''hooks'', PDict [(''Stop'', PList [PDict []])])],
          [''Removed empty matcher from Stop hook #1''])"
    by (simp add: migrate_remove_empty_matchers_def with_hooks_def py_contains_def dict_has_def
          py_getitem_def py_items_def LIFECYCLE_EVENTS_def for_each_def py_iter_def
          remove_empty_matcher_def py_truthy_def py_strip_def strip_def is_space_def
          py_delitem_def dict_del_def py_setitem_def str_nat.simps digit_char_def)
  from migrations_second_run [THEN conjunct1, rule_format, OF a]
       migrations_second_run [THEN conjunct2, THEN conjunct1, rule_format, OF b]
       migrations_second_run [THEN conjunct2, THEN conjunct2, rule_format, OF c]
  show ?thesis by (simp add: startswith_def)
qed

theorem remove_empty_matchers_second_run_counterexample:
  "migrate_remove_empty_matchers
      (PDict [(''hooks'', PDict [(''Stop'', PList [PDict [(''matcher'', PStr ''Bash'')]])])])
    = Inr (PDict [(''hooks'', PDict [(''Stop'', PList [PDict [(''matcher'', PStr ''Bash'')]])])],
           [''WARNING: Stop hook #1 has matcher '' @ sq ''Bash''
              @ '' (lifecycle events shouldn'' @ apos @ ''t have matchers)'']) \<and>
   migrate_remove_empty_matchers
      (PDict [(''hooks'', PDict [(''Stop'', PList [PDict [(''matcher'', PStr ''Bash'')]])])])
    \<noteq> Inr (PDict [(''hooks'', PDict [(''Stop'', PList [PDict [(''matcher'', PStr ''Bash'')]])])],
            [])"
  by (simp add: migrate_remove_empty_matchers_def with_hooks_def py_contains_def dict_has_def
        py_getitem_def py_items_def LIFECYCLE_EVENTS_def for_each_def py_iter_def
        remove_empty_matcher_def py_truthy_def py_strip_def strip_def is_space_def
        py_setitem_def str_nat.simps digit_char_def py_str_def)

subsection \<open>Hook items with an invalid type\<close>

text \<open>
  C7, as the code has it. For a hook item whose \<^verbatim>\<open>type\<close> (the empty string when the key
  is absent) is neither \<^verbatim>\<open>command\<close> nor \<^verbatim>\<open>prompt\<close>: when the item has a
  \<^verbatim>\<open>command\<close> field the type becomes \<^verbatim>\<open>command\<close>, whether or not a \<^verbatim>\<open>prompt\<close> field is
  present too; when it has a \<^verbatim>\<open>prompt\<close> field and no \<^verbatim>\<open>command\<close> field the type becomes
  \<^verbatim>\<open>prompt\<close>; when it has neither, the item is left as it is and an \<^verbatim>\<open>ERROR:\<close> line is
  recorded in place of a fix.
\<close>

theorem validate_hook_item_invalid_type:
  assumes "item_type it \<noteq> PStr ''command''" "item_type it \<noteq> PStr ''prompt''"
  shows "(dict_has it ''command'' \<longrightarrow>
            validate_hook_item ev i j (PDict it)
              = Inr (PDict (dict_set ''type'' (PStr ''command'') it),
                     [''Fixed type to '' @ sq ''command'' @ '' for '' @ hook_place ev i j])) \<and>
         (\<not> dict_has it ''command'' \<and> dict_has it ''prompt'' \<longrightarrow>
            validate_hook_item ev i j (PDict it)
              = Inr (PDict (dict_set ''type'' (PStr ''prompt'') it),
                     [''Fixed type to '' @ sq ''prompt'' @ '' for '' @ hook_place ev i j])) \<and>
         (\<not> dict_has it ''command'' \<and> \<not> dict_has it ''prompt'' \<longrightarrow>
            validate_hook_item ev i j (PDict it)
              = Inr (PDict it,
                     [''ERROR: '' @ hook_place ev i j @ '': Invalid type ''
                        @ sq (py_str (item_type it)) @ '' with no command or prompt'']))"
  using assms
  by (simp add: validate_hook_item_def py_get_def item_type_def py_contains_def py_setitem_def
           split: option.splits)

theorem validate_hook_item_invalid_type_witness:
  "validate_hook_item ''Stop'' 0 0 (PDict [(''type'', PStr ''shell''), (''command'', PStr ''ls'')])
     = Inr (PDict [(''type'', PStr ''command''), (''command'', PStr ''ls'')],
            [''Fixed type to '' @ sq ''command'' @ '' for '' @ hook_place ''Stop'' 0 0]) \<and>
   validate_hook_item ''Stop'' 0 0 (PDict [(''prompt'', PStr ''Summarise'')])
     = Inr (PDict [(''prompt'', PStr ''Summarise''), (''type'', PStr ''prompt'')],
            [''Fixed type to '' @ sq ''prompt'' @ '' for '' @ hook_place ''Stop'' 0 0]) \<and>
   validate_hook_item ''Stop'' 0 0 (PDict [(''type'', PStr ''shell'')])
     = Inr (PDict [(''type'', PStr ''shell'')],
            [''ERROR: '' @ hook_place ''Stop'' 0 0 @ '': Invalid type '' @ sq ''shell''
               @ '' with no command or prompt''])"
  using validate_hook_item_invalid_type
          [of "[(''type'', PStr ''shell''), (''command'', PStr ''ls'')]" "''Stop''" 0 0]
        validate_hook_item_invalid_type [of "[(''prompt'', PStr ''Summarise'')]" "''Stop''" 0 0]
        validate_hook_item_invalid_type [of "[(''type'', PStr ''shell'')]" "''Stop''" 0 0]
  by (simp add: item_type_def dict_has_def py_str_def)

theorem validate_hook_types_both_payloads_counterexample: "migrate_validate_hook_types
     (PDict [(''hooks'', PDict [(''PreToolUse'',
        PList [PDict [(''matcher'', PStr ''Bash''),
                      (''hooks'', PList [PDict [(''type'', PStr ''shell''),
                                                (''command'', PStr ''ls''),
                                                (''prompt'', PStr ''List the files'')]])]])])])
   = Inr (PDict [(''hooks'', PDict [(''PreToolUse'',
        PList [PDict [(''matcher'', PStr ''Bash''),
                      (''hooks'', PList [PDict [(''type'', PStr ''command''),
                                                (''command'', PStr ''ls''),
                                                (''prompt'', PStr ''List the files'')]])]])])],
          [''Fixed type to '' @ sq ''command'' @ '' for PreToolUse hook #1, item #1''])"
  by (simp add: migrate_validate_hook_types_def with_hooks_def py_contains_def dict_has_def
        py_getitem_def py_items_def for_each_def py_iter_def for_items_def
        validate_hook_item_def py_get_def py_setitem_def hook_place_def str_nat.simps digit_char_def)

subsection \<open>Raising loops\<close>

lemma raises_simps [simp]: "raises (Inl e)" "\<not> raises (Inr x)"
  by (simp_all add: raises_def)

lemma only_name_error_simps [simp]:
  "only_name_error (Inl e) \<longleftrightarrow> e = NameError" "only_name_error (Inr x)"
  by (simp_all add: only_name_error_def)

lemma raises_bind_iff: "raises (bind r f) \<longleftrightarrow> raises r \<or> (\<exists>x. r = Inr x \<and> raises (f x))"
  by (cases r) simp_all

lemma only_bind_iff:
  "only_name_error (bind r f) \<longleftrightarrow>
     only_name_error r \<and> (\<forall>x. r = Inr x \<longrightarrow> only_name_error (f x))"
  by (cases r) simp_all

lemma raises_only: "raises r \<Longrightarrow> only_name_error r \<Longrightarrow> r = Inl NameError"
  by (cases r) simp_all

lemma for_enum_raises:
  "x \<in> set xs \<Longrightarrow> (\<And>i. raises (body i x)) \<Longrightarrow> raises (for_enum body i xs)"
proof (induction xs arbitrary: i)
  case Nil
  then show ?case by simp
next
  case (Cons y ys)
  show ?case
  proof (cases "x = y")
    case True
    with Cons.prems(2) [of i] show ?thesis by (simp add: raises_bind_iff)
  next
    case False
    with Cons have "raises (for_enum body (Suc i) ys)" by simp
    then show ?thesis
      by (cases "body i y") (simp_all add: raises_bind_iff split_def)
  qed
qed

lemma for_enum_only:
  "(\<And>i x. x \<in> set xs \<Longrightarrow> only_name_error (body i x)) \<Longrightarrow> only_name_error (for_enum body i xs)"
proof (induction xs arbitrary: i)
  case Nil
  then show ?case by simp
next
  case (Cons y ys)
  have "only_name_error (for_enum body (Suc i) ys)"
    by (rule Cons.IH) (simp add: Cons.prems)
  moreover have "only_name_error (body i y)"
    by (simp add: Cons.prems)
  ultimately show ?case
    by (simp add: only_bind_iff split_def)
qed

lemma for_each_raises:
  "x \<in> set xs \<Longrightarrow> (\<And>i. raises (body i x)) \<Longrightarrow> raises (for_each body (PList xs))"
  by (simp add: for_each_def py_iter_def raises_bind_iff for_enum_raises)

lemma for_each_only:
  "(\<And>i x. x \<in> set xs \<Longrightarrow> only_name_error (body i x)) \<Longrightarrow>
   only_name_error (for_each body (PList xs))"
  by (simp add: for_each_def py_iter_def split_def only_bind_iff for_enum_only)

lemma for_events_raises:
  "p \<in> set evs \<Longrightarrow> raises (body (fst p) (snd p)) \<Longrightarrow> raises (for_events body evs)"
proof (induction evs)
  case Nil
  then show ?case by simp
next
  case (Cons q evs)
  show ?case
  proof (cases "p = q")
    case True
    with Cons.prems show ?thesis by (simp add: raises_bind_iff)
  next
    case False
    with Cons have "raises (for_events body evs)" by simp
    then show ?thesis
      by (cases "body (fst q) (snd q)") (simp_all add: raises_bind_iff split_def)
  qed
qed

lemma for_events_only:
  "(\<And>p. p \<in> set evs \<Longrightarrow> only_name_error (body (fst p) (snd p))) \<Longrightarrow>
   only_name_error (for_events body evs)"
proof (induction evs)
  case Nil
  then show ?case by simp
next
  case (Cons q evs)
  have "only_name_error (for_events body evs)"
    by (rule Cons.IH) (simp add: Cons.prems)
  moreover have "only_name_error (body (fst q) (snd q))"
    by (simp add: Cons.prems)
  ultimately show ?case
    by (simp add: only_bind_iff split_def)
qed

lemma with_hooks_raises:
  "map_of d ''hooks'' = Some (PDict evs) \<Longrightarrow> raises (for_events body evs) \<Longrightarrow>
   raises (with_hooks body (PDict d))"
  by (simp add: with_hooks_def py_contains_def dict_has_def py_getitem_def py_items_def
        raises_bind_iff)

lemma with_hooks_only:
  "map_of d ''hooks'' = Some (PDict evs) \<Longrightarrow> only_name_error (for_events body evs) \<Longrightarrow>
   only_name_error (with_hooks body (PDict d))"
  by (simp add: with_hooks_def py_contains_def dict_has_def py_getitem_def py_items_def
        py_setitem_def split_def only_bind_iff)

lemma for_items_raises:
  "map_of g ''hooks'' = Some (PList items) \<Longrightarrow> x \<in> set items \<Longrightarrow>
   (\<And>j. raises (body i j x)) \<Longrightarrow> raises (for_items body i (PDict g))"
  by (simp add: for_items_def py_contains_def dict_has_def py_getitem_def raises_bind_iff
        for_each_raises)

lemma for_items_only:
  assumes "group_ok grp" "\<And>j x. item_ok x \<Longrightarrow> only_name_error (body i j x)"
  shows "only_name_error (for_items body i grp)"
proof -
  from assms(1) obtain g where g: "grp = PDict g" and it: "items_ok (map_of g ''hooks'')"
    by (cases grp) (auto simp: group_ok_def)
  show ?thesis
  proof (cases "map_of g ''hooks''")
    case None
    then show ?thesis
      by (simp add: g for_items_def py_contains_def dict_has_def)
  next
    case (Some v)
    with it obtain items where v: "v = PList items" and ok: "list_all item_ok items"
      by (cases v) (auto simp: items_ok_def)
    have "only_name_error (for_each (body i) (PList items))"
      by (rule for_each_only) (use ok assms(2) in \<open>auto simp: list_all_iff\<close>)
    then show ?thesis
      by (simp add: g Some v for_items_def py_contains_def dict_has_def py_getitem_def
            py_setitem_def split_def only_bind_iff)
  qed
qed

lemma normalize_hook_item_raises:
  assumes "map_of it ''type'' = Some (PStr ''command'')" "map_of it ''command'' = Some (PStr cmd)"
    "relative_script_command cmd"
  shows "normalize_hook_item ev i j (PDict it) = Inl NameError"
  using assms
  by (auto simp: normalize_hook_item_def py_get_def py_startswith_def relative_script_command_def
        py_str_def Let_def)

lemma normalize_hook_item_only:
  assumes "item_ok x"
  shows "only_name_error (normalize_hook_item ev i j x)"
proof -
  from assms obtain it where x: "x = PDict it"
    and c: "case map_of it ''command'' of None \<Rightarrow> True | Some c \<Rightarrow> is_str c"
    by (cases x) (auto simp: item_ok_def)
  show ?thesis
  proof (cases "map_of it ''command''")
    case None
    then show ?thesis
      by (simp add: x normalize_hook_item_def py_get_def py_startswith_def startswith_def
            split: option.splits)
  next
    case (Some v)
    with c obtain s where "v = PStr s" by (cases v) (auto simp: is_str_def)
    with Some show ?thesis
      by (simp add: x normalize_hook_item_def py_get_def py_startswith_def Let_def
            split: option.splits)
  qed
qed

subsection \<open>What a loop does to one element\<close>

lemma for_enum_nth:
  "for_enum body i0 xs = Inr (xs', ch) \<Longrightarrow>
   length xs' = length xs \<and>
   (\<forall>k<length xs. \<exists>c. body (i0 + k) (xs ! k) = Inr (xs' ! k, c) \<and> set c \<subseteq> set ch)"
proof (induction xs arbitrary: i0 xs' ch)
  case Nil
  then show ?case by simp
next
  case (Cons x xs)
  from Cons.prems obtain x' c ys cs where
    a: "body i0 x = Inr (x', c)" and b: "for_enum body (Suc i0) xs = Inr (ys, cs)"
    and c: "xs' = x' # ys" "ch = c @ cs"
    by (auto simp: bind_Inr_iff)
  from Cons.IH [OF b] have len: "length ys = length xs"
    and nth: "\<And>k. k < length xs \<Longrightarrow>
                \<exists>c. body (Suc i0 + k) (xs ! k) = Inr (ys ! k, c) \<and> set c \<subseteq> set cs"
    by auto
  show ?case
  proof (intro conjI allI impI)
    show "length xs' = length (x # xs)" by (simp add: c len)
  next
    fix k assume k: "k < length (x # xs)"
    show "\<exists>c. body (i0 + k) ((x # xs) ! k) = Inr (xs' ! k, c) \<and> set c \<subseteq> set ch"
    proof (cases k)
      case 0
      with a c show ?thesis by auto
    next
      case (Suc n)
      with k nth [of n] c show ?thesis by auto
    qed
  qed
qed

lemma for_enum_total:
  "(\<And>i x. x \<in> set xs \<Longrightarrow> \<exists>x' c. body i x = Inr (x', c) \<and> Q x') \<Longrightarrow>
   \<exists>xs' ch. for_enum body i0 xs = Inr (xs', ch) \<and> list_all Q xs'"
proof (induction xs arbitrary: i0)
  case Nil
  then show ?case by simp
next
  case (Cons x xs)
  from Cons.prems [of x i0] obtain x' c where a: "body i0 x = Inr (x', c)" "Q x'" by auto
  from Cons.IH [of "Suc i0"] Cons.prems obtain ys cs where
    b: "for_enum body (Suc i0) xs = Inr (ys, cs)" "list_all Q ys"
    by auto
  from a b show ?case by simp
qed

lemma for_events_map_of:
  "for_events body evs = Inr (evs', ch) \<Longrightarrow> map_of evs ev = Some h \<Longrightarrow>
   \<exists>h' c. body ev h = Inr (h', c) \<and> map_of evs' ev = Some h' \<and> set c \<subseteq> set ch"
proof (induction evs arbitrary: evs' ch)
  case Nil
  then show ?case by simp
next
  case (Cons p evs)
  from Cons.prems(1) obtain h1 c ys cs where
    a: "body (fst p) (snd p) = Inr (h1, c)" and b: "for_events body evs = Inr (ys, cs)"
    and c: "evs' = (fst p, h1) # ys" "ch = c @ cs"
    by (auto simp: bind_Inr_iff)
  show ?case
  proof (cases "fst p = ev")
    case True
    with Cons.prems(2) have "snd p = h" by (cases p) simp
    with True a c show ?thesis by auto
  next
    case False
    with Cons.prems(2) have "map_of evs ev = Some h" by (cases p) simp
    from Cons.IH [OF b this] False c show ?thesis by auto
  qed
qed

lemma for_events_total:
  "(\<And>p. p \<in> set evs \<Longrightarrow> \<exists>h' c. body (fst p) (snd p) = Inr (h', c) \<and> Q h') \<Longrightarrow>
   \<exists>evs' ch. for_events body evs = Inr (evs', ch) \<and> list_all (\<lambda>p. Q (snd p)) evs'"
proof (induction evs)
  case Nil
  then show ?case by simp
next
  case (Cons p evs)
  from Cons.prems [of p] obtain h' c where a: "body (fst p) (snd p) = Inr (h', c)" "Q h'" by auto
  from Cons.IH Cons.prems obtain ys cs where
    b: "for_events body evs = Inr (ys, cs)" "list_all (\<lambda>p. Q (snd p)) ys"
    by auto
  from a b show ?case by simp
qed

lemma hooks_config_ok_iff:
  "hooks_config_ok cfg \<longleftrightarrow>
     (\<exists>d evs. cfg = PDict d \<and> map_of d ''hooks'' = Some (PDict evs) \<and>
        list_all (\<lambda>p. groups_ok (snd p)) evs)"
proof (cases cfg)
  case (PDict d)
  show ?thesis
  proof (cases "map_of d ''hooks''")
    case None
    with PDict show ?thesis by (simp add: hooks_config_ok_def)
  next
    case (Some v)
    with PDict show ?thesis by (cases v) (simp_all add: hooks_config_ok_def)
  qed
qed (simp_all add: hooks_config_ok_def)

lemma groups_ok_iff: "groups_ok v \<longleftrightarrow> (\<exists>gs. v = PList gs \<and> list_all group_ok gs)"
  by (cases v) (simp_all add: groups_ok_def)

lemma group_ok_iff:
  "group_ok g \<longleftrightarrow>
     (\<exists>d. g = PDict d \<and> matcher_ok (map_of d ''matcher'') \<and> items_ok (map_of d ''hooks''))"
  by (cases g) (simp_all add: group_ok_def)

lemma guarded_groups_total:
  assumes ok: "hooks_config_ok cfg"
    and body: "\<And>ev i x. group_ok x \<Longrightarrow> \<exists>x' c. B ev i x = Inr (x', c) \<and> group_ok x'"
  shows "\<exists>cfg' ch. with_hooks (\<lambda>ev h. if Pev ev then for_each (B ev) h else Inr (h, [])) cfg
                      = Inr (cfg', ch) \<and> hooks_config_ok cfg'"
proof -
  let ?body = "\<lambda>ev h. if Pev ev then for_each (B ev) h else Inr (h, [])"
  from ok obtain d evs where cfg: "cfg = PDict d" and h: "map_of d ''hooks'' = Some (PDict evs)"
    and evs: "list_all (\<lambda>p. groups_ok (snd p)) evs"
    by (auto simp: hooks_config_ok_iff)
  have "\<exists>h' c. ?body (fst p) (snd p) = Inr (h', c) \<and> groups_ok h'" if "p \<in> set evs" for p
  proof -
    from evs that obtain gs where gs: "snd p = PList gs" "list_all group_ok gs"
      by (auto simp: list_all_iff groups_ok_iff)
    from for_enum_total [of gs "B (fst p)" group_ok 0] body gs(2)
    obtain gs' ch where "for_enum (B (fst p)) 0 gs = Inr (gs', ch)" "list_all group_ok gs'"
      by (auto simp: list_all_iff)
    then show ?thesis
      using gs by (auto simp: for_each_def py_iter_def groups_ok_iff)
  qed
  from for_events_total [of evs ?body groups_ok, OF this]
  obtain evs' ch where "for_events ?body evs = Inr (evs', ch)" "list_all (\<lambda>p. groups_ok (snd p)) evs'"
    by auto
  then show ?thesis
    by (auto simp: cfg with_hooks_Inr h hooks_config_ok_iff map_of_dict_set)
qed

lemma guarded_groups_nth:
  assumes run: "with_hooks (\<lambda>ev h. if Pev ev then for_each (B ev) h else Inr (h, [])) cfg
                  = Inr (cfg', ch)"
    and g: "hook_group cfg ev i = Some g"
  shows "if Pev ev
         then \<exists>g' c. B ev i g = Inr (g', c) \<and> hook_group cfg' ev i = Some g' \<and> set c \<subseteq> set ch
         else hook_group cfg' ev i = Some g"
proof -
  let ?body = "\<lambda>ev h. if Pev ev then for_each (B ev) h else Inr (h, [])"
  from g obtain d evs gs where cfg: "cfg = PDict d" and h: "map_of d ''hooks'' = Some (PDict evs)"
    and ev: "map_of evs ev = Some (PList gs)" and i: "i < length gs" "g = gs ! i"
    by (auto simp: hook_group_def split: pyval.splits option.splits if_splits)
  from run cfg h obtain evs' where evs': "for_events ?body evs = Inr (evs', ch)"
    and cfg': "cfg' = PDict (dict_set ''hooks'' (PDict evs') d)"
    by (auto simp: with_hooks_Inr py_contains_def dict_has_def)
  from for_events_map_of [OF evs' ev] obtain h' c where
    b: "?body ev (PList gs) = Inr (h', c)" and m: "map_of evs' ev = Some h'" and sub: "set c \<subseteq> set ch"
    by auto
  show ?thesis
  proof (cases "Pev ev")
    case False
    with b have "h' = PList gs" by simp
    with False m i show ?thesis
      by (simp add: cfg' hook_group_def map_of_dict_set)
  next
    case True
    with b obtain gs' where gs': "for_enum (B ev) 0 gs = Inr (gs', c)" and h': "h' = PList gs'"
      by (auto simp: for_each_def py_iter_def bind_Inr_iff)
    from for_enum_nth [OF gs'] i obtain c1 where
      "length gs' = length gs" "B ev i g = Inr (gs' ! i, c1)" "set c1 \<subseteq> set c"
      by auto
    with True m i sub h' show ?thesis
      by (auto simp: cfg' hook_group_def map_of_dict_set)
  qed
qed


lemma remove_empty_matcher_ok:
  assumes "group_ok x"
  shows "\<exists>x' c. remove_empty_matcher ev i x = Inr (x', c) \<and> group_ok x'"
proof -
  from assms obtain d where x: "x = PDict d" and m: "matcher_ok (map_of d ''matcher'')"
    and it: "items_ok (map_of d ''hooks'')"
    by (auto simp: group_ok_iff)
  show ?thesis
  proof (cases "map_of d ''matcher''")
    case None
    with assms show ?thesis
      by (simp add: x remove_empty_matcher_def py_contains_def dict_has_def)
  next
    case (Some v)
    have del: "group_ok (PDict (dict_del ''matcher'' d))"
      using it by (simp add: group_ok_def map_of_dict_del matcher_ok_def)
    show ?thesis
    proof (cases "py_truthy v")
      case False
      with Some del show ?thesis
        by (simp add: x remove_empty_matcher_def py_contains_def dict_has_def py_getitem_def
              py_delitem_def)
    next
      case True
      with m Some obtain s where "v = PStr s"
        by (cases v) (auto simp: matcher_ok_def is_str_def)
      with Some True del assms show ?thesis
        by (simp add: x remove_empty_matcher_def py_contains_def dict_has_def py_getitem_def
              py_delitem_def py_strip_def)
    qed
  qed
qed

lemma add_missing_matcher_ok:
  assumes "group_ok x"
  shows "\<exists>x' c. add_missing_matcher ev i x = Inr (x', c) \<and> group_ok x'"
proof -
  from assms obtain d where x: "x = PDict d" and it: "items_ok (map_of d ''hooks'')"
    by (auto simp: group_ok_iff)
  have "group_ok (PDict (dict_set ''matcher'' (PStr ''*'') d))"
    using it by (simp add: group_ok_def map_of_dict_set matcher_ok_def is_str_def)
  with assms show ?thesis
    by (cases "map_of d ''matcher''")
       (simp_all add: x add_missing_matcher_def py_contains_def dict_has_def py_getitem_def
          py_setitem_def)
qed

lemma remove_empty_matcher_blank:
  assumes "map_of g ''matcher'' = Some (PStr s)" "strip s = []"
  shows "remove_empty_matcher ev i (PDict g)
           = Inr (PDict (dict_del ''matcher'' g),
                  [''Removed empty matcher from '' @ ev @ '' hook #'' @ str_nat (i + 1)])"
  using assms
  by (simp add: remove_empty_matcher_def py_contains_def dict_has_def py_getitem_def
        py_delitem_def py_strip_def py_truthy_def)

lemma add_missing_matcher_absent:
  assumes "\<And>m. map_of g ''matcher'' = Some m \<Longrightarrow> \<not> py_truthy m"
  shows "add_missing_matcher ev i (PDict g)
           = Inr (PDict (dict_set ''matcher'' (PStr ''*'') g),
                  [''Added default matcher '' @ sq ''*'' @ '' to '' @ ev @ '' hook #''
                     @ str_nat (i + 1)])"
  using assms
  by (cases "map_of g ''matcher''")
     (simp_all add: add_missing_matcher_def py_contains_def dict_has_def py_getitem_def
        py_setitem_def)

text \<open>
  C6. On a hooks configuration in the hook-set file format, the two matcher migrations, run
  in the order of \<^verbatim>\<open>main\<close>, return; in the result every group of a tool event
  (\<^verbatim>\<open>PreToolUse\<close>, \<^verbatim>\<open>PostToolUse\<close>) that had no \<^verbatim>\<open>matcher\<close> key, or a false one, has the
  matcher \<^verbatim>\<open>*\<close> with the change \<^verbatim>\<open>Added default matcher '*' to ...\<close> recorded, and every
  group of a lifecycle event (\<^verbatim>\<open>Stop\<close> and the five others) whose \<^verbatim>\<open>matcher\<close> was an empty
  or whitespace-only string has no \<^verbatim>\<open>matcher\<close> key, with the removal recorded.
\<close>

theorem migrate_matchers_defaults:
  assumes ok: "hooks_config_ok cfg"
  shows "\<exists>cfg' ch. migrate_matchers cfg = Inr (cfg', ch) \<and>
    (\<forall>ev i g. ev \<in> set TOOL_EVENTS \<and> hook_group cfg ev i = Some (PDict g) \<and>
        (\<forall>m. map_of g ''matcher'' = Some m \<longrightarrow> \<not> py_truthy m) \<longrightarrow>
        (\<exists>g'. hook_group cfg' ev i = Some (PDict g') \<and>
              map_of g' ''matcher'' = Some (PStr ''*'') \<and>
              ''Added default matcher '' @ sq ''*'' @ '' to '' @ ev @ '' hook #''
                 @ str_nat (i + 1) \<in> set ch)) \<and>
    (\<forall>ev i g s. ev \<in> set LIFECYCLE_EVENTS \<and> hook_group cfg ev i = Some (PDict g) \<and>
        map_of g ''matcher'' = Some (PStr s) \<and> strip s = [] \<longrightarrow>
        (\<exists>g'. hook_group cfg' ev i = Some (PDict g') \<and> map_of g' ''matcher'' = None \<and>
              ''Removed empty matcher from '' @ ev @ '' hook #'' @ str_nat (i + 1) \<in> set ch))"
proof -
  from guarded_groups_total [where Pev = "\<lambda>ev. ev \<in> set LIFECYCLE_EVENTS" and B = remove_empty_matcher,
         OF ok remove_empty_matcher_ok]
  obtain cfg1 ch1 where r1: "migrate_remove_empty_matchers cfg = Inr (cfg1, ch1)"
    and ok1: "hooks_config_ok cfg1"
    by (auto simp: migrate_remove_empty_matchers_def)
  from guarded_groups_total [where Pev = "\<lambda>ev. ev \<in> set TOOL_EVENTS" and B = add_missing_matcher,
         OF ok1 add_missing_matcher_ok]
  obtain cfg2 ch2 where r2: "migrate_add_missing_matchers cfg1 = Inr (cfg2, ch2)"
    by (auto simp: migrate_add_missing_matchers_def)
  note n1 = guarded_groups_nth [OF r1 [unfolded migrate_remove_empty_matchers_def]]
  note n2 = guarded_groups_nth [OF r2 [unfolded migrate_add_missing_matchers_def]]
  have run: "migrate_matchers cfg = Inr (cfg2, ch1 @ ch2)"
    by (simp add: migrate_matchers_def r1 r2)
  have tool: "\<exists>g'. hook_group cfg2 ev i = Some (PDict g') \<and>
              map_of g' ''matcher'' = Some (PStr ''*'') \<and>
              ''Added default matcher '' @ sq ''*'' @ '' to '' @ ev @ '' hook #''
                 @ str_nat (i + 1) \<in> set (ch1 @ ch2)"
    if "ev \<in> set TOOL_EVENTS" "hook_group cfg ev i = Some (PDict g)"
       "\<And>m. map_of g ''matcher'' = Some m \<Longrightarrow> \<not> py_truthy m" for ev i g
  proof -
    from that(1) have "ev \<notin> set LIFECYCLE_EVENTS"
      by (auto simp: TOOL_EVENTS_def LIFECYCLE_EVENTS_def)
    with n1 [OF that(2)] have "hook_group cfg1 ev i = Some (PDict g)" by simp
    from n2 [OF this] that(1) add_missing_matcher_absent [of g ev i, OF that(3)]
    show ?thesis by (auto simp: map_of_dict_set)
  qed
  have life: "\<exists>g'. hook_group cfg2 ev i = Some (PDict g') \<and> map_of g' ''matcher'' = None \<and>
              ''Removed empty matcher from '' @ ev @ '' hook #'' @ str_nat (i + 1)
                \<in> set (ch1 @ ch2)"
    if "ev \<in> set LIFECYCLE_EVENTS" "hook_group cfg ev i = Some (PDict g)"
       "map_of g ''matcher'' = Some (PStr s)" "strip s = []" for ev i g s
  proof -
    from that(1) have nt: "ev \<notin> set TOOL_EVENTS"
      by (auto simp: TOOL_EVENTS_def LIFECYCLE_EVENTS_def)
    from n1 [OF that(2)] that(1) remove_empty_matcher_blank [OF that(3,4), of ev i]
    have g1: "hook_group cfg1 ev i = Some (PDict (dict_del ''matcher'' g))"
      and msg: "''Removed empty matcher from '' @ ev @ '' hook #'' @ str_nat (i + 1) \<in> set ch1"
      by auto
    from n2 [OF g1] nt have "hook_group cfg2 ev i = Some (PDict (dict_del ''matcher'' g))"
      by simp
    with msg show ?thesis by (auto simp: map_of_dict_del)
  qed
  from run tool life show ?thesis by blast
qed

theorem migrate_matchers_defaults_witness:
  "hooks_config_ok
     (PDict [(''hooks'', PDict
        [(''PreToolUse'', PList [PDict [(''hooks'', PList [PDict [(''type'', PStr ''command''),
                                                                  (''command'', PStr ''/bin/true'')]])]]),
         (''Stop'', PList [PDict [(''matcher'', PStr [])]])])]) \<and>
   (\<exists>cfg' ch. migrate_matchers
     (PDict [(''hooks'', PDict
        [(''PreToolUse'', PList [PDict [(''hooks'', PList [PDict [(''type'', PStr ''command''),
                                                                  (''command'', PStr ''/bin/true'')]])]]),
         (''Stop'', PList [PDict [(''matcher'', PStr [])]])])]) = Inr (cfg', ch) \<and>
      (\<exists>g'. hook_group cfg' ''PreToolUse'' 0 = Some (PDict g') \<and>
            map_of g' ''matcher'' = Some (PStr ''*'') \<and>
            ''Added default matcher '' @ sq ''*'' @ '' to PreToolUse hook #'' @ str_nat 1 \<in> set ch) \<and>
      (\<exists>g'. hook_group cfg' ''Stop'' 0 = Some (PDict g') \<and> map_of g' ''matcher'' = None \<and>
            ''Removed empty matcher from Stop hook #'' @ str_nat 1 \<in> set ch))"
proof -
  let ?cfg = "PDict [(''hooks'', PDict
        [(''PreToolUse'', PList [PDict [(''hooks'', PList [PDict [(''type'', PStr ''command''),
                                                                  (''command'', PStr ''/bin/true'')]])]]),
         (''Stop'', PList [PDict [(''matcher'', PStr [])]])])]"
  have ok: "hooks_config_ok ?cfg"
    by (simp add: hooks_config_ok_def groups_ok_def group_ok_def matcher_ok_def items_ok_def
          item_ok_def is_str_def)
  from migrate_matchers_defaults [OF ok] obtain cfg' ch where
    run: "migrate_matchers ?cfg = Inr (cfg', ch)"
    and tool: "\<And>ev i g. ev \<in> set TOOL_EVENTS \<Longrightarrow> hook_group ?cfg ev i = Some (PDict g) \<Longrightarrow>
        (\<forall>m. map_of g ''matcher'' = Some m \<longrightarrow> \<not> py_truthy m) \<Longrightarrow>
        (\<exists>g'. hook_group cfg' ev i = Some (PDict g') \<and>
              map_of g' ''matcher'' = Some (PStr ''*'') \<and>
              ''Added default matcher '' @ sq ''*'' @ '' to '' @ ev @ '' hook #''
                 @ str_nat (i + 1) \<in> set ch)"
    and life: "\<And>ev i g s. ev \<in> set LIFECYCLE_EVENTS \<Longrightarrow> hook_group ?cfg ev i = Some (PDict g) \<Longrightarrow>
        map_of g ''matcher'' = Some (PStr s) \<Longrightarrow> strip s = [] \<Longrightarrow>
        (\<exists>g'. hook_group cfg' ev i = Some (PDict g') \<and> map_of g' ''matcher'' = None \<and>
              ''Removed empty matcher from '' @ ev @ '' hook #'' @ str_nat (i + 1) \<in> set ch)"
    by blast
  have a: "\<exists>g'. hook_group cfg' ''PreToolUse'' 0 = Some (PDict g') \<and>
            map_of g' ''matcher'' = Some (PStr ''*'') \<and>
            ''Added default matcher '' @ sq ''*'' @ '' to PreToolUse hook #'' @ str_nat 1 \<in> set ch"
    using tool [of "''PreToolUse''" 0 "[(''hooks'', PList [PDict [(''type'', PStr ''command''),
                                                   (''command'', PStr ''/bin/true'')]])]"]
    by (simp add: TOOL_EVENTS_def hook_group_def)
  have b: "\<exists>g'. hook_group cfg' ''Stop'' 0 = Some (PDict g') \<and> map_of g' ''matcher'' = None \<and>
            ''Removed empty matcher from Stop hook #'' @ str_nat 1 \<in> set ch"
    using life [of "''Stop''" 0 "[(''matcher'', PStr [])]" "[]"]
    by (simp add: LIFECYCLE_EVENTS_def hook_group_def strip_def)
  from ok run a b show ?thesis by blast
qed

subsection \<open>The run of the hook migration\<close>

lemma fold_dict_del_mem:
  "p \<in> set d \<Longrightarrow> fst p \<notin> set ks \<Longrightarrow> p \<in> set (fold dict_del ks d)"
  by (induction ks arbitrary: d) (auto simp: dict_del_def)

lemma fold_dict_del_all: "list_all P d \<Longrightarrow> list_all P (fold dict_del ks d)"
proof (induction ks arbitrary: d)
  case Nil
  then show ?case by simp
next
  case (Cons k ks)
  from Cons.prems have "list_all P (dict_del k d)"
    by (simp add: dict_del_def list_all_iff)
  from Cons.IH [OF this] show ?case by simp
qed

lemma remove_invalid_events_ok:
  assumes "hooks_config_ok cfg"
  shows "\<exists>d evs evs' ch. cfg = PDict d \<and> map_of d ''hooks'' = Some (PDict evs) \<and>
           migrate_remove_invalid_events cfg = Inr (PDict (dict_set ''hooks'' (PDict evs') d), ch) \<and>
           hooks_config_ok (PDict (dict_set ''hooks'' (PDict evs') d)) \<and>
           (\<forall>p \<in> set evs. fst p \<in> set VALID_EVENTS \<longrightarrow> p \<in> set evs')"
proof -
  from assms obtain d evs where cfg: "cfg = PDict d" and h: "map_of d ''hooks'' = Some (PDict evs)"
    and evs: "list_all (\<lambda>p. groups_ok (snd p)) evs"
    by (auto simp: hooks_config_ok_iff)
  let ?inv = "filter (\<lambda>event_name. event_name \<notin> set VALID_EVENTS) (map fst evs)"
  let ?evs' = "fold dict_del ?inv evs"
  have "migrate_remove_invalid_events cfg
          = Inr (PDict (dict_set ''hooks'' (PDict ?evs') d),
                 map (\<lambda>event_name. ''REMOVED: Invalid event '' @ sq event_name) ?inv)"
    by (simp add: cfg h migrate_remove_invalid_events_def py_contains_def dict_has_def
          py_getitem_def py_items_def py_setitem_def Let_def)
  moreover have "hooks_config_ok (PDict (dict_set ''hooks'' (PDict ?evs') d))"
    using fold_dict_del_all [OF evs, of ?inv] by (simp add: hooks_config_ok_iff map_of_dict_set)
  moreover have "p \<in> set ?evs'" if "p \<in> set evs" "fst p \<in> set VALID_EVENTS" for p
    using that by (intro fold_dict_del_mem) auto
  ultimately show ?thesis using cfg h by blast
qed

lemma for_enum_mem:
  "for_enum body i0 xs = Inr (xs', ch) \<Longrightarrow> x \<in> set xs \<Longrightarrow>
   \<exists>k x' c. body k x = Inr (x', c) \<and> x' \<in> set xs'"
proof (induction xs arbitrary: i0 xs' ch)
  case Nil
  then show ?case by simp
next
  case (Cons y ys)
  from Cons.prems(1) obtain y' c zs cs where
    a: "body i0 y = Inr (y', c)" and b: "for_enum body (Suc i0) ys = Inr (zs, cs)"
    and c: "xs' = y' # zs"
    by (auto simp: bind_Inr_iff)
  show ?case
  proof (cases "x = y")
    case True
    with a c show ?thesis by auto
  next
    case False
    with Cons.prems(2) have "x \<in> set ys" by simp
    from Cons.IH [OF b this] c show ?thesis by auto
  qed
qed

lemma for_events_mem:
  "for_events body evs = Inr (evs', ch) \<Longrightarrow> (ev, h) \<in> set evs \<Longrightarrow>
   \<exists>h' c. body ev h = Inr (h', c) \<and> (ev, h') \<in> set evs'"
proof (induction evs arbitrary: evs' ch)
  case Nil
  then show ?case by simp
next
  case (Cons p evs)
  from Cons.prems(1) obtain h1 c ys cs where
    a: "body (fst p) (snd p) = Inr (h1, c)" and b: "for_events body evs = Inr (ys, cs)"
    and c: "evs' = (fst p, h1) # ys"
    by (auto simp: bind_Inr_iff)
  show ?case
  proof (cases "p = (ev, h)")
    case True
    with a c show ?thesis by auto
  next
    case False
    with Cons.prems(2) have "(ev, h) \<in> set evs" by auto
    from Cons.IH [OF b this] c show ?thesis by auto
  qed
qed

lemma guarded_groups_mem:
  assumes run: "with_hooks (\<lambda>ev h. if Pev ev then for_each (B ev) h else Inr (h, [])) (PDict d)
                  = Inr (cfg', ch)"
    and h: "map_of d ''hooks'' = Some (PDict evs)" and ev: "(ev, PList groups) \<in> set evs"
    and x: "x \<in> set groups" "Q x"
    and step: "\<And>i y y' c. Q y \<Longrightarrow> B ev i y = Inr (y', c) \<Longrightarrow> Q y'"
  shows "\<exists>d' evs' groups' x'. cfg' = PDict d' \<and> map_of d' ''hooks'' = Some (PDict evs') \<and>
           (ev, PList groups') \<in> set evs' \<and> x' \<in> set groups' \<and> Q x'"
proof -
  let ?body = "\<lambda>ev h. if Pev ev then for_each (B ev) h else Inr (h, [])"
  from run h obtain evs' where evs': "for_events ?body evs = Inr (evs', ch)"
    and cfg': "cfg' = PDict (dict_set ''hooks'' (PDict evs') d)"
    by (auto simp: with_hooks_Inr py_contains_def dict_has_def)
  from for_events_mem [OF evs' ev] obtain h' c where
    b: "?body ev (PList groups) = Inr (h', c)" and m: "(ev, h') \<in> set evs'"
    by auto
  have "\<exists>groups' x'. h' = PList groups' \<and> x' \<in> set groups' \<and> Q x'"
  proof (cases "Pev ev")
    case False
    with b x show ?thesis by auto
  next
    case True
    with b obtain gs' where gs': "for_enum (B ev) 0 groups = Inr (gs', c)" and h': "h' = PList gs'"
      by (auto simp: for_each_def py_iter_def bind_Inr_iff)
    from for_enum_mem [OF gs' x(1)] obtain k x' c1 where
      "B ev k x = Inr (x', c1)" "x' \<in> set gs'" by auto
    with step [OF x(2)] h' show ?thesis by blast
  qed
  with m show ?thesis
    by (auto simp: cfg' map_of_dict_set)
qed

lemma remove_empty_matcher_holds:
  assumes "holds_item x g" "remove_empty_matcher ev i g = Inr (g', c)"
  shows "holds_item x g'"
proof -
  from assms(1) obtain d where g: "g = PDict d" by (cases g) (auto simp: holds_item_def)
  from assms(2) have "g' = g \<or> g' = PDict (dict_del ''matcher'' d)"
    by (auto simp: g remove_empty_matcher_def bind_Inr_iff py_delitem_Inr split: if_splits)
  with assms(1) show ?thesis
    by (auto simp: g holds_item_def map_of_dict_del)
qed

lemma add_missing_matcher_holds:
  assumes "holds_item x g" "add_missing_matcher ev i g = Inr (g', c)"
  shows "holds_item x g'"
proof -
  from assms(1) obtain d where g: "g = PDict d" by (cases g) (auto simp: holds_item_def)
  from assms(2) have "g' = g \<or> g' = PDict (dict_set ''matcher'' (PStr ''*'') d)"
    by (auto simp: g add_missing_matcher_def bind_Inr_iff py_setitem_Inr split: if_splits)
  with assms(1) show ?thesis
    by (auto simp: g holds_item_def map_of_dict_set)
qed

lemma validate_hook_item_ok:
  assumes "item_ok x"
  shows "\<exists>x' c. validate_hook_item ev i j x = Inr (x', c) \<and> item_ok x'"
proof -
  from assms obtain it where x: "x = PDict it" by (cases x) (auto simp: item_ok_def)
  have ok: "item_ok (PDict (dict_set ''type'' v it))" for v
    using assms by (simp add: x item_ok_def map_of_dict_set)
  let ?t = "case map_of it ''type'' of None \<Rightarrow> PStr [] | Some t \<Rightarrow> t"
  have t: "py_get (PDict it) ''type'' (PStr []) = Inr ?t"
    by (simp add: py_get_def split: option.splits)
  consider "?t = PStr ''command''" | "?t = PStr ''prompt''"
    | "?t \<noteq> PStr ''command''" "?t \<noteq> PStr ''prompt''" by blast
  then show ?thesis
  proof cases
    case 1
    with assms show ?thesis
      by (simp add: x validate_hook_item_def t py_contains_def)
  next
    case 2
    with assms show ?thesis
      by (simp add: x validate_hook_item_def t py_contains_def)
  next
    case 3
    with ok assms show ?thesis
      by (simp add: x validate_hook_item_def t py_contains_def py_setitem_def)
  qed
qed

lemma validate_hook_item_command:
  assumes "map_of it ''type'' = Some (PStr ''command'')"
  shows "\<exists>c. validate_hook_item ev i j (PDict it) = Inr (PDict it, c)"
  using assms by (simp add: validate_hook_item_def py_get_def py_contains_def)

lemma for_items_ok:
  assumes "group_ok x" "\<And>j y. item_ok y \<Longrightarrow> \<exists>y' c. body i j y = Inr (y', c) \<and> item_ok y'"
  shows "\<exists>x' c. for_items body i x = Inr (x', c) \<and> group_ok x'"
proof -
  from assms(1) obtain g where g: "x = PDict g" and m: "matcher_ok (map_of g ''matcher'')"
    and it: "items_ok (map_of g ''hooks'')"
    by (auto simp: group_ok_iff)
  show ?thesis
  proof (cases "map_of g ''hooks''")
    case None
    with assms(1) show ?thesis
      by (simp add: g for_items_def py_contains_def dict_has_def)
  next
    case (Some v)
    with it obtain items where v: "v = PList items" and ok: "list_all item_ok items"
      by (cases v) (auto simp: items_ok_def)
    from for_enum_total [of items "body i" item_ok 0] assms(2) ok
    obtain items' ch where r: "for_enum (body i) 0 items = Inr (items', ch)"
      and ok': "list_all item_ok items'"
      by (auto simp: list_all_iff)
    have "group_ok (PDict (dict_set ''hooks'' (PList items') g))"
      using m ok' by (simp add: group_ok_def map_of_dict_set items_ok_def)
    with r show ?thesis
      by (simp add: g Some v for_items_def py_contains_def dict_has_def py_getitem_def
            for_each_def py_iter_def py_setitem_def)
  qed
qed

lemma for_items_holds:
  assumes "holds_item x g" "for_items body i g = Inr (g', c)"
    and keep: "\<And>j. \<exists>c. body i j x = Inr (x, c)"
  shows "holds_item x g'"
proof -
  from assms(1) obtain d items where g: "g = PDict d" and h: "map_of d ''hooks'' = Some (PList items)"
    and x: "x \<in> set items"
    by (cases g) (auto simp: holds_item_def split: option.splits pyval.splits)
  from assms(2) obtain items' where r: "for_enum (body i) 0 items = Inr (items', c)"
    and g': "g' = PDict (dict_set ''hooks'' (PList items') d)"
    by (auto simp: g h for_items_def py_contains_def dict_has_def py_getitem_def for_each_def
          py_iter_def bind_Inr_iff py_setitem_Inr)
  from for_enum_mem [OF r x] obtain k x' c1 where "body i k x = Inr (x', c1)" "x' \<in> set items'"
    by auto
  with keep [of k] have "x \<in> set items'" by auto
  then show ?thesis
    by (simp add: g' holds_item_def map_of_dict_set)
qed


lemma guarded_groups_step:
  assumes ok: "hooks_config_ok (PDict d)"
    and h: "map_of d ''hooks'' = Some (PDict evs)" and ev: "(ev, PList groups) \<in> set evs"
    and x: "x \<in> set groups" "Q x"
    and total: "\<forall>ev i x. group_ok x \<longrightarrow> (\<exists>x' c. B ev i x = Inr (x', c) \<and> group_ok x')"
    and step: "\<forall>i y y' c. Q y \<and> B ev i y = Inr (y', c) \<longrightarrow> Q y'"
  shows "\<exists>d' evs' groups' x' ch.
           with_hooks (\<lambda>ev h. if Pev ev then for_each (B ev) h else Inr (h, [])) (PDict d)
             = Inr (PDict d', ch) \<and>
           hooks_config_ok (PDict d') \<and> map_of d' ''hooks'' = Some (PDict evs') \<and>
           (ev, PList groups') \<in> set evs' \<and> x' \<in> set groups' \<and> Q x'"
proof -
  have "\<exists>cfg' ch. with_hooks (\<lambda>ev h. if Pev ev then for_each (B ev) h else Inr (h, [])) (PDict d)
                      = Inr (cfg', ch) \<and> hooks_config_ok cfg'"
    by (rule guarded_groups_total [OF ok]) (use total in blast)
  then obtain cfg' ch where
    run: "with_hooks (\<lambda>ev h. if Pev ev then for_each (B ev) h else Inr (h, [])) (PDict d)
            = Inr (cfg', ch)"
    and ok': "hooks_config_ok cfg'"
    by blast
  have "\<exists>d' evs' groups' x'. cfg' = PDict d' \<and> map_of d' ''hooks'' = Some (PDict evs') \<and>
           (ev, PList groups') \<in> set evs' \<and> x' \<in> set groups' \<and> Q x'"
    by (rule guarded_groups_mem [where Q = Q, OF run h ev x]) (use step in blast)
  with run ok' show ?thesis by blast
qed

lemma normalize_script_paths_item:
  assumes "map_of d ''hooks'' = Some (PDict evs)" "(ev, PList groups) \<in> set evs"
    "PDict g \<in> set groups" "map_of g ''hooks'' = Some (PList items)" "PDict it \<in> set items"
    "map_of it ''type'' = Some (PStr ''command'')" "map_of it ''command'' = Some (PStr cmd)"
    "relative_script_command cmd"
  shows "raises (migrate_normalize_script_paths (PDict d)) \<and>
         (hooks_config_ok (PDict d) \<longrightarrow> migrate_normalize_script_paths (PDict d) = Inl NameError)"
proof -
  let ?body = "\<lambda>event_name event_hooks.
        for_each (for_items (normalize_hook_item event_name)) event_hooks"
  have "raises (for_items (normalize_hook_item ev) i (PDict g))" for i
    by (rule for_items_raises [OF assms(4,5)])
       (simp add: normalize_hook_item_raises [OF assms(6-8)])
  then have "raises (?body ev (PList groups))"
    by (rule for_each_raises [OF assms(3)])
  then have "raises (for_events ?body evs)"
    using for_events_raises [OF assms(2), of ?body] by simp
  then have r: "raises (migrate_normalize_script_paths (PDict d))"
    unfolding migrate_normalize_script_paths_def by (rule with_hooks_raises [OF assms(1)])
  have "migrate_normalize_script_paths (PDict d) = Inl NameError" if ok: "hooks_config_ok (PDict d)"
  proof -
    from ok assms(1) have evs: "list_all (\<lambda>p. groups_ok (snd p)) evs"
      by (simp add: hooks_config_ok_def)
    have "only_name_error (?body (fst p) (snd p))" if "p \<in> set evs" for p
    proof -
      from evs that have "groups_ok (snd p)" by (simp add: list_all_iff)
      then obtain gs where gs: "snd p = PList gs" "list_all group_ok gs"
        by (cases "snd p") (auto simp: groups_ok_def)
      show ?thesis
        unfolding gs(1)
        by (rule for_each_only, rule for_items_only)
           (use gs(2) in \<open>auto simp: list_all_iff intro: normalize_hook_item_only\<close>)
    qed
    then have "only_name_error (for_events ?body evs)"
      by (rule for_events_only)
    then have "only_name_error (migrate_normalize_script_paths (PDict d))"
      unfolding migrate_normalize_script_paths_def by (rule with_hooks_only [OF assms(1)])
    with r show ?thesis by (rule raises_only)
  qed
  with r show ?thesis by simp
qed

lemma run_migrations_item:
  assumes ok: "hooks_config_ok (PDict d)" and valid: "ev \<in> set VALID_EVENTS"
    and h: "map_of d ''hooks'' = Some (PDict evs)" and ev: "(ev, PList groups) \<in> set evs"
    and g: "PDict g \<in> set groups" "map_of g ''hooks'' = Some (PList items)"
    and it: "PDict it \<in> set items"
      "map_of it ''type'' = Some (PStr ''command'')" "map_of it ''command'' = Some (PStr cmd)"
      "relative_script_command cmd"
  shows "run_migrations (PDict d) = Inl NameError"
proof -
  let ?Q = "holds_item (PDict it)"
  have q0: "?Q (PDict g)"
    using g(2) it(1) by (simp add: holds_item_def)
  from remove_invalid_events_ok [OF ok] h obtain evs1 ch1 where
    r1: "migrate_remove_invalid_events (PDict d)
           = Inr (PDict (dict_set ''hooks'' (PDict evs1) d), ch1)"
    and ok1: "hooks_config_ok (PDict (dict_set ''hooks'' (PDict evs1) d))"
    and m1: "\<And>p. p \<in> set evs \<Longrightarrow> fst p \<in> set VALID_EVENTS \<Longrightarrow> p \<in> set evs1"
    by auto
  let ?d1 = "dict_set ''hooks'' (PDict evs1) d"
  have h1: "map_of ?d1 ''hooks'' = Some (PDict evs1)" by (simp add: map_of_dict_set)
  from m1 [OF ev] valid have ev1: "(ev, PList groups) \<in> set evs1" by simp
  have total2: "\<forall>ev i x. group_ok x \<longrightarrow>
                  (\<exists>x' c. remove_empty_matcher ev i x = Inr (x', c) \<and> group_ok x')"
    using remove_empty_matcher_ok by blast
  have step2: "\<forall>i y y' c. ?Q y \<and> remove_empty_matcher ev i y = Inr (y', c) \<longrightarrow> ?Q y'"
    using remove_empty_matcher_holds by blast
  from guarded_groups_step [where Pev = "\<lambda>ev. ev \<in> set LIFECYCLE_EVENTS"
         and B = remove_empty_matcher and Q = ?Q, OF ok1 h1 ev1 g(1) q0 total2 step2]
  obtain d2 evs2 groups2 x2 ch2 where
    r2: "migrate_remove_empty_matchers (PDict ?d1) = Inr (PDict d2, ch2)"
    and ok2: "hooks_config_ok (PDict d2)" and h2: "map_of d2 ''hooks'' = Some (PDict evs2)"
    and ev2: "(ev, PList groups2) \<in> set evs2" and x2: "x2 \<in> set groups2" "?Q x2"
    unfolding migrate_remove_empty_matchers_def by blast
  have total3: "\<forall>ev i x. group_ok x \<longrightarrow>
                  (\<exists>x' c. add_missing_matcher ev i x = Inr (x', c) \<and> group_ok x')"
    using add_missing_matcher_ok by blast
  have step3: "\<forall>i y y' c. ?Q y \<and> add_missing_matcher ev i y = Inr (y', c) \<longrightarrow> ?Q y'"
    using add_missing_matcher_holds by blast
  from guarded_groups_step [where Pev = "\<lambda>ev. ev \<in> set TOOL_EVENTS"
         and B = add_missing_matcher and Q = ?Q, OF ok2 h2 ev2 x2 total3 step3]
  obtain d3 evs3 groups3 x3 ch3 where
    r3: "migrate_add_missing_matchers (PDict d2) = Inr (PDict d3, ch3)"
    and ok3: "hooks_config_ok (PDict d3)" and h3: "map_of d3 ''hooks'' = Some (PDict evs3)"
    and ev3: "(ev, PList groups3) \<in> set evs3" and x3: "x3 \<in> set groups3" "?Q x3"
    unfolding migrate_add_missing_matchers_def by blast
  have "\<exists>x' c. for_items (validate_hook_item ev) i x = Inr (x', c) \<and> group_ok x'"
    if "group_ok x" for ev i x
    using that by (rule for_items_ok) (rule validate_hook_item_ok)
  then have total4: "\<forall>ev i x. group_ok x \<longrightarrow>
                  (\<exists>x' c. for_items (validate_hook_item ev) i x = Inr (x', c) \<and> group_ok x')"
    by blast
  have "?Q y'" if "?Q y" "for_items (validate_hook_item ev) i y = Inr (y', c)" for i y y' c
    using that by (rule for_items_holds) (rule validate_hook_item_command [OF it(2)])
  then have step4: "\<forall>i y y' c. ?Q y \<and> for_items (validate_hook_item ev) i y = Inr (y', c)
                      \<longrightarrow> ?Q y'"
    by blast
  from guarded_groups_step [where Pev = "\<lambda>ev. True"
         and B = "\<lambda>ev. for_items (validate_hook_item ev)" and Q = ?Q,
         OF ok3 h3 ev3 x3 total4 step4]
  obtain d4 evs4 groups4 x4 ch4 where
    r4: "migrate_validate_hook_types (PDict d3) = Inr (PDict d4, ch4)"
    and ok4: "hooks_config_ok (PDict d4)" and h4: "map_of d4 ''hooks'' = Some (PDict evs4)"
    and ev4: "(ev, PList groups4) \<in> set evs4" and x4: "x4 \<in> set groups4" "?Q x4"
    unfolding migrate_validate_hook_types_def by auto
  from x4(2) obtain g4 items4 where g4: "x4 = PDict g4" "map_of g4 ''hooks'' = Some (PList items4)"
    "PDict it \<in> set items4"
    by (cases x4) (auto simp: holds_item_def split: option.splits pyval.splits)
  from normalize_script_paths_item [OF h4 ev4 x4(1) [unfolded g4(1)] g4(2,3) it(2-4)] ok4
  have r5: "migrate_normalize_script_paths (PDict d4) = Inl NameError" by simp
  show ?thesis
    by (simp add: run_migrations_def r1 r2 r3 r4 r5)
qed

text \<open>
  C10, as the code has it. When a hooks configuration holds a hook item of type \<^verbatim>\<open>command\<close>
  whose command starts with \<^verbatim>\<open>bash \<close> or \<^verbatim>\<open>sh \<close> and whose second word starts with neither
  \<^verbatim>\<open>/\<close> nor \<^verbatim>\<open>${\<close>, \<^verbatim>\<open>migrate_normalize_script_paths\<close> never returns: it raises, and no
  recommendation is produced. On a configuration in the hook-set file format the exception
  is the \<^verbatim>\<open>NameError\<close> of the undefined name \<^verbatim>\<open>CLAUDE_PLUGIN_ROOT\<close>, and when the item sits
  under one of the eight valid event names the five migrations of \<^verbatim>\<open>main\<close> end with that
  \<^verbatim>\<open>NameError\<close>. An item under any other event name is removed with its event by the first
  migration, before the script paths are looked at.
\<close>

theorem normalize_script_paths_raises:
  assumes "map_of d ''hooks'' = Some (PDict evs)" "(ev, PList groups) \<in> set evs"
    "PDict g \<in> set groups" "map_of g ''hooks'' = Some (PList items)" "PDict it \<in> set items"
    "map_of it ''type'' = Some (PStr ''command'')" "map_of it ''command'' = Some (PStr cmd)"
    "relative_script_command cmd"
  shows "(\<exists>e. migrate_normalize_script_paths (PDict d) = Inl e) \<and>
         (hooks_config_ok (PDict d) \<longrightarrow>
            migrate_normalize_script_paths (PDict d) = Inl NameError) \<and>
         (hooks_config_ok (PDict d) \<and> ev \<in> set VALID_EVENTS \<longrightarrow>
            run_migrations (PDict d) = Inl NameError)"
proof (intro conjI impI)
  from normalize_script_paths_item [OF assms]
  show "\<exists>e. migrate_normalize_script_paths (PDict d) = Inl e"
    by (cases "migrate_normalize_script_paths (PDict d)") auto
  show "migrate_normalize_script_paths (PDict d) = Inl NameError" if "hooks_config_ok (PDict d)"
    using normalize_script_paths_item [OF assms] that by simp
  show "run_migrations (PDict d) = Inl NameError"
    if "hooks_config_ok (PDict d) \<and> ev \<in> set VALID_EVENTS"
    using that run_migrations_item [OF _ _ assms] by simp
qed

theorem normalize_script_paths_raises_witness:
  "migrate_normalize_script_paths
     (PDict [(''hooks'', PDict [(''PreToolUse'',
        PList [PDict [(''matcher'', PStr ''Bash''),
                      (''hooks'', PList [PDict [(''type'', PStr ''command''),
                                                (''command'', PStr ''bash scripts/check.sh'')]])]])])])
   = Inl NameError \<and>
   run_migrations
     (PDict [(''hooks'', PDict [(''PreToolUse'',
        PList [PDict [(''matcher'', PStr ''Bash''),
                      (''hooks'', PList [PDict [(''type'', PStr ''command''),
                                                (''command'', PStr ''bash scripts/check.sh'')]])]])])])
   = Inl NameError"
proof -
  have "relative_script_command ''bash scripts/check.sh''"
    by (simp add: relative_script_command_def startswith_def split_ws_def is_space_def)
  from normalize_script_paths_raises
         [where d = "[(''hooks'', PDict [(''PreToolUse'',
                        PList [PDict [(''matcher'', PStr ''Bash''),
                          (''hooks'', PList [PDict [(''type'', PStr ''command''),
                             (''command'', PStr ''bash scripts/check.sh'')]])]])])]"
            and ev = "''PreToolUse''"
            and g = "[(''matcher'', PStr ''Bash''),
                      (''hooks'', PList [PDict [(''type'', PStr ''command''),
                             (''command'', PStr ''bash scripts/check.sh'')]])]"
            and it = "[(''type'', PStr ''command''), (''command'', PStr ''bash scripts/check.sh'')]"
            and cmd = "''bash scripts/check.sh''", OF _ _ _ _ _ _ _ this]
  show ?thesis
    by (simp add: hooks_config_ok_def groups_ok_def group_ok_def matcher_ok_def items_ok_def
          item_ok_def is_str_def VALID_EVENTS_def)
qed

text \<open>
  The function raises \<^verbatim>\<open>NameError\<close> on an item under the event name \<^verbatim>\<open>OnSave\<close>, but the
  run removes that event first and returns; and an earlier item whose \<^verbatim>\<open>command\<close> is a list
  makes the function raise \<^verbatim>\<open>AttributeError\<close> before it reaches the script path.
\<close>

theorem run_migrations_invalid_event_counterexample:
  "migrate_normalize_script_paths
     (PDict [(''hooks'', PDict [(''OnSave'',
        PList [PDict [(''hooks'', PList [PDict [(''type'', PStr ''command''),
                                                (''command'', PStr ''bash scripts/check.sh'')]])]])])])
     = Inl NameError \<and>
   run_migrations
     (PDict [(''hooks'', PDict [(''OnSave'',
        PList [PDict [(''hooks'', PList [PDict [(''type'', PStr ''command''),
                                                (''command'', PStr ''bash scripts/check.sh'')]])]])])])
     = Inr (PDict [(''hooks'', PDict [])], [''REMOVED: Invalid event '' @ sq ''OnSave'']) \<and>
   migrate_normalize_script_paths
     (PDict [(''hooks'', PDict [(''PreToolUse'',
        PList [PDict [(''hooks'', PList [PDict [(''type'', PStr ''command''),
                                                (''command'', PList [PStr ''npm'', PStr ''test''])],
                                         PDict [(''type'', PStr ''command''),
                                                (''command'', PStr ''bash scripts/check.sh'')]])]])])])
     = Inl AttributeError"
  by (simp add: run_migrations_def migrate_remove_invalid_events_def
        migrate_remove_empty_matchers_def migrate_add_missing_matchers_def
        migrate_validate_hook_types_def migrate_normalize_script_paths_def with_hooks_def
        py_contains_def dict_has_def py_getitem_def py_items_def py_setitem_def dict_del_def
        VALID_EVENTS_def for_each_def py_iter_def for_items_def normalize_hook_item_def
        py_get_def py_startswith_def startswith_def split_ws_def is_space_def py_str_def
        Let_def)

subsection \<open>Findings of the validators\<close>

lemma run_checks_mem:
  "run_checks cs = Inr (c, w, r) \<Longrightarrow> ck \<in> set cs \<Longrightarrow>
   \<exists>c1 w1 r1. ck = Inr (c1, w1, r1) \<and> set c1 \<subseteq> set c \<and> set w1 \<subseteq> set w \<and> set r1 \<subseteq> set r"
proof (induction cs arbitrary: c w r)
  case Nil
  then show ?case by simp
next
  case (Cons x xs)
  from Cons.prems(1) obtain c1 w1 r1 c2 w2 r2 where
    x: "x = Inr (c1, w1, r1)" and xs: "run_checks xs = Inr (c2, w2, r2)"
    and eq: "c = c1 @ c2" "w = w1 @ w2" "r = r1 @ r2"
    by (auto simp: bind_Inr_iff)
  show ?case
  proof (cases "ck = x")
    case True
    with x eq show ?thesis by auto
  next
    case False
    with Cons.prems(2) have "ck \<in> set xs" by simp
    from Cons.IH [OF xs this] eq show ?thesis by auto
  qed
qed

lemma run_checks_total:
  "(\<And>ck. ck \<in> set cs \<Longrightarrow> \<exists>x. ck = Inr x) \<Longrightarrow> \<exists>x. run_checks cs = Inr x"
proof (induction cs)
  case Nil
  then show ?case by (simp add: no_findings_def)
next
  case (Cons x xs)
  from Cons.prems [of x] obtain c1 w1 r1 where "x = Inr (c1, w1, r1)" by auto
  moreover from Cons.IH Cons.prems obtain c2 w2 r2 where "run_checks xs = Inr (c2, w2, r2)"
    by auto
  ultimately show ?case by simp
qed

lemma audit_check_model_alias:
  assumes "map_of d ''model'' = Some model" "model \<in> set short_aliases"
  shows "audit_check_model (PDict d)
           = Inr ([''CRITICAL: Commands cannot use short alias '' @ sq (py_str model)
                     @ ''. Use version alias like '' @ sq ''claude-haiku-4-5''
                     @ '' or full ID''], [], [])"
  using assms by (simp add: audit_check_model_def py_contains_def dict_has_def py_getitem_def)

lemma audit_validate_command_Inr:
  assumes "content f = Frontmatter fm body" "audit_validate_command f = Inr (status, c, w, r)"
  shows "run_checks [Inr (audit_check_filename (stem f)), audit_check_description fm,
                     audit_check_model fm, audit_check_tools fm body,
                     audit_check_arguments fm body, audit_check_security fm body] = Inr (c, w, r)
         \<and> status = (if c \<noteq> [] then ''errors'' else if w \<noteq> [] then ''warnings'' else ''valid'')"
  using assms
  by (auto simp: audit_validate_command_def audit_parse_command_def bind_Inr_iff)

lemma audit_validate_command_critical:
  assumes f: "content f = Frontmatter fm body"
    and run: "audit_validate_command f = Inr (status, c, w, r)"
    and ck: "ck \<in> set [Inr (audit_check_filename (stem f)), audit_check_description fm,
                     audit_check_model fm, audit_check_tools fm body,
                     audit_check_arguments fm body, audit_check_security fm body]"
    and res: "ck = Inr (c1, w1, r1)" and m: "m \<in> set c1"
  shows "m \<in> set c \<and> status = ''errors''"
proof -
  note a = audit_validate_command_Inr [OF f run]
  from run_checks_mem [OF a [THEN conjunct1] ck] res m have "m \<in> set c" by auto
  moreover then have "c \<noteq> []" by auto
  ultimately show ?thesis using a by simp
qed


lemma startswith_iff: "startswith s p \<longleftrightarrow> (\<exists>t. s = p @ t)"
proof
  assume "startswith s p"
  then have "s = p @ drop (length p) s"
    by (metis append_take_drop_id startswith_def)
  then show "\<exists>t. s = p @ t" ..
next
  assume "\<exists>t. s = p @ t"
  then show "startswith s p" by (auto simp: startswith_def)
qed

lemma str_in_iff: "str_in n s \<longleftrightarrow> (\<exists>a b. s = a @ n @ b)"
proof (induction s)
  case Nil
  then show ?case by auto
next
  case (Cons c cs)
  show ?case
  proof
    assume "str_in n (c # cs)"
    then consider "startswith (c # cs) n" | "str_in n cs" by auto
    then show "\<exists>a b. c # cs = a @ n @ b"
    proof cases
      case 1
      then obtain t where "c # cs = n @ t" by (auto simp: startswith_iff)
      then have "c # cs = [] @ n @ t" by simp
      then show ?thesis by blast
    next
      case 2
      with Cons.IH obtain a b where "cs = a @ n @ b" by auto
      then have "c # cs = (c # a) @ n @ b" by simp
      then show ?thesis by blast
    qed
  next
    assume "\<exists>a b. c # cs = a @ n @ b"
    then obtain a b where ab: "c # cs = a @ n @ b" by auto
    show "str_in n (c # cs)"
    proof (cases a)
      case Nil
      with ab have "startswith (c # cs) n" by (simp add: startswith_iff)
      then show ?thesis by simp
    next
      case (Cons x xs)
      with ab have "cs = xs @ n @ b" by simp
      with Cons.IH show ?thesis by auto
    qed
  qed
qed

lemma re_search_here: "match_here ps s \<Longrightarrow> re_search ps s"
  by (cases s) simp_all

lemma re_search_append: "match_here ps s \<Longrightarrow> re_search ps (a @ s)"
  by (induction a) (simp_all add: re_search_here)

lemma eval_pattern_found:
  assumes "str_in ''eval $ARGUMENTS'' body"
  shows "re_search [Lit ''eval'', Plus is_space, Lit ''$''] body"
proof -
  from assms obtain a b where "body = a @ ''eval $ARGUMENTS'' @ b"
    by (auto simp: str_in_iff)
  moreover have "match_here [Lit ''eval'', Plus is_space, Lit ''$''] (''eval $ARGUMENTS'' @ b)"
    by (simp add: startswith_def is_space_def)
  ultimately show ?thesis by (simp add: re_search_append)
qed

lemma audit_check_security_eval:
  assumes "py_get fm ''allowed-tools'' (PStr []) = Inr tools" "py_contains ''Bash'' tools = Inr True"
    "str_in ''eval $ARGUMENTS'' body"
  shows "\<exists>c. audit_check_security fm body = Inr (c, [], []) \<and>
             ''SECURITY: Using eval with arguments is dangerous'' \<in> set c"
proof -
  from assms(3) have "body \<noteq> []" by (auto simp: str_in_iff)
  with assms(1,2) eval_pattern_found [OF assms(3)] show ?thesis
    by (simp add: audit_check_security_def audit_dangerous_patterns_def)
qed

lemma audit_check_security_gate:
  assumes "py_get fm ''allowed-tools'' (PStr []) = Inr tools" "py_contains ''Bash'' tools = Inr False"
  shows "audit_check_security fm body = Inr no_findings"
  using assms by (simp add: audit_check_security_def)

lemma star_rests_split:
  "r \<in> set (star_rests p s) \<Longrightarrow> \<exists>pre. s = pre @ r \<and> list_all p pre"
proof (induction s)
  case Nil
  then show ?case by simp
next
  case (Cons c cs)
  from Cons.prems consider "r = c # cs" | "p c" "r \<in> set (star_rests p cs)"
    by (auto split: if_splits)
  then show ?case
  proof cases
    case 1
    then show ?thesis by simp
  next
    case 2
    with Cons.IH obtain pre where "cs = pre @ r" "list_all p pre" by auto
    with 2 have "c # cs = (c # pre) @ r \<and> list_all p (c # pre)" by simp
    then show ?thesis by blast
  qed
qed

lemma name_pattern_chars:
  assumes "match_here name_pattern s" "c \<in> set s"
  shows "is_name_char c \<or> c = CHR 0x0A"
proof -
  from assms(1) obtain x xs where s: "s = x # xs" and x: "is_name_char x"
    and r: "list_ex (match_here [End]) (star_rests is_name_char xs)"
    by (cases s) (auto simp: name_pattern_def split: if_splits)
  from r obtain rest where rest: "rest \<in> set (star_rests is_name_char xs)"
    and e: "rest = [] \<or> rest = [CHR 0x0A]"
    by (auto simp: list_ex_iff split: if_splits)
  from star_rests_split [OF rest] obtain pre where "xs = pre @ rest" "list_all is_name_char pre"
    by auto
  with s x e assms(2) show ?thesis
    by (auto simp: list_all_iff)
qed

lemma bad_name_char_not_name: "bad_name_char c \<Longrightarrow> \<not> is_name_char c \<and> c \<noteq> CHR 0x0A"
  by (auto simp: bad_name_char_def is_name_char_def upper_chars_def)

lemma audit_check_filename_critical:
  assumes "c \<in> set name" "bad_name_char c"
  shows "''Invalid filename: must be lowercase-hyphens only'' \<in> set (fst (audit_check_filename name))"
  using name_pattern_chars [of name c] assms bad_name_char_not_name [of c]
  by (auto simp: audit_check_filename_def)

lemma run_errors_mem:
  "run_errors cs = Inr es \<Longrightarrow> ck \<in> set cs \<Longrightarrow> \<exists>e1. ck = Inr e1 \<and> set e1 \<subseteq> set es"
proof (induction cs arbitrary: es)
  case Nil
  then show ?case by simp
next
  case (Cons x xs)
  from Cons.prems(1) obtain e1 e2 where
    x: "x = Inr e1" and xs: "run_errors xs = Inr e2" and eq: "es = e1 @ e2"
    by (auto simp: bind_Inr_iff)
  show ?case
  proof (cases "ck = x")
    case True
    with x eq show ?thesis by auto
  next
    case False
    with Cons.prems(2) have "ck \<in> set xs" by simp
    from Cons.IH [OF xs this] eq show ?thesis by auto
  qed
qed

lemma run_errors_total:
  "(\<And>ck. ck \<in> set cs \<Longrightarrow> \<exists>x. ck = Inr x) \<Longrightarrow> \<exists>x. run_errors cs = Inr x"
proof (induction cs)
  case Nil
  then show ?case by simp
next
  case (Cons x xs)
  from Cons.prems [of x] obtain e1 where "x = Inr e1" by auto
  moreover from Cons.IH Cons.prems obtain e2 where "run_errors xs = Inr e2"
    by auto
  ultimately show ?case by simp
qed

lemma validate_command_Inr:
  assumes "on_disk f" "content f = Frontmatter fm body" "validate_command f = Inr (ok, errs)"
  shows "run_errors [Inr (check_filename (stem f)), check_description fm, check_tools fm,
                     check_model (path f) fm, check_argument_hint fm, check_body fm body,
                     check_security fm body] = Inr errs
         \<and> ok = (filter is_critical errs = [])"
  using assms by (auto simp: validate_command_def bind_Inr_iff)

lemma validate_command_critical:
  assumes f: "on_disk f" "content f = Frontmatter fm body"
    and run: "validate_command f = Inr (ok, errs)"
    and ck: "ck \<in> set [Inr (check_filename (stem f)), check_description fm, check_tools fm,
                     check_model (path f) fm, check_argument_hint fm, check_body fm body,
                     check_security fm body]"
    and res: "ck = Inr e1" and m: "m \<in> set e1" "is_critical m"
  shows "m \<in> set errs \<and> \<not> ok"
proof -
  note a = validate_command_Inr [OF f run]
  from run_errors_mem [OF a [THEN conjunct1] ck] res m have "m \<in> set errs" by auto
  moreover with m(2) have "filter is_critical errs \<noteq> []"
    by (auto simp: filter_empty_conv)
  ultimately show ?thesis using a by simp
qed

lemma check_model_alias:
  assumes "map_of d ''model'' = Some model" "model \<in> set short_aliases"
  shows "check_model p (PDict d)
           = Inr [short_alias_message p (py_str model)
                    (case map_of version_alias_map (py_str model) of
                       None \<Rightarrow> ''claude-sonnet-4-5'' | Some v \<Rightarrow> v)]"
  using assms by (simp add: check_model_def py_contains_def dict_has_def py_getitem_def)

lemma short_alias_message_critical: "is_critical (short_alias_message p m v)"
  by (simp add: is_critical_def short_alias_message_def startswith_def)

lemma check_filename_critical:
  assumes "c \<in> set name" "bad_name_char c"
  shows "\<exists>e \<in> set (check_filename name). is_critical e"
proof -
  from name_pattern_chars [of name c] assms bad_name_char_not_name [of c]
  have "\<not> match_here name_pattern name" by auto
  moreover have "is_critical (''Invalid filename '' @ sq (name @ ''.md'')
              @ '': must be lowercase letters, numbers, and hyphens only'')"
    by (simp add: is_critical_def startswith_def)
  ultimately show ?thesis by (auto simp: check_filename_def)
qed

lemma skill_check_name_critical:
  assumes "c \<in> set name" "bad_name_char c"
  shows "''Invalid directory name: must be lowercase-hyphens only'' \<in> set (fst (skill_check_name name))"
  using name_pattern_chars [of name c] assms bad_name_char_not_name [of c]
  by (auto simp: skill_check_name_def)

lemma audit_validate_command_named:
  assumes "c \<in> set (stem f)" "bad_name_char c"
    and run: "audit_validate_command f = Inr (status, crit, w, r)"
  shows "crit \<noteq> [] \<and> (status = ''errors'' \<or> status = ''parse_error'')"
proof (cases "content f")
  case c: (Frontmatter fm body)
  obtain c1 w1 r1 where n: "audit_check_filename (stem f) = (c1, w1, r1)"
    by (cases "audit_check_filename (stem f)") auto
  with audit_check_filename_critical [OF assms(1,2)]
  have "''Invalid filename: must be lowercase-hyphens only'' \<in> set c1" by simp
  with audit_validate_command_critical [OF c run _ _ this, of "Inr (audit_check_filename (stem f))" w1 r1] n
  show ?thesis by auto
qed (use run in \<open>auto simp: audit_validate_command_def audit_parse_command_def\<close>)

lemma validate_command_named:
  assumes "c \<in> set (stem f)" "bad_name_char c"
    and run: "validate_command f = Inr (ok, errs)"
  shows "\<not> ok \<and> (\<exists>e \<in> set errs. is_critical e)"
proof (cases "on_disk f")
  case False
  with run show ?thesis
    by (auto simp: validate_command_def is_critical_def startswith_def)
next
  case True
  from check_filename_critical [OF assms(1,2)] obtain e where
    e: "e \<in> set (check_filename (stem f))" "is_critical e" by auto
  show ?thesis
  proof (cases "content f")
    case (Unreadable x)
    with True run show ?thesis
      by (auto simp: validate_command_def is_critical_def startswith_def)
  next
    case No_frontmatter
    with True run e show ?thesis
      by (auto simp: validate_command_def)
  next
    case (Bad_yaml x)
    with True run e show ?thesis
      by (auto simp: validate_command_def)
  next
    case (Load_raises x)
    with True run show ?thesis
      by (simp add: validate_command_def)
  next
    case (Frontmatter fm body)
    from validate_command_critical [OF True Frontmatter run _ _ e, of "Inr (check_filename (stem f))"]
    have "e \<in> set errs \<and> \<not> ok" by simp
    with e(2) show ?thesis by auto
  qed
qed

lemma validate_skill_Inr:
  assumes "parse_skill sd = Inr (Inr (fm, body))" "validate_skill sd = Inr (status, c, w, r)"
  shows "run_checks [Inr (skill_check_name (dir_name sd)),
                     skill_check_name_field (dir_name sd) fm,
                     skill_check_description fm,
                     skill_check_model (dir_name sd) fm,
                     skill_check_version fm,
                     skill_check_tools fm body,
                     Inr (skill_check_structure sd body)] = Inr (c, w, r)
         \<and> status = (if c \<noteq> [] then ''errors'' else if w \<noteq> [] then ''warnings'' else ''valid'')"
  using assms
  by (auto simp: validate_skill_def bind_Inr_iff)

lemma validate_skill_critical:
  assumes p: "parse_skill sd = Inr (Inr (fm, body))"
    and run: "validate_skill sd = Inr (status, c, w, r)"
    and ck: "ck \<in> set [Inr (skill_check_name (dir_name sd)),
                     skill_check_name_field (dir_name sd) fm,
                     skill_check_description fm,
                     skill_check_model (dir_name sd) fm,
                     skill_check_version fm,
                     skill_check_tools fm body,
                     Inr (skill_check_structure sd body)]"
    and res: "ck = Inr (c1, w1, r1)" and m: "m \<in> set c1"
  shows "m \<in> set c \<and> status = ''errors''"
proof -
  note a = validate_skill_Inr [OF p run]
  from run_checks_mem [OF a [THEN conjunct1] ck] res m have "m \<in> set c" by auto
  moreover then have "c \<noteq> []" by auto
  ultimately show ?thesis using a by simp
qed

lemma validate_skill_named:
  assumes "c \<in> set (dir_name sd)" "bad_name_char c"
    and run: "validate_skill sd = Inr (status, crit, w, r)"
  shows "crit \<noteq> [] \<and> (status = ''errors'' \<or> status = ''parse_error'')"
proof (cases "parse_skill sd")
  case (Inl e)
  with run show ?thesis by (auto simp: validate_skill_def)
next
  case (Inr parsed)
  show ?thesis
  proof (cases parsed)
    case (Inl msg)
    with Inr run show ?thesis by (auto simp: validate_skill_def)
  next
    case (Inr pr)
    with \<open>parse_skill sd = Inr parsed\<close> obtain fm body where
      p: "parse_skill sd = Inr (Inr (fm, body))" by (cases pr) auto
    obtain c1 w1 r1 where n: "skill_check_name (dir_name sd) = (c1, w1, r1)"
      by (cases "skill_check_name (dir_name sd)") auto
    with skill_check_name_critical [OF assms(1,2)]
    have "''Invalid directory name: must be lowercase-hyphens only'' \<in> set c1" by simp
    with validate_skill_critical [OF p run _ _ this, of "Inr (skill_check_name (dir_name sd))" w1 r1] n
    show ?thesis by auto
  qed
qed

lemma migrate_command_artifact_identity:
  "migrate_command_artifact a = Inr (a', ch) \<Longrightarrow> identity a' = identity a"
  by (auto simp: migrate_command_artifact_def bind_Inr_iff)

lemma migrate_skill_artifact_identity:
  "migrate_skill_artifact a = Inr (a', ch) \<Longrightarrow> identity a' = identity a"
  by (auto simp: migrate_skill_artifact_def bind_Inr_iff)

text \<open>
  C8. For an identity (the stem of a command file, the name of a skill directory) that
  holds an uppercase character, a space or an underscore, the naming check of each
  validator emits a critical finding; whenever a validator returns for an artifact of
  that name its critical findings are not empty and the artifact is not valid; and the
  migration of an artifact returns it under the identity it had.
\<close>

theorem naming_violation_flagged:
  assumes "c \<in> set name" "bad_name_char c"
  shows "fst (audit_check_filename name) \<noteq> [] \<and>
         (\<exists>e \<in> set (check_filename name). is_critical e) \<and>
         fst (skill_check_name name) \<noteq> [] \<and>
         (\<forall>f status crit w r.
            stem f = name \<and> audit_validate_command f = Inr (status, crit, w, r) \<longrightarrow>
            crit \<noteq> [] \<and> (status = ''errors'' \<or> status = ''parse_error'')) \<and>
         (\<forall>f ok errs.
            stem f = name \<and> validate_command f = Inr (ok, errs) \<longrightarrow>
            \<not> ok \<and> (\<exists>e \<in> set errs. is_critical e)) \<and>
         (\<forall>sd status crit w r.
            dir_name sd = name \<and> validate_skill sd = Inr (status, crit, w, r) \<longrightarrow>
            crit \<noteq> [] \<and> (status = ''errors'' \<or> status = ''parse_error'')) \<and>
         (\<forall>a a' ch. identity a = name \<and> migrate_command_artifact a = Inr (a', ch) \<longrightarrow>
            identity a' = name) \<and>
         (\<forall>a a' ch. identity a = name \<and> migrate_skill_artifact a = Inr (a', ch) \<longrightarrow>
            identity a' = name)"
proof (intro conjI allI impI)
  show "fst (audit_check_filename name) \<noteq> []"
    using audit_check_filename_critical [OF assms] by auto
  show "\<exists>e \<in> set (check_filename name). is_critical e"
    by (rule check_filename_critical [OF assms])
  show "fst (skill_check_name name) \<noteq> []"
    using skill_check_name_critical [OF assms] by auto
qed (use assms in \<open>auto dest: audit_validate_command_named validate_command_named
       validate_skill_named migrate_command_artifact_identity migrate_skill_artifact_identity\<close>)

theorem naming_violation_flagged_witness:
  "CHR ''_'' \<in> set ''Run_Tests'' \<and> bad_name_char CHR ''_'' \<and>
   fst (audit_check_filename ''Run_Tests'') \<noteq> [] \<and>
   (\<exists>e \<in> set (check_filename ''Run_Tests''). is_critical e) \<and>
   fst (skill_check_name ''Run_Tests'') \<noteq> [] \<and>
   (\<exists>crit w r. audit_validate_command
        \<lparr>path = ''commands/Run_Tests.md'', stem = ''Run_Tests'', on_disk = True,
         content = Frontmatter (PDict [(''description'', PStr ''Run the test suite'')])
                     ''Run the tests.''\<rparr> = Inr (''errors'', crit, w, r) \<and> crit \<noteq> [])"
proof -
  let ?f = "\<lparr>path = ''commands/Run_Tests.md'', stem = ''Run_Tests'', on_disk = True,
         content = Frontmatter (PDict [(''description'', PStr ''Run the test suite'')])
                     ''Run the tests.''\<rparr>"
  have a: "CHR ''_'' \<in> set ''Run_Tests''" and b: "bad_name_char CHR ''_''"
    by (simp_all add: bad_name_char_def)
  have run: "audit_validate_command ?f
    = Inr (''errors'', [''Invalid filename: must be lowercase-hyphens only'',
             ''Underscores not allowed in filename''], [],
           [''Consider verb-first naming (e.g., '' @ sq ''create-'' @ '', '' @ sq ''run-''
              @ '')''])"
    by (simp add: audit_validate_command_def audit_parse_command_def audit_check_filename_def
        name_pattern_def is_name_char_def audit_common_verbs_def startswith_def
        audit_check_description_def py_contains_def dict_has_def py_getitem_def py_len_def
        audit_check_model_def no_findings_def audit_check_tools_def audit_check_arguments_def
        is_digit_def audit_check_security_def py_get_def sq_def)
  from naming_violation_flagged [OF a b] run a b show ?thesis
    by auto
qed

subsection \<open>The validators return on typed frontmatter\<close>

lemma has_len_cases: "has_len v \<Longrightarrow> (\<exists>s. v = PStr s) \<or> (\<exists>xs. v = PList xs) \<or> (\<exists>d. v = PDict d)"
  by (cases v) (simp_all add: has_len_def)

lemma is_str_iff: "is_str v \<longleftrightarrow> (\<exists>s. v = PStr s)"
  by (cases v) (simp_all add: is_str_def)

lemma py_len_total: "has_len v \<Longrightarrow> \<exists>n. py_len v = Inr n"
  by (cases v) (simp_all add: has_len_def py_len_def)

lemma py_contains_total: "has_len v \<Longrightarrow> \<exists>b. py_contains k v = Inr b"
  by (cases v) (simp_all add: has_len_def py_contains_def)

lemma audit_check_description_total:
  assumes "field_ok has_len (map_of d ''description'')"
  shows "\<exists>x. audit_check_description (PDict d) = Inr x"
proof (cases "map_of d ''description''")
  case None
  then show ?thesis
    by (simp add: no_findings_def audit_check_description_def py_contains_def dict_has_def)
next
  case (Some v)
  with assms obtain n where "py_len v = Inr n"
    using py_len_total [of v] by (auto simp: field_ok_def)
  with Some show ?thesis
    by (simp add: no_findings_def audit_check_description_def py_contains_def dict_has_def py_getitem_def)
qed

lemma audit_check_model_total:
  assumes "field_ok is_str (map_of d ''model'')"
  shows "\<exists>x. audit_check_model (PDict d) = Inr x"
proof (cases "map_of d ''model''")
  case None
  then show ?thesis
    by (simp add: no_findings_def audit_check_model_def py_contains_def dict_has_def)
next
  case (Some v)
  with assms obtain s where "v = PStr s" by (auto simp: field_ok_def is_str_iff)
  with Some show ?thesis
    by (simp add: no_findings_def audit_check_model_def py_contains_def dict_has_def py_getitem_def
          py_startswith_def)
qed

lemma audit_check_tools_total: "\<exists>x. audit_check_tools (PDict d) body = Inr x"
proof (cases "map_of d ''allowed-tools''")
  case None
  then show ?thesis
    by (simp add: no_findings_def audit_check_tools_def py_contains_def dict_has_def)
next
  case (Some v)
  then show ?thesis
    by (cases v)
       (simp_all add: no_findings_def audit_check_tools_def py_contains_def dict_has_def py_getitem_def)
qed

lemma audit_check_arguments_total: "\<exists>x. audit_check_arguments (PDict d) body = Inr x"
  by (simp add: no_findings_def audit_check_arguments_def py_contains_def Let_def)

lemma audit_check_security_total:
  assumes "field_ok has_len (map_of d ''allowed-tools'')"
  shows "\<exists>x. audit_check_security (PDict d) body = Inr x"
proof (cases "map_of d ''allowed-tools''")
  case None
  then show ?thesis
    by (simp add: no_findings_def audit_check_security_def py_get_def py_contains_def)
next
  case (Some v)
  with assms obtain b where "py_contains ''Bash'' v = Inr b"
    using py_contains_total [of v] by (auto simp: field_ok_def)
  with Some show ?thesis
    by (simp add: no_findings_def audit_check_security_def py_get_def)
qed

lemma audit_validate_command_total:
  assumes "content f = Frontmatter (PDict d) body" "command_frontmatter_ok d"
  shows "\<exists>rep. audit_validate_command f = Inr rep"
proof -
  have "\<exists>x. run_checks [Inr (audit_check_filename (stem f)), audit_check_description (PDict d),
                     audit_check_model (PDict d), audit_check_tools (PDict d) body,
                     audit_check_arguments (PDict d) body, audit_check_security (PDict d) body]
          = Inr x"
    using assms(2) audit_check_description_total [of d] audit_check_model_total [of d]
      audit_check_tools_total [of d body] audit_check_arguments_total [of d body]
      audit_check_security_total [of d body]
    by (intro run_checks_total) (auto simp: command_frontmatter_ok_def intro: prod_cases3)
  with assms(1) show ?thesis
    by (auto simp: audit_validate_command_def audit_parse_command_def split_def)
qed

lemma check_description_total:
  assumes "field_ok has_len (map_of d ''description'')"
  shows "\<exists>x. check_description (PDict d) = Inr x"
proof (cases "map_of d ''description''")
  case None
  then show ?thesis
    by (simp add: check_description_def py_contains_def dict_has_def)
next
  case (Some v)
  with assms obtain n where "py_len v = Inr n"
    using py_len_total [of v] by (auto simp: field_ok_def)
  with Some show ?thesis
    by (simp add: check_description_def py_contains_def dict_has_def py_getitem_def)
qed

lemma check_tools_total: "\<exists>x. check_tools (PDict d) = Inr x"
proof (cases "map_of d ''allowed-tools''")
  case None
  then show ?thesis
    by (simp add: check_tools_def py_contains_def dict_has_def)
next
  case (Some v)
  then show ?thesis
    by (cases v) (simp_all add: check_tools_def py_contains_def dict_has_def py_getitem_def)
qed

lemma check_model_total:
  assumes "field_ok is_str (map_of d ''model'')"
  shows "\<exists>x. check_model p (PDict d) = Inr x"
proof (cases "map_of d ''model''")
  case None
  then show ?thesis
    by (simp add: check_model_def py_contains_def dict_has_def)
next
  case (Some v)
  with assms obtain s where "v = PStr s" by (auto simp: field_ok_def is_str_iff)
  with Some show ?thesis
    by (simp add: check_model_def py_contains_def dict_has_def py_getitem_def py_startswith_def)
qed

lemma check_argument_hint_total: "\<exists>x. check_argument_hint (PDict d) = Inr x"
  by (cases "map_of d ''argument-hint''")
     (simp_all add: check_argument_hint_def py_contains_def dict_has_def py_getitem_def Let_def)

lemma check_body_total: "\<exists>x. check_body (PDict d) body = Inr x"
  by (simp add: check_body_def py_contains_def Let_def)

lemma check_security_total:
  assumes "field_ok has_len (map_of d ''allowed-tools'')"
  shows "\<exists>x. check_security (PDict d) body = Inr x"
proof (cases "map_of d ''allowed-tools''")
  case None
  then show ?thesis
    by (simp add: check_security_def py_get_def py_contains_def)
next
  case (Some v)
  with assms obtain b where "py_contains ''Bash'' v = Inr b"
    using py_contains_total [of v] by (auto simp: field_ok_def)
  with Some show ?thesis
    by (simp add: check_security_def py_get_def Let_def)
qed

lemma validate_command_total:
  assumes "content f = Frontmatter (PDict d) body" "command_frontmatter_ok d"
  shows "\<exists>res. validate_command f = Inr res"
proof (cases "on_disk f")
  case False
  then show ?thesis by (auto simp: validate_command_def)
next
  case True
  have "\<exists>x. run_errors [Inr (check_filename (stem f)), check_description (PDict d),
                     check_tools (PDict d), check_model (path f) (PDict d),
                     check_argument_hint (PDict d), check_body (PDict d) body,
                     check_security (PDict d) body] = Inr x"
    using assms(2) check_description_total [of d] check_tools_total [of d]
      check_model_total [of d "path f"] check_argument_hint_total [of d]
      check_body_total [of d body] check_security_total [of d body]
    by (intro run_errors_total) (auto simp: command_frontmatter_ok_def)
  with assms(1) True show ?thesis
    by (auto simp: validate_command_def)
qed

subsection \<open>Short model aliases in commands\<close>

lemma migrate_short_alias_result:
  assumes "map_of d ''model'' = Some (PStr a)" "a \<in> set [''haiku'', ''sonnet'', ''opus'', ''inherit'']"
  shows "\<exists>c. migrate_short_alias_to_version_alias d
               = Inr (if a = ''inherit'' then dict_del ''model'' d
                      else dict_set ''model'' (PStr (''claude-'' @ a @ ''-4-5'')) d, [c])"
  using assms
  by (auto simp: migrate_short_alias_to_version_alias_def hashable_def alias_lookup_def
        alias_map_def)

lemma apply_all_migrations_model:
  assumes "migrate_short_alias_to_version_alias d = Inr (f1, c1)"
  shows "\<exists>d' ch. apply_all_migrations d = Inr (d', c1 @ ch) \<and>
                 map_of d' ''model'' = map_of f1 ''model''"
proof -
  let ?f3 = "fst (migrate_tools_field_name (fst (migrate_argument_hint_format f1)))"
  have "map_of ?f3 ''model'' = map_of f1 ''model''"
    by (simp add: tools_frame argument_hint_frame)
  moreover have "apply_all_migrations d
      = Inr (?f3, c1 @ snd (migrate_argument_hint_format f1)
                   @ snd (migrate_tools_field_name (fst (migrate_argument_hint_format f1))))"
    using assms by (simp add: apply_all_migrations_def split_def Let_def)
  ultimately show ?thesis by blast
qed

text \<open>
  What holds of every command frontmatter whose \<^verbatim>\<open>model\<close> is \<^verbatim>\<open>haiku\<close>, \<^verbatim>\<open>sonnet\<close>,
  \<^verbatim>\<open>opus\<close> or \<^verbatim>\<open>inherit\<close>: the model check of each validator emits a critical finding;
  every report a validator returns for a file with this frontmatter is in error and holds
  the finding; the validators do return when the frontmatter is typed as the schema has it;
  and the migration rewrites \<^verbatim>\<open>model\<close> to \<^verbatim>\<open>claude-haiku-4-5\<close>, \<^verbatim>\<open>claude-sonnet-4-5\<close> or
  \<^verbatim>\<open>claude-opus-4-5\<close>, or deletes the field when it is \<^verbatim>\<open>inherit\<close>, recording the change.
\<close>

theorem short_alias_rejected:
  assumes m: "map_of d ''model'' = Some (PStr a)"
    and a: "a \<in> set [''haiku'', ''sonnet'', ''opus'', ''inherit'']"
  shows "audit_check_model (PDict d)
           = Inr ([''CRITICAL: Commands cannot use short alias '' @ sq a
                     @ ''. Use version alias like '' @ sq ''claude-haiku-4-5''
                     @ '' or full ID''], [], []) \<and>
         (\<exists>e. check_model p (PDict d) = Inr [e] \<and> is_critical e) \<and>
         (\<forall>f body status crit w r.
            content f = Frontmatter (PDict d) body \<and>
            audit_validate_command f = Inr (status, crit, w, r) \<longrightarrow>
            status = ''errors'' \<and>
            ''CRITICAL: Commands cannot use short alias '' @ sq a
               @ ''. Use version alias like '' @ sq ''claude-haiku-4-5'' @ '' or full ID''
              \<in> set crit) \<and>
         (\<forall>f body ok errs.
            on_disk f \<and> content f = Frontmatter (PDict d) body \<and>
            validate_command f = Inr (ok, errs) \<longrightarrow>
            \<not> ok \<and> (\<exists>e \<in> set errs. is_critical e)) \<and>
         (\<forall>f body.
            content f = Frontmatter (PDict d) body \<and> command_frontmatter_ok d \<longrightarrow>
            (\<exists>rep. audit_validate_command f = Inr rep) \<and>
            (\<exists>res. validate_command f = Inr res)) \<and>
         (\<exists>c. migrate_short_alias_to_version_alias d
                 = Inr (if a = ''inherit'' then dict_del ''model'' d
                        else dict_set ''model'' (PStr (''claude-'' @ a @ ''-4-5'')) d, [c])) \<and>
         (\<exists>d' ch. apply_all_migrations d = Inr (d', ch) \<and> ch \<noteq> [] \<and>
            map_of d' ''model''
              = (if a = ''inherit'' then None else Some (PStr (''claude-'' @ a @ ''-4-5''))))"
proof -
  from a have al: "PStr a \<in> set short_aliases" by (auto simp: short_aliases_def)
  note am = audit_check_model_alias [OF m al]
  note cm = check_model_alias [OF m al, of p]
  have 1: "audit_check_model (PDict d)
           = Inr ([''CRITICAL: Commands cannot use short alias '' @ sq a
                     @ ''. Use version alias like '' @ sq ''claude-haiku-4-5''
                     @ '' or full ID''], [], [])"
    using am by (simp add: py_str_def)
  have 2: "\<exists>e. check_model p (PDict d) = Inr [e] \<and> is_critical e"
    using cm short_alias_message_critical by blast
  have 3: "status = ''errors'' \<and>
            ''CRITICAL: Commands cannot use short alias '' @ sq a
               @ ''. Use version alias like '' @ sq ''claude-haiku-4-5'' @ '' or full ID''
              \<in> set crit"
    if "content f = Frontmatter (PDict d) body"
       "audit_validate_command f = Inr (status, crit, w, r)" for f body status crit w r
    using audit_validate_command_critical [OF that _ 1] by simp
  have 4: "\<not> ok \<and> (\<exists>e \<in> set errs. is_critical e)"
    if "on_disk f" "content f = Frontmatter (PDict d) body"
       "validate_command f = Inr (ok, errs)" for f body ok errs
  proof -
    let ?e = "short_alias_message (path f) (py_str (PStr a))
                (case map_of version_alias_map (py_str (PStr a)) of
                   None \<Rightarrow> ''claude-sonnet-4-5'' | Some v \<Rightarrow> v)"
    have "?e \<in> set errs \<and> \<not> ok"
      by (rule validate_command_critical [OF that _ check_model_alias [OF m al, of "path f"]])
         (simp_all add: short_alias_message_critical)
    then show ?thesis
      using short_alias_message_critical by blast
  qed
  have 5: "(\<exists>rep. audit_validate_command f = Inr rep) \<and> (\<exists>res. validate_command f = Inr res)"
    if "content f = Frontmatter (PDict d) body" "command_frontmatter_ok d" for f body
    using audit_validate_command_total [OF that] validate_command_total [OF that] by simp
  from migrate_short_alias_result [OF m a] obtain c where
    6: "migrate_short_alias_to_version_alias d
                 = Inr (if a = ''inherit'' then dict_del ''model'' d
                        else dict_set ''model'' (PStr (''claude-'' @ a @ ''-4-5'')) d, [c])"
    by blast
  from apply_all_migrations_model [OF 6] have
    7: "\<exists>d' ch. apply_all_migrations d = Inr (d', ch) \<and> ch \<noteq> [] \<and>
            map_of d' ''model''
              = (if a = ''inherit'' then None else Some (PStr (''claude-'' @ a @ ''-4-5'')))"
    by (auto simp: map_of_dict_set map_of_dict_del)
  from 1 2 3 4 5 6 7 show ?thesis by blast
qed

theorem short_alias_rejected_witness:
  "map_of [(''description'', PStr ''Fix a reported bug''), (''model'', PStr ''haiku'')] ''model''
     = Some (PStr ''haiku'') \<and>
   audit_check_model (PDict [(''description'', PStr ''Fix a reported bug''),
                             (''model'', PStr ''haiku'')])
     = Inr ([''CRITICAL: Commands cannot use short alias '' @ sq ''haiku''
               @ ''. Use version alias like '' @ sq ''claude-haiku-4-5'' @ '' or full ID''],
            [], []) \<and>
   (\<exists>crit w r. audit_validate_command
        \<lparr>path = ''commands/fix-bug.md'', stem = ''fix-bug'', on_disk = True,
         content = Frontmatter (PDict [(''description'', PStr ''Fix a reported bug''),
                                       (''model'', PStr ''haiku'')]) ''Fix the bug.''\<rparr>
      = Inr (''errors'', crit, w, r) \<and>
      ''CRITICAL: Commands cannot use short alias '' @ sq ''haiku''
         @ ''. Use version alias like '' @ sq ''claude-haiku-4-5'' @ '' or full ID'' \<in> set crit) \<and>
   (\<exists>errs. validate_command
        \<lparr>path = ''commands/fix-bug.md'', stem = ''fix-bug'', on_disk = True,
         content = Frontmatter (PDict [(''description'', PStr ''Fix a reported bug''),
                                       (''model'', PStr ''haiku'')]) ''Fix the bug.''\<rparr>
      = Inr (False, errs)) \<and>
   (\<exists>d' ch. apply_all_migrations [(''description'', PStr ''Fix a reported bug''),
                                  (''model'', PStr ''haiku'')] = Inr (d', ch) \<and>
      map_of d' ''model'' = Some (PStr ''claude-haiku-4-5''))"
proof -
  let ?d = "[(''description'', PStr ''Fix a reported bug''), (''model'', PStr ''haiku'')]"
  let ?f = "\<lparr>path = ''commands/fix-bug.md'', stem = ''fix-bug'', on_disk = True,
         content = Frontmatter (PDict ?d) ''Fix the bug.''\<rparr>"
  have m: "map_of ?d ''model'' = Some (PStr ''haiku'')" by simp
  have a: "''haiku'' \<in> set [''haiku'', ''sonnet'', ''opus'', ''inherit'']" by simp
  have ok: "command_frontmatter_ok ?d"
    by (simp add: command_frontmatter_ok_def field_ok_def has_len_def is_str_def)
  have c: "content ?f = Frontmatter (PDict ?d) ''Fix the bug.''" "on_disk ?f" by simp_all
  note t = short_alias_rejected [OF m a, of "''commands/fix-bug.md''"]
  from t c ok obtain status crit w r ok' errs where
    r1: "audit_validate_command ?f = Inr (status, crit, w, r)"
    and r2: "validate_command ?f = Inr (ok', errs)"
    by (metis prod_cases4 surj_pair)
  from t c r1 r2 have "status = ''errors''"
    "''CRITICAL: Commands cannot use short alias '' @ sq ''haiku''
         @ ''. Use version alias like '' @ sq ''claude-haiku-4-5'' @ '' or full ID'' \<in> set crit"
    "\<not> ok'"
    by blast+
  with r1 r2 t m show ?thesis
    by auto
qed

text \<open>
  C2 says that validation emits a critical finding for every command frontmatter whose
  \<^verbatim>\<open>model\<close> is a short alias. The model check does emit it, but both validators take
  \<^verbatim>\<open>len()\<close> of the description first: on a frontmatter with an empty \<^verbatim>\<open>description:\<close> (the
  value \<^verbatim>\<open>None\<close>) and \<^verbatim>\<open>model: haiku\<close> they raise \<^verbatim>\<open>TypeError\<close> before the model is looked
  at, and no finding is reported.
\<close>

theorem short_alias_blank_description:
  "audit_check_model (PDict [(''description'', PNone), (''model'', PStr ''haiku'')])
     = Inr ([''CRITICAL: Commands cannot use short alias '' @ sq ''haiku''
               @ ''. Use version alias like '' @ sq ''claude-haiku-4-5'' @ '' or full ID''],
            [], []) \<and>
   audit_validate_command
     \<lparr>path = ''commands/fix-bug.md'', stem = ''fix-bug'', on_disk = True,
      content = Frontmatter (PDict [(''description'', PNone), (''model'', PStr ''haiku'')])
                  ''Fix the bug.''\<rparr>
     = Inl TypeError \<and>
   validate_command
     \<lparr>path = ''commands/fix-bug.md'', stem = ''fix-bug'', on_disk = True,
      content = Frontmatter (PDict [(''description'', PNone), (''model'', PStr ''haiku'')])
                  ''Fix the bug.''\<rparr>
     = Inl TypeError"
  by (simp add: audit_check_model_def short_aliases_def py_str_def
        audit_validate_command_def audit_parse_command_def audit_check_description_def
        validate_command_def check_description_def split_def
        py_contains_def dict_has_def py_getitem_def py_len_def)

subsection \<open>The model field of a skill\<close>

lemma skill_check_model_present:
  assumes "dict_has d ''model''"
  shows "skill_check_model name (PDict d)
           = Inr ([''CRITICAL: Skills cannot have '' @ sq ''model'' @ '' field. ''
                     @ ''Only agents support model specification. ''
                     @ ''Run: /agent-builder:skills:migrate '' @ name @ '' --apply''],
                  [], [])"
  using assms by (simp add: skill_check_model_def py_contains_def)

lemma skill_check_name_field_total: "\<exists>x. skill_check_name_field name (PDict d) = Inr x"
  by (cases "map_of d ''name''")
     (simp_all add: skill_check_name_field_def py_contains_def dict_has_def py_getitem_def)

lemma skill_check_description_total:
  assumes "field_ok is_str (map_of d ''description'')"
  shows "\<exists>x. skill_check_description (PDict d) = Inr x"
proof (cases "map_of d ''description''")
  case None
  then show ?thesis
    by (simp add: skill_check_description_def py_contains_def dict_has_def)
next
  case (Some v)
  with assms obtain s where "v = PStr s" by (auto simp: field_ok_def is_str_iff)
  with Some show ?thesis
    by (simp add: skill_check_description_def py_contains_def dict_has_def py_getitem_def
          py_len_def py_lower_of_def)
qed

lemma skill_check_model_total: "\<exists>x. skill_check_model name (PDict d) = Inr x"
  by (simp add: skill_check_model_def py_contains_def no_findings_def)

lemma skill_check_version_total: "\<exists>x. skill_check_version (PDict d) = Inr x"
  by (cases "map_of d ''version''")
     (simp_all add: skill_check_version_def py_contains_def dict_has_def py_getitem_def
        no_findings_def)

lemma skill_check_tools_total: "\<exists>x. skill_check_tools (PDict d) body = Inr x"
proof (cases "map_of d ''allowed-tools''")
  case None
  then show ?thesis
    by (simp add: skill_check_tools_def py_contains_def dict_has_def no_findings_def)
next
  case (Some v)
  then show ?thesis
    by (cases v)
       (simp_all add: skill_check_tools_def py_contains_def dict_has_def py_getitem_def
          no_findings_def)
qed

lemma validate_skill_total:
  assumes "parse_skill sd = Inr (Inr (PDict d, body))" "skill_frontmatter_ok d"
  shows "\<exists>rep. validate_skill sd = Inr rep"
proof -
  have "\<exists>x. run_checks [Inr (skill_check_name (dir_name sd)),
                     skill_check_name_field (dir_name sd) (PDict d),
                     skill_check_description (PDict d),
                     skill_check_model (dir_name sd) (PDict d),
                     skill_check_version (PDict d),
                     skill_check_tools (PDict d) body,
                     Inr (skill_check_structure sd body)] = Inr x"
    using assms(2) skill_check_name_field_total [of "dir_name sd" d]
      skill_check_description_total [of d] skill_check_model_total [of "dir_name sd" d]
      skill_check_version_total [of d] skill_check_tools_total [of d body]
    by (intro run_checks_total) (auto simp: skill_frontmatter_ok_def intro: prod_cases3)
  with assms(1) show ?thesis
    by (auto simp: validate_skill_def split_def)
qed

lemma migrate_remove_model_field_present:
  assumes "dict_has d ''model''"
  shows "\<exists>c. migrate_remove_model_field d = (dict_del ''model'' d, [c]) \<and>
             startswith c ''CRITICAL'' \<and> \<not> startswith c ''RECOMMENDATION''"
proof -
  from assms obtain old_value where old: "map_of d ''model'' = Some old_value"
    by (auto simp: dict_has_def)
  let ?c = "''CRITICAL: Removed '' @ sq ''model'' @ '' field with value ''
              @ sq (py_str old_value) @ '' (skills don'' @ apos
              @ ''t support model specification)''"
  have "migrate_remove_model_field d = (dict_del ''model'' d, [?c])"
    by (simp add: migrate_remove_model_field_def old)
  moreover have "startswith ?c ''CRITICAL''" "\<not> startswith ?c ''RECOMMENDATION''"
    by (simp_all add: startswith_def)
  ultimately show ?thesis by blast
qed

lemma skill_apply_all_migrations_Inr:
  assumes "skill_apply_all_migrations d name = Inr (d', ch)"
  shows "d' = fst (migrate_remove_model_field d) \<and>
         (\<exists>rest. ch = snd (migrate_remove_model_field d) @ rest)"
  using assms
  by (auto simp: skill_apply_all_migrations_def split_def bind_Inr_iff
        migrate_gerund_form_recommendation_def migrate_description_triggers_def Let_def
        split: if_splits)

lemma skill_apply_all_migrations_total:
  assumes "field_ok is_str (map_of d ''name'')" "field_ok is_str (map_of d ''description'')"
  shows "\<exists>d' ch. skill_apply_all_migrations d name = Inr (d', ch)"
proof -
  let ?d1 = "fst (migrate_remove_model_field d)"
  have n: "map_of ?d1 ''name'' = map_of d ''name''"
    and de: "map_of ?d1 ''description'' = map_of d ''description''"
    by (simp_all add: migrate_remove_model_field_def map_of_dict_del split: option.splits)
  have "\<exists>g. migrate_gerund_form_recommendation ?d1 name = Inr (?d1, g)"
  proof (cases "map_of d ''name''")
    case None
    then show ?thesis
      by (simp add: migrate_gerund_form_recommendation_def n py_endswith_def Let_def)
  next
    case (Some v)
    with assms(1) obtain s where "v = PStr s" by (auto simp: field_ok_def is_str_iff)
    with Some show ?thesis
      by (simp add: migrate_gerund_form_recommendation_def n py_endswith_def Let_def)
  qed
  then obtain g where g: "migrate_gerund_form_recommendation ?d1 name = Inr (?d1, g)" ..
  have "\<exists>t. migrate_description_triggers ?d1 = Inr (?d1, t)"
  proof (cases "map_of d ''description''")
    case None
    then show ?thesis
      by (simp add: migrate_description_triggers_def de py_truthy_def Let_def)
  next
    case (Some v)
    with assms(2) obtain s where "v = PStr s" by (auto simp: field_ok_def is_str_iff)
    with Some show ?thesis
      by (cases "s = []")
         (simp_all add: migrate_description_triggers_def de py_truthy_def py_lower_of_def
            Let_def)
  qed
  then obtain t where t: "migrate_description_triggers ?d1 = Inr (?d1, t)" ..
  from g t show ?thesis
    by (simp add: skill_apply_all_migrations_def split_def Let_def)
qed

text \<open>
  What holds of every skill frontmatter with a \<^verbatim>\<open>model\<close> key, whatever its value: the
  model check of the audit emits the critical finding that points to the migration; every report
  \<^verbatim>\<open>validate_skill\<close> returns for it is in error and holds the finding, and a report is
  returned when the description is a string; \<^verbatim>\<open>migrate_remove_model_field\<close> returns the
  frontmatter without the key and one change that starts with \<^verbatim>\<open>CRITICAL\<close> (an automatic
  change, not a recommendation); and whatever the whole skill migration returns has no
  \<^verbatim>\<open>model\<close> key and a critical change.
\<close>

theorem skill_model_rejected:
  assumes m: "dict_has d ''model''"
  shows "skill_check_model name (PDict d)
           = Inr ([''CRITICAL: Skills cannot have '' @ sq ''model'' @ '' field. ''
                     @ ''Only agents support model specification. ''
                     @ ''Run: /agent-builder:skills:migrate '' @ name @ '' --apply''],
                  [], []) \<and>
         (\<forall>sd body status crit w r.
            dir_name sd = name \<and> parse_skill sd = Inr (Inr (PDict d, body)) \<and>
            validate_skill sd = Inr (status, crit, w, r) \<longrightarrow>
            status = ''errors'' \<and>
            ''CRITICAL: Skills cannot have '' @ sq ''model'' @ '' field. ''
               @ ''Only agents support model specification. ''
               @ ''Run: /agent-builder:skills:migrate '' @ name @ '' --apply'' \<in> set crit) \<and>
         (\<forall>sd body.
            parse_skill sd = Inr (Inr (PDict d, body)) \<and> skill_frontmatter_ok d \<longrightarrow>
            (\<exists>rep. validate_skill sd = Inr rep)) \<and>
         (\<exists>c. migrate_remove_model_field d = (dict_del ''model'' d, [c]) \<and>
              critical_changes [c] = [c] \<and> recommendations_only [c] = []) \<and>
         \<not> dict_has (dict_del ''model'' d) ''model'' \<and>
         (\<forall>d' ch. skill_apply_all_migrations d name = Inr (d', ch) \<longrightarrow>
            \<not> dict_has d' ''model'' \<and> critical_changes ch \<noteq> []) \<and>
         (field_ok is_str (map_of d ''name'') \<and> field_ok is_str (map_of d ''description'') \<longrightarrow>
            (\<exists>d' ch. skill_apply_all_migrations d name = Inr (d', ch)))"
proof -
  note 1 = skill_check_model_present [OF m, of name]
  have 2: "status = ''errors'' \<and>
            ''CRITICAL: Skills cannot have '' @ sq ''model'' @ '' field. ''
               @ ''Only agents support model specification. ''
               @ ''Run: /agent-builder:skills:migrate '' @ name @ '' --apply'' \<in> set crit"
    if "dir_name sd = name" "parse_skill sd = Inr (Inr (PDict d, body))"
       "validate_skill sd = Inr (status, crit, w, r)" for sd body status crit w r
    using validate_skill_critical [OF that(2,3) _ skill_check_model_present [OF m, of "dir_name sd"]]
      that(1)
    by simp
  have 3: "\<exists>rep. validate_skill sd = Inr rep"
    if "parse_skill sd = Inr (Inr (PDict d, body))" "skill_frontmatter_ok d" for sd body
    using validate_skill_total [OF that] .
  from migrate_remove_model_field_present [OF m] obtain c where
    c: "migrate_remove_model_field d = (dict_del ''model'' d, [c])"
       "startswith c ''CRITICAL''" "\<not> startswith c ''RECOMMENDATION''"
    by blast
  then have 4: "\<exists>c. migrate_remove_model_field d = (dict_del ''model'' d, [c]) \<and>
              critical_changes [c] = [c] \<and> recommendations_only [c] = []"
    by (auto simp: critical_changes_def recommendations_only_def)
  have 5: "\<not> dict_has (dict_del ''model'' d) ''model''"
    by (simp add: dict_has_def map_of_dict_del)
  have 6: "\<not> dict_has d' ''model'' \<and> critical_changes ch \<noteq> []"
    if "skill_apply_all_migrations d name = Inr (d', ch)" for d' ch
    using skill_apply_all_migrations_Inr [OF that] c 5
    by (auto simp: critical_changes_def)
  note 7 = skill_apply_all_migrations_total [of d name]
  from 1 2 3 4 5 6 7 show ?thesis by blast
qed

theorem skill_model_rejected_witness:
  "dict_has [(''name'', PStr ''building-things''),
             (''description'', PStr ''Use when building things of any kind''),
             (''model'', PStr ''claude-sonnet-4-5'')] ''model'' \<and>
   (\<exists>crit w r. validate_skill
        \<lparr>dir_name = ''building-things'', skill_md_on_disk = True,
         skill_md = Frontmatter (PDict [(''name'', PStr ''building-things''),
                      (''description'', PStr ''Use when building things of any kind''),
                      (''model'', PStr ''claude-sonnet-4-5'')]) ''## When to Use'',
         has_scripts = False, has_references = False, has_assets = False,
         not_executable = []\<rparr> = Inr (''errors'', crit, w, r) \<and>
      ''CRITICAL: Skills cannot have '' @ sq ''model'' @ '' field. ''
         @ ''Only agents support model specification. ''
         @ ''Run: /agent-builder:skills:migrate building-things --apply'' \<in> set crit) \<and>
   (\<exists>d' ch. skill_apply_all_migrations
        [(''name'', PStr ''building-things''),
         (''description'', PStr ''Use when building things of any kind''),
         (''model'', PStr ''claude-sonnet-4-5'')] ''building-things'' = Inr (d', ch) \<and>
      \<not> dict_has d' ''model'' \<and> critical_changes ch \<noteq> [])"
proof -
  let ?d = "[(''name'', PStr ''building-things''),
             (''description'', PStr ''Use when building things of any kind''),
             (''model'', PStr ''claude-sonnet-4-5'')]"
  let ?sd = "\<lparr>dir_name = ''building-things'', skill_md_on_disk = True,
         skill_md = Frontmatter (PDict ?d) ''## When to Use'',
         has_scripts = False, has_references = False, has_assets = False,
         not_executable = []\<rparr>"
  have m: "dict_has ?d ''model''" by (simp add: dict_has_def)
  have p: "parse_skill ?sd = Inr (Inr (PDict ?d, ''## When to Use''))" "dir_name ?sd = ''building-things''"
    by (simp_all add: parse_skill_def)
  have ok: "skill_frontmatter_ok ?d" "field_ok is_str (map_of ?d ''name'')"
    "field_ok is_str (map_of ?d ''description'')"
    by (simp_all add: skill_frontmatter_ok_def field_ok_def is_str_def)
  note t = skill_model_rejected [OF m, of "''building-things''"]
  from t p ok obtain status crit w r d' ch where
    r1: "validate_skill ?sd = Inr (status, crit, w, r)"
    and r2: "skill_apply_all_migrations ?d ''building-things'' = Inr (d', ch)"
    by (metis prod_cases4)
  from t p r1 have "status = ''errors''"
    "''CRITICAL: Skills cannot have '' @ sq ''model'' @ '' field. ''
         @ ''Only agents support model specification. ''
         @ ''Run: /agent-builder:skills:migrate '' @ ''building-things'' @ '' --apply'' \<in> set crit"
    by blast+
  moreover from t r2 have "\<not> dict_has d' ''model'' \<and> critical_changes ch \<noteq> []"
    by blast
  ultimately show ?thesis
    using r1 r2 m by auto
qed

text \<open>
  C3 says that validation returns a critical finding for every skill frontmatter with a
  \<^verbatim>\<open>model\<close> key and that the migration returns the frontmatter without the key. The model
  check does emit the finding, but \<^verbatim>\<open>validate_skill\<close> takes \<^verbatim>\<open>len()\<close> of the description
  first: with an empty \<^verbatim>\<open>description:\<close> (the value \<^verbatim>\<open>None\<close>) it raises \<^verbatim>\<open>TypeError\<close> and
  reports nothing. The migration removes the key, then calls \<^verbatim>\<open>endswith\<close> on the name: with
  \<^verbatim>\<open>name: 2024\<close> it raises \<^verbatim>\<open>AttributeError\<close> and returns nothing.
\<close>

theorem skill_model_blank_description:
  "skill_check_model ''building-reports''
     (PDict [(''name'', PStr ''building-reports''), (''description'', PNone),
             (''model'', PStr ''opus'')])
     = Inr ([''CRITICAL: Skills cannot have '' @ sq ''model'' @ '' field. ''
               @ ''Only agents support model specification. ''
               @ ''Run: /agent-builder:skills:migrate building-reports --apply''], [], []) \<and>
   validate_skill
     \<lparr>dir_name = ''building-reports'', skill_md_on_disk = True,
      skill_md = Frontmatter (PDict [(''name'', PStr ''building-reports''),
                                     (''description'', PNone), (''model'', PStr ''opus'')])
                   ''## When to Use'',
      has_scripts = False, has_references = False, has_assets = False,
      not_executable = []\<rparr>
     = Inl TypeError \<and>
   skill_apply_all_migrations
     [(''name'', PInt 2024), (''description'', PStr ''Use when building reports''),
      (''model'', PStr ''opus'')] ''building-reports''
     = Inl AttributeError"
  by (simp add: skill_check_model_def validate_skill_def parse_skill_def
        skill_check_name_field_def skill_check_description_def split_def
        py_contains_def dict_has_def py_getitem_def py_len_def
        skill_apply_all_migrations_def migrate_remove_model_field_def
        migrate_gerund_form_recommendation_def py_endswith_def dict_del_def Let_def)

subsection \<open>The security scan\<close>

lemma join_mem: "x \<in> set xs \<Longrightarrow> \<exists>a b. join sep xs = a @ x @ b"
proof (induction sep xs rule: join.induct)
  case (1 sep)
  then show ?case by simp
next
  case (2 sep y)
  then have "join sep [y] = [] @ x @ []" by simp
  then show ?case by blast
next
  case (3 sep y z zs)
  show ?case
  proof (cases "x = y")
    case True
    then have "join sep (y # z # zs) = [] @ x @ (sep @ join sep (z # zs))" by simp
    then show ?thesis by blast
  next
    case False
    with 3 obtain a b where "join sep (z # zs) = a @ x @ b" by auto
    then have "join sep (y # z # zs) = (y @ sep @ a) @ x @ b" by simp
    then show ?thesis by blast
  qed
qed

lemma eval_pattern_found_nocase:
  assumes "str_in ''eval $ARGUMENTS'' block" "block \<in> set blocks"
  shows "re_search [ILit ''eval'', Plus is_space, Lit ''$''] (join sep blocks)"
proof -
  from assms(1) obtain a b where "block = a @ ''eval $ARGUMENTS'' @ b"
    by (auto simp: str_in_iff)
  moreover from join_mem [OF assms(2)] obtain p q where "join sep blocks = p @ block @ q"
    by blast
  ultimately have "join sep blocks = (p @ a) @ ''eval $ARGUMENTS'' @ (b @ q)" by simp
  moreover have "match_here [ILit ''eval'', Plus is_space, Lit ''$'']
                   (''eval $ARGUMENTS'' @ (b @ q))"
    by (simp add: startswith_def is_space_def py_lower_def lower_char_def upper_chars_def
          lower_chars_def)
  ultimately show ?thesis by (simp only: re_search_append)
qed

lemma check_security_eval:
  assumes "py_get fm ''allowed-tools'' (PStr []) = Inr tools" "py_contains ''Bash'' tools = Inr True"
    "block \<in> set (bash_blocks body)" "str_in ''eval $ARGUMENTS'' block"
  shows "\<exists>e. check_security fm body = Inr e \<and>
             ''SECURITY ERROR: Using eval with arguments enables arbitrary code execution''
               \<in> set e"
  using assms(1,2) eval_pattern_found_nocase [OF assms(4,3), of nl]
  by (simp add: check_security_def critical_patterns_def Let_def)

lemma check_security_gate:
  assumes "py_get fm ''allowed-tools'' (PStr []) = Inr tools" "py_contains ''Bash'' tools = Inr False"
  shows "check_security fm body = Inr []"
  using assms by (simp add: check_security_def)

text \<open>
  C4, as the code has it. The security scan of a command runs only when \<^verbatim>\<open>'Bash' in
  frontmatter.get('allowed-tools', '')\<close> holds. When it does, a body that contains
  \<^verbatim>\<open>eval $ARGUMENTS\<close> gets the critical finding of audit-commands.py, and a body with
  \<^verbatim>\<open>eval $ARGUMENTS\<close> inside a \<^verbatim>\<open>bash\<close> or \<^verbatim>\<open>sh\<close> code block (as the validator extracts
  the blocks) gets the critical finding of validate-command.py, in every report that is
  returned. When \<^verbatim>\<open>allowed-tools\<close> is absent or does not contain \<^verbatim>\<open>Bash\<close>, the scan emits
  nothing. A report is returned whenever the frontmatter is a mapping typed as the schema has
  it (a \<^verbatim>\<open>description\<close> and an \<^verbatim>\<open>allowed-tools\<close> with a length, a \<^verbatim>\<open>model\<close> that is a string),
  and then it is in error and holds the finding.
\<close>

theorem eval_flagged_when_bash_allowed:
  assumes t: "py_get fm ''allowed-tools'' (PStr []) = Inr tools"
  shows "(py_contains ''Bash'' tools = Inr True \<and> str_in ''eval $ARGUMENTS'' body \<longrightarrow>
            (\<exists>c. audit_check_security fm body = Inr (c, [], []) \<and>
                  ''SECURITY: Using eval with arguments is dangerous'' \<in> set c) \<and>
            (\<forall>f status crit w r.
               content f = Frontmatter fm body \<and>
               audit_validate_command f = Inr (status, crit, w, r) \<longrightarrow>
               status = ''errors'' \<and>
               ''SECURITY: Using eval with arguments is dangerous'' \<in> set crit) \<and>
            (\<forall>f d.
               fm = PDict d \<and> command_frontmatter_ok d \<and> content f = Frontmatter fm body \<longrightarrow>
               (\<exists>crit w r. audit_validate_command f = Inr (''errors'', crit, w, r) \<and>
                  ''SECURITY: Using eval with arguments is dangerous'' \<in> set crit))) \<and>
         (py_contains ''Bash'' tools = Inr True \<and>
          (\<exists>block \<in> set (bash_blocks body). str_in ''eval $ARGUMENTS'' block) \<longrightarrow>
            (\<exists>e. check_security fm body = Inr e \<and>
                  ''SECURITY ERROR: Using eval with arguments enables arbitrary code execution''
                    \<in> set e) \<and>
            (\<forall>f ok errs.
               on_disk f \<and> content f = Frontmatter fm body \<and>
               validate_command f = Inr (ok, errs) \<longrightarrow>
               \<not> ok \<and>
               ''SECURITY ERROR: Using eval with arguments enables arbitrary code execution''
                 \<in> set errs) \<and>
            (\<forall>f d.
               fm = PDict d \<and> command_frontmatter_ok d \<and> on_disk f \<and>
               content f = Frontmatter fm body \<longrightarrow>
               (\<exists>errs. validate_command f = Inr (False, errs) \<and>
                  ''SECURITY ERROR: Using eval with arguments enables arbitrary code execution''
                    \<in> set errs))) \<and>
         (py_contains ''Bash'' tools = Inr False \<longrightarrow>
            audit_check_security fm body = Inr no_findings \<and> check_security fm body = Inr [])"
proof (intro conjI impI)
  assume a: "py_contains ''Bash'' tools = Inr True \<and> str_in ''eval $ARGUMENTS'' body"
  from audit_check_security_eval [OF t] a obtain c where
    c: "audit_check_security fm body = Inr (c, [], [])"
       "''SECURITY: Using eval with arguments is dangerous'' \<in> set c"
    by blast
  then show "\<exists>c. audit_check_security fm body = Inr (c, [], []) \<and>
                  ''SECURITY: Using eval with arguments is dangerous'' \<in> set c"
    by blast
  show rep: "\<forall>f status crit w r.
               content f = Frontmatter fm body \<and>
               audit_validate_command f = Inr (status, crit, w, r) \<longrightarrow>
               status = ''errors'' \<and>
               ''SECURITY: Using eval with arguments is dangerous'' \<in> set crit"
    using audit_validate_command_critical [OF _ _ _ c] by auto
  show "\<forall>f d.
               fm = PDict d \<and> command_frontmatter_ok d \<and> content f = Frontmatter fm body \<longrightarrow>
               (\<exists>crit w r. audit_validate_command f = Inr (''errors'', crit, w, r) \<and>
                  ''SECURITY: Using eval with arguments is dangerous'' \<in> set crit)"
  proof (intro allI impI)
    fix f :: command_file and d
    assume f: "fm = PDict d \<and> command_frontmatter_ok d \<and> content f = Frontmatter fm body"
    with audit_validate_command_total [of f d body] obtain status crit w r where
      "audit_validate_command f = Inr (status, crit, w, r)"
      by (metis prod_cases4)
    with rep f show "\<exists>crit w r. audit_validate_command f = Inr (''errors'', crit, w, r) \<and>
                  ''SECURITY: Using eval with arguments is dangerous'' \<in> set crit"
      by blast
  qed
next
  assume a: "py_contains ''Bash'' tools = Inr True \<and>
          (\<exists>block \<in> set (bash_blocks body). str_in ''eval $ARGUMENTS'' block)"
  from check_security_eval [OF t] a obtain e where
    e: "check_security fm body = Inr e"
       "''SECURITY ERROR: Using eval with arguments enables arbitrary code execution'' \<in> set e"
    by blast
  then show "\<exists>e. check_security fm body = Inr e \<and>
                  ''SECURITY ERROR: Using eval with arguments enables arbitrary code execution''
                    \<in> set e"
    by blast
  have crit: "is_critical ''SECURITY ERROR: Using eval with arguments enables arbitrary code execution''"
    by (simp add: is_critical_def startswith_def)
  show res: "\<forall>f ok errs.
               on_disk f \<and> content f = Frontmatter fm body \<and>
               validate_command f = Inr (ok, errs) \<longrightarrow>
               \<not> ok \<and>
               ''SECURITY ERROR: Using eval with arguments enables arbitrary code execution''
                 \<in> set errs"
  proof (intro allI impI)
    fix f ok errs
    assume f: "on_disk f \<and> content f = Frontmatter fm body \<and>
               validate_command f = Inr (ok, errs)"
    have "''SECURITY ERROR: Using eval with arguments enables arbitrary code execution''
            \<in> set errs \<and> \<not> ok"
      by (rule validate_command_critical [where f = f and fm = fm and body = body, OF _ _ _ _ e(1)])
         (use f e(2) crit in simp_all)
    then show "\<not> ok \<and>
               ''SECURITY ERROR: Using eval with arguments enables arbitrary code execution''
                 \<in> set errs"
      by simp
  qed
  show "\<forall>f d.
               fm = PDict d \<and> command_frontmatter_ok d \<and> on_disk f \<and>
               content f = Frontmatter fm body \<longrightarrow>
               (\<exists>errs. validate_command f = Inr (False, errs) \<and>
                  ''SECURITY ERROR: Using eval with arguments enables arbitrary code execution''
                    \<in> set errs)"
  proof (intro allI impI)
    fix f :: command_file and d
    assume f: "fm = PDict d \<and> command_frontmatter_ok d \<and> on_disk f \<and>
               content f = Frontmatter fm body"
    with validate_command_total [of f d body] obtain ok errs where
      r: "validate_command f = Inr (ok, errs)"
      by (metis surj_pair)
    with res f have "\<not> ok \<and>
               ''SECURITY ERROR: Using eval with arguments enables arbitrary code execution''
                 \<in> set errs"
      by blast
    with r show "\<exists>errs. validate_command f = Inr (False, errs) \<and>
                  ''SECURITY ERROR: Using eval with arguments enables arbitrary code execution''
                    \<in> set errs"
      by auto
  qed
next
  assume "py_contains ''Bash'' tools = Inr False"
  then show "audit_check_security fm body = Inr no_findings"
    by (rule audit_check_security_gate [OF t])
next
  assume "py_contains ''Bash'' tools = Inr False"
  then show "check_security fm body = Inr []"
    by (rule check_security_gate [OF t])
qed

theorem eval_flagged_when_bash_allowed_witness:
  "(\<exists>c. audit_check_security
           (PDict [(''description'', PStr ''Run a script''), (''allowed-tools'', PStr ''Bash, Read'')])
           eval_body = Inr (c, [], []) \<and>
        ''SECURITY: Using eval with arguments is dangerous'' \<in> set c) \<and>
   (\<exists>e. check_security
           (PDict [(''description'', PStr ''Run a script''), (''allowed-tools'', PStr ''Bash, Read'')])
           eval_body = Inr e \<and>
        ''SECURITY ERROR: Using eval with arguments enables arbitrary code execution'' \<in> set e) \<and>
   (\<exists>crit w r. audit_validate_command
        \<lparr>path = ''commands/run-script.md'', stem = ''run-script'', on_disk = True,
         content = Frontmatter (PDict [(''description'', PStr ''Run a script''),
                                       (''allowed-tools'', PStr ''Bash, Read'')]) eval_body\<rparr>
      = Inr (''errors'', crit, w, r) \<and>
      ''SECURITY: Using eval with arguments is dangerous'' \<in> set crit) \<and>
   (\<exists>errs. validate_command
        \<lparr>path = ''commands/run-script.md'', stem = ''run-script'', on_disk = True,
         content = Frontmatter (PDict [(''description'', PStr ''Run a script''),
                                       (''allowed-tools'', PStr ''Bash, Read'')]) eval_body\<rparr>
      = Inr (False, errs) \<and>
      ''SECURITY ERROR: Using eval with arguments enables arbitrary code execution''
        \<in> set errs) \<and>
   audit_check_security (PDict [(''allowed-tools'', PStr ''Read'')]) eval_body = Inr no_findings \<and>
   check_security (PDict [(''allowed-tools'', PStr ''Read'')]) eval_body = Inr []"
proof -
  let ?d = "[(''description'', PStr ''Run a script''), (''allowed-tools'', PStr ''Bash, Read'')]"
  let ?fm = "PDict ?d"
  let ?f = "\<lparr>path = ''commands/run-script.md'', stem = ''run-script'', on_disk = True,
         content = Frontmatter ?fm eval_body\<rparr>"
  have ok: "command_frontmatter_ok ?d"
    by (simp add: command_frontmatter_ok_def field_ok_def has_len_def is_str_def)
  have f: "on_disk ?f" "content ?f = Frontmatter ?fm eval_body" by simp_all
  have t: "py_get ?fm ''allowed-tools'' (PStr []) = Inr (PStr ''Bash, Read'')"
    by (simp add: py_get_def)
  have b: "py_contains ''Bash'' (PStr ''Bash, Read'') = Inr True"
    by (simp add: py_contains_def startswith_def)
  have s: "str_in ''eval $ARGUMENTS'' eval_body"
    by (simp add: eval_body_def nl_def startswith_def)
  have "bash_blocks eval_body = [''eval $ARGUMENTS'' @ nl]"
    by (simp add: eval_body_def nl_def block_open_def startswith_def)
  then have k: "\<exists>block \<in> set (bash_blocks eval_body). str_in ''eval $ARGUMENTS'' block"
    by (simp add: nl_def startswith_def)
  have t0: "py_get (PDict [(''allowed-tools'', PStr ''Read'')]) ''allowed-tools'' (PStr [])
              = Inr (PStr ''Read'')"
    by (simp add: py_get_def)
  have b0: "py_contains ''Bash'' (PStr ''Read'') = Inr False"
    by (simp add: py_contains_def startswith_def)
  note bash = eval_flagged_when_bash_allowed [OF t, of eval_body]
  from bash b s have
    1: "\<exists>c. audit_check_security ?fm eval_body = Inr (c, [], []) \<and>
            ''SECURITY: Using eval with arguments is dangerous'' \<in> set c"
    and "\<forall>f d. ?fm = PDict d \<and> command_frontmatter_ok d \<and> content f = Frontmatter ?fm eval_body \<longrightarrow>
           (\<exists>crit w r. audit_validate_command f = Inr (''errors'', crit, w, r) \<and>
              ''SECURITY: Using eval with arguments is dangerous'' \<in> set crit)"
    by blast+
  with ok f(2) have
    2: "\<exists>crit w r. audit_validate_command ?f = Inr (''errors'', crit, w, r) \<and>
            ''SECURITY: Using eval with arguments is dangerous'' \<in> set crit"
    by blast
  from bash b k have
    3: "\<exists>e. check_security ?fm eval_body = Inr e \<and>
            ''SECURITY ERROR: Using eval with arguments enables arbitrary code execution'' \<in> set e"
    and "\<forall>f d. ?fm = PDict d \<and> command_frontmatter_ok d \<and> on_disk f \<and>
             content f = Frontmatter ?fm eval_body \<longrightarrow>
           (\<exists>errs. validate_command f = Inr (False, errs) \<and>
              ''SECURITY ERROR: Using eval with arguments enables arbitrary code execution''
                \<in> set errs)"
    by blast+
  with ok f have
    4: "\<exists>errs. validate_command ?f = Inr (False, errs) \<and>
            ''SECURITY ERROR: Using eval with arguments enables arbitrary code execution''
              \<in> set errs"
    by blast
  from eval_flagged_when_bash_allowed [OF t0, of eval_body] b0 have
    5: "audit_check_security (PDict [(''allowed-tools'', PStr ''Read'')]) eval_body = Inr no_findings"
       "check_security (PDict [(''allowed-tools'', PStr ''Read'')]) eval_body = Inr []"
    by blast+
  from 1 2 3 4 5 show ?thesis by blast
qed

theorem eval_without_bash_counterexample:
  "str_in ''eval $ARGUMENTS'' eval_body \<and>
   bash_blocks eval_body = [''eval $ARGUMENTS'' @ nl] \<and>
   audit_validate_command
     \<lparr>path = ''commands/run-script.md'', stem = ''run-script'', on_disk = True,
      content = Frontmatter (PDict [(''description'', PStr ''Run a script with the given arguments''),
                                    (''argument-hint'', PStr ''[args]'')]) eval_body\<rparr>
     = Inr (''valid'', [], [], []) \<and>
   validate_command
     \<lparr>path = ''commands/run-script.md'', stem = ''run-script'', on_disk = True,
      content = Frontmatter (PDict [(''description'', PStr ''Run a script with the given arguments''),
                                    (''argument-hint'', PStr ''[args]'')]) eval_body\<rparr>
     = Inr (True, [])"
proof (intro conjI)
  show "str_in ''eval $ARGUMENTS'' eval_body"
    by (simp add: eval_body_def nl_def startswith_def)
  show "bash_blocks eval_body = [''eval $ARGUMENTS'' @ nl]"
    by (simp add: eval_body_def nl_def block_open_def startswith_def)
  show "audit_validate_command
     \<lparr>path = ''commands/run-script.md'', stem = ''run-script'', on_disk = True,
      content = Frontmatter (PDict [(''description'', PStr ''Run a script with the given arguments''),
                                    (''argument-hint'', PStr ''[args]'')]) eval_body\<rparr>
     = Inr (''valid'', [], [], [])"
    by (simp add: eval_body_def nl_def audit_validate_command_def audit_parse_command_def
          audit_check_filename_def name_pattern_def is_name_char_def audit_common_verbs_def
          startswith_def audit_check_description_def py_contains_def dict_has_def
          py_getitem_def py_len_def audit_check_model_def no_findings_def
          audit_check_tools_def audit_check_arguments_def is_digit_def
          audit_check_security_def py_get_def)
  show "validate_command
     \<lparr>path = ''commands/run-script.md'', stem = ''run-script'', on_disk = True,
      content = Frontmatter (PDict [(''description'', PStr ''Run a script with the given arguments''),
                                    (''argument-hint'', PStr ''[args]'')]) eval_body\<rparr>
     = Inr (True, [])"
    by (simp add: eval_body_def nl_def validate_command_def check_filename_def
          name_pattern_def is_name_char_def common_verbs_def startswith_def
          check_description_def py_contains_def dict_has_def py_getitem_def py_len_def
          check_tools_def check_model_def check_argument_hint_def py_str_def check_body_def
          is_digit_def check_security_def py_get_def)
qed

subsection \<open>A batch with a malformed file\<close>

text \<open>
  When every file of the batch is malformed or has a frontmatter typed as the schema has
  it, the loop of \<^verbatim>\<open>main\<close> reaches every file: a malformed file gets the status
  \<^verbatim>\<open>parse_error\<close> with one finding, every other file one of the three other statuses.
\<close>

lemma audit_validate_command_malformed:
  assumes "malformed f"
  shows "\<exists>e. audit_validate_command f = Inr (''parse_error'', [e], [], [])"
  using assms
  by (cases "content f") (simp_all add: malformed_def audit_validate_command_def audit_parse_command_def)

lemma audit_validate_command_analyzable:
  assumes "\<not> malformed f" "audit_validate_command f = Inr (status, c, w, r)"
  shows "status \<in> set [''valid'', ''warnings'', ''errors'']"
proof -
  from assms obtain fm body where "content f = Frontmatter fm body"
    by (cases "content f")
       (simp_all add: malformed_def audit_validate_command_def audit_parse_command_def)
  from audit_validate_command_Inr [OF this assms(2)] show ?thesis by simp
qed

lemma audit_validate_command_typed:
  assumes "typed_or_malformed f"
  shows "\<exists>rep. audit_validate_command f = Inr rep"
proof (cases "malformed f")
  case True
  from audit_validate_command_malformed [OF this] show ?thesis by blast
next
  case False
  with assms obtain fm body where c: "content f = Frontmatter fm body"
    by (cases "content f") (simp_all add: malformed_def typed_or_malformed_def)
  with assms obtain d where "fm = PDict d" "command_frontmatter_ok d"
    by (cases fm) (simp_all add: typed_or_malformed_def)
  with c audit_validate_command_total show ?thesis by blast
qed

lemma audit_commands_isolated:
  assumes "list_all typed_or_malformed files"
  shows "\<exists>rs. audit_commands files = Inr rs \<and> map fst rs = map path files \<and>
          (\<forall>i < length files.
             (malformed (files ! i) \<longrightarrow> (\<exists>e. snd (rs ! i) = (''parse_error'', [e], [], []))) \<and>
             (\<not> malformed (files ! i) \<longrightarrow>
                fst (snd (rs ! i)) \<in> set [''valid'', ''warnings'', ''errors'']))"
  using assms
proof (induction files)
  case Nil
  then show ?case by simp
next
  case (Cons f fs)
  then obtain rs where rs: "audit_commands fs = Inr rs" "map fst rs = map path fs"
    and nth: "\<And>i. i < length fs \<Longrightarrow>
             (malformed (fs ! i) \<longrightarrow> (\<exists>e. snd (rs ! i) = (''parse_error'', [e], [], []))) \<and>
             (\<not> malformed (fs ! i) \<longrightarrow>
                fst (snd (rs ! i)) \<in> set [''valid'', ''warnings'', ''errors''])"
    by auto
  from Cons.prems audit_validate_command_typed [of f] obtain rep where
    rep: "audit_validate_command f = Inr rep" by auto
  have head: "(malformed f \<longrightarrow> (\<exists>e. rep = (''parse_error'', [e], [], []))) \<and>
        (\<not> malformed f \<longrightarrow> fst rep \<in> set [''valid'', ''warnings'', ''errors''])"
    using rep audit_validate_command_malformed [of f]
      audit_validate_command_analyzable [of f "fst rep" "fst (snd rep)" "fst (snd (snd rep))"
        "snd (snd (snd rep))"]
    by auto
  have "audit_commands (f # fs) = Inr ((path f, rep) # rs)"
    by (simp add: rep rs)
  moreover have "map fst ((path f, rep) # rs) = map path (f # fs)"
    by (simp add: rs)
  moreover have "(malformed ((f # fs) ! i) \<longrightarrow>
             (\<exists>e. snd (((path f, rep) # rs) ! i) = (''parse_error'', [e], [], []))) \<and>
             (\<not> malformed ((f # fs) ! i) \<longrightarrow>
                fst (snd (((path f, rep) # rs) ! i)) \<in> set [''valid'', ''warnings'', ''errors''])"
    if "i < length (f # fs)" for i
  proof (cases i)
    case 0
    with head show ?thesis by simp
  next
    case (Suc n)
    with that nth [of n] show ?thesis by simp
  qed
  ultimately show ?case by blast
qed

text \<open>
  C5 says that a batch of command files in which exactly one has a malformed metadata
  block is audited to the end, without an uncaught exception. The malformed file alone is
  handled as the claim says. But the loop has no handler, and a second file whose
  frontmatter decodes without error to a mapping with an empty \<^verbatim>\<open>description:\<close> (the value
  \<^verbatim>\<open>None\<close>), or to \<^verbatim>\<open>None\<close> itself when the block holds no key, makes
  \<^verbatim>\<open>validate_command\<close> raise \<^verbatim>\<open>TypeError\<close>: the audit stops and reports nothing.
\<close>

theorem audit_commands_blank_description:
  "audit_validate_command
     \<lparr>path = ''commands/deploy.md'', stem = ''deploy'', on_disk = True,
      content = No_frontmatter\<rparr>
     = Inr (''parse_error'', [''Missing YAML frontmatter''], [], []) \<and>
   audit_commands
     [\<lparr>path = ''commands/deploy.md'', stem = ''deploy'', on_disk = True,
       content = No_frontmatter\<rparr>,
      \<lparr>path = ''commands/show-status.md'', stem = ''show-status'', on_disk = True,
       content = Frontmatter (PDict [(''description'', PNone)]) ''Show the status.''\<rparr>]
     = Inl TypeError \<and>
   audit_commands
     [\<lparr>path = ''commands/deploy.md'', stem = ''deploy'', on_disk = True,
       content = No_frontmatter\<rparr>,
      \<lparr>path = ''commands/show-status.md'', stem = ''show-status'', on_disk = True,
       content = Frontmatter PNone ''Show the status.''\<rparr>]
     = Inl TypeError"
  by (simp add: audit_validate_command_def audit_parse_command_def audit_check_description_def
        py_contains_def dict_has_def py_getitem_def py_len_def)

end
